(* ===== verification/Prelude.thy ===== *)
theory Prelude
  imports Main "HOL-Library.Word" "HOL-Library.Monad_Syntax" "HOL-Library.Signed_Division"
begin

text \<open>
  What every component shares: the names of the C types of the target (32-bit ARM, built by
  the Makefile for a Cortex-A7, so \<^verbatim>\<open>long\<close>, \<^verbatim>\<open>size_t\<close> and pointers have 32 bits and
  \<^verbatim>\<open>char\<close> is unsigned), the result type of a call and the checked arithmetic of signed types.

  A call that produces a result \<open>r\<close> is \<open>Some r\<close>. \<open>None\<close> says that the call has no defined
  result: a \<open>VERIFY\<close> failed or \<open>kpanicln\<close> ran, which both end in the endless loop of
  \<open>halt_cpu\<close> (\<^verbatim>\<open>include/kernel/lib/kassertions.h\<close>, \<^verbatim>\<open>arch/cpu/mission_control.c\<close>), a loop
  never ended, or C leaves the behaviour undefined (a signed overflow, a division by zero, an
  access outside an array, a NULL dereference). A theorem \<open>f x = Some r\<close> therefore excludes
  all of these.
\<close>

unbundle bit_operations_syntax

type_synonym u8 = "8 word"
type_synonym u16 = "16 word"
type_synonym u32 = "32 word"

section \<open>Assertions\<close>

definition verify :: "bool \<Rightarrow> unit option" where
  "verify b = (if b then Some () else None)"

lemma verify_True [simp]: "verify True = Some ()"
  by (simp add: verify_def)

lemma verify_False [simp]: "verify False = None"
  by (simp add: verify_def)

lemma verify_eq_Some [simp]: "verify b = Some u \<longleftrightarrow> b"
  by (simp add: verify_def)

lemma verify_eq_None [simp]: "verify b = None \<longleftrightarrow> \<not> b"
  by (simp add: verify_def)

lemma bind_verify [simp]: "(verify b \<bind> f) = (if b then f () else None)"
  by (simp add: verify_def)

section \<open>Signed arithmetic\<close>

text \<open>
  Values of C's \<^verbatim>\<open>long\<close> and \<^verbatim>\<open>int\<close> are integers in a 32-bit range. Every operation whose
  mathematical result leaves the range is undefined behaviour. Division and remainder truncate
  towards zero (\<open>sdiv\<close>, \<open>smod\<close>).
\<close>

abbreviation LONG_MAX :: int where "LONG_MAX \<equiv> 2147483647"
abbreviation LONG_MIN :: int where "LONG_MIN \<equiv> - 2147483648"

definition in_long :: "int \<Rightarrow> bool" where
  "in_long x \<longleftrightarrow> LONG_MIN \<le> x \<and> x \<le> LONG_MAX"

definition long :: "int \<Rightarrow> int option" where
  "long x = (if in_long x then Some x else None)"

definition long_div :: "int \<Rightarrow> int \<Rightarrow> int option" where
  "long_div a b = (if b = 0 then None else long (a sdiv b))"

definition long_mod :: "int \<Rightarrow> int \<Rightarrow> int option" where
  "long_mod a b = (if b = 0 \<or> \<not> in_long (a sdiv b) then None else Some (a smod b))"

text \<open>
  Conversions between unsigned and signed 32-bit values keep the bit pattern (the rule of the
  compiler the Makefile names for a value that does not fit).
\<close>

definition long_of_unsigned :: "u32 \<Rightarrow> int" where
  "long_of_unsigned w = sint w"

definition unsigned_of_long :: "int \<Rightarrow> u32" where
  "unsigned_of_long x = word_of_int x"

lemma long_eq_Some [simp]: "long x = Some y \<longleftrightarrow> in_long x \<and> y = x"
  by (auto simp: long_def)

lemma long_in [simp]: "in_long x \<Longrightarrow> long x = Some x"
  by (simp add: long_def)

lemma long_out [simp]: "\<not> in_long x \<Longrightarrow> long x = None"
  by (simp add: long_def)

lemma in_longI [intro]: "LONG_MIN \<le> x \<Longrightarrow> x \<le> LONG_MAX \<Longrightarrow> in_long x"
  by (simp add: in_long_def)

lemma in_long_between: "in_long b \<Longrightarrow> in_long c \<Longrightarrow> b \<le> x \<Longrightarrow> x \<le> c \<Longrightarrow> in_long x"
  by (simp add: in_long_def)

lemma sdiv_nonneg: "0 \<le> a \<Longrightarrow> 0 < b \<Longrightarrow> a sdiv b = a div (b::int)"
  by (cases "a = 0") (simp_all add: signed_divide_int_def)

lemma smod_nonneg: "0 \<le> a \<Longrightarrow> 0 < b \<Longrightarrow> a smod b = a mod (b::int)"
  by (cases "a = 0") (simp_all add: smod_int_alt_def)

section \<open>Unsigned arithmetic\<close>

lemma unat_u32_less: "unat (w :: u32) < 4294967296"
proof -
  have "unat w < 2 ^ LENGTH(32)" by (rule unsigned_less)
  then show ?thesis by simp
qed

lemma nat_and_pred_0:
  fixes x :: nat
  assumes "0 < x" "x AND (x - 1) = 0"
  shows "\<exists>n. x = 2 ^ n"
  using assms
proof (induction x rule: less_induct)
  case (less x)
  show ?case
  proof (cases "even x")
    case True
    then obtain y where y: "x = 2 * y" by (auto elim: evenE)
    with less.prems have "0 < y" by simp
    then have "odd (2 * y - 1)" and h: "(2 * y - 1) div 2 = y - 1" by auto
    then have "x AND (x - 1) = 2 * (y AND (y - 1))"
      by (subst and_nat_rec) (simp add: y del: One_nat_def)
    with less.prems have "y AND (y - 1) = 0" by simp
    with less.IH [of y] y \<open>0 < y\<close> obtain n where "y = 2 ^ n" by auto
    with y have "x = 2 ^ Suc n" by simp
    then show ?thesis by blast
  next
    case False
    then obtain y where y: "x = 2 * y + 1" by (auto elim: oddE)
    then have "x AND (x - 1) = 2 * y"
      by (simp add: and_nat_rec [of "Suc (2 * y)" "2 * y"])
    with less.prems y have "x = 2 ^ 0" by simp
    then show ?thesis by blast
  qed
qed

lemma unat_add_mod_pow:
  assumes "n < 32"
  shows "unat (a + b :: u32) mod 2 ^ n = (unat a + unat b) mod 2 ^ n"
proof -
  have "(2::nat) ^ n dvd 2 ^ 32" using assms by (intro le_imp_power_dvd) simp
  then show ?thesis by (simp add: unat_word_ariths mod_mod_cancel)
qed

text \<open>Adding a multiple of a power of two keeps the bits below it.\<close>

lemma take_bit_add_aligned:
  fixes a b :: u32
  assumes "n < 32" "take_bit n b = 0"
  shows "take_bit n (a + b) = take_bit n a"
proof -
  have u: "unat (take_bit n w) = unat w mod 2 ^ n" for w :: u32
    using unsigned_take_bit_eq [of n w, where 'a = nat] by (simp only: take_bit_eq_mod [of n "unat w"])
  have "unat b mod 2 ^ n = 0" using assms(2) u [of b] by simp
  then have "unat (take_bit n (a + b)) = unat (take_bit n a)"
    unfolding u unat_add_mod_pow [OF assms(1)] by (metis mod_add_right_eq add_0_right)
  then show ?thesis by (rule unsigned_word_eqI)
qed

section \<open>Counting loops\<close>

text \<open>\<^verbatim>\<open>for (i = i; i < n; i++) body\<close> over a state.\<close>

function for_upto :: "nat \<Rightarrow> nat \<Rightarrow> (nat \<Rightarrow> 's \<Rightarrow> 's option) \<Rightarrow> 's \<Rightarrow> 's option" where
  "for_upto i n body s =
     (if i < n then body i s \<bind> for_upto (Suc i) n body else Some s)"
  by pat_completeness auto
termination
  by (relation "measure (\<lambda>(i, n, body, s). n - i)") auto

declare for_upto.simps [simp del]

lemma for_upto_done [simp]: "n \<le> i \<Longrightarrow> for_upto i n body s = Some s"
  by (simp add: for_upto.simps)

lemma for_upto_rule:
  assumes "P i s" "i \<le> n"
    and "\<And>k s. i \<le> k \<Longrightarrow> k < n \<Longrightarrow> P k s \<Longrightarrow> \<exists>s'. body k s = Some s' \<and> P (Suc k) s'"
  shows "\<exists>s'. for_upto i n body s = Some s' \<and> P n s'"
  using assms
proof (induction "n - i" arbitrary: i s)
  case 0
  then show ?case by simp
next
  case (Suc m)
  then have "i < n" by simp
  with Suc.prems obtain s1 where s1: "body i s = Some s1" "P (Suc i) s1" by blast
  have "\<exists>s'. for_upto (Suc i) n body s1 = Some s' \<and> P n s'"
    using Suc.hyps(2) \<open>i < n\<close> s1(2) Suc.prems(3) by (intro Suc.hyps(1)) auto
  with s1(1) \<open>i < n\<close> show ?case by (simp add: for_upto.simps [of i])
qed

text \<open>A loop whose states are known.\<close>

lemma for_upto_eq:
  assumes "g i = s" "i \<le> n" "\<And>k. i \<le> k \<Longrightarrow> k < n \<Longrightarrow> body k (g k) = Some (g (Suc k))"
  shows "for_upto i n body s = Some (g n)"
proof -
  have "\<exists>s'. for_upto i n body s = Some s' \<and> s' = g n"
    by (rule for_upto_rule) (use assms in simp_all)
  then show ?thesis by simp
qed

text \<open>A loop one of whose rounds has no result has none.\<close>

lemma for_upto_None:
  assumes "i \<le> k" "k < n" "\<And>s. body k s = None"
  shows "for_upto i n body s = None"
  using assms
proof (induction "k - i" arbitrary: i s)
  case 0
  then show ?case by (simp add: for_upto.simps [of i])
next
  case (Suc m)
  then have "m = k - Suc i" "Suc i \<le> k" "i < n" by simp_all
  with Suc.hyps(1) Suc.prems have "for_upto (Suc i) n body t = None" for t by blast
  with \<open>i < n\<close> show ?case by (cases "body i s") (simp_all add: for_upto.simps [of i])
qed

section \<open>Error codes\<close>

text \<open>\<^verbatim>\<open>include/kernel/lib/kerror.h\<close>; functions return the negated code.\<close>

definition K_EINVAL :: int where "K_EINVAL = 1"
definition K_ERANGE :: int where "K_ERANGE = 2"
definition K_EBUSY :: int where "K_EBUSY = 3"

lemmas error_code_defs = K_EINVAL_def K_ERANGE_def K_EBUSY_def

end
