(* ===== verification/Node_Lists.thy ===== *)
theory Node_Lists
  imports Prelude
begin

text \<open>
  The interface between the intrusive lists and the scheduler. A provider of \<open>node_lists\<close> has a
  heap \<open>'h\<close> in which \<open>is_list h l xs\<close> says that the list with head \<open>l\<close> holds the nodes \<open>xs\<close>, and
  \<open>alone h n\<close> that the node \<open>n\<close> is in no list; its laws say what each operation does to one
  list and that it leaves everything else as it is.

  A client, the scheduler, keeps a whole family of lists in one heap. \<open>family\<close> says that the
  heads \<open>H\<close> hold the lists \<open>L\<close>, that no node of \<open>N\<close> is in two of them, and that a node in none
  of them is alone. The lemmas of the locale lift each operation to the family: it returns, and
  the family afterwards differs by an update of \<open>L\<close>.
\<close>

definition family ::
  "('h \<Rightarrow> 'a \<Rightarrow> 'a list \<Rightarrow> bool) \<Rightarrow> ('h \<Rightarrow> 'a \<Rightarrow> bool) \<Rightarrow> 'a set \<Rightarrow> 'a set \<Rightarrow> 'h \<Rightarrow> ('a \<Rightarrow> 'a list) \<Rightarrow> bool" where
  "family is_list alone H N h L \<longleftrightarrow>
     H \<inter> N = {} \<and>
     (\<forall>l \<in> H. is_list h l (L l) \<and> set (L l) \<subseteq> N) \<and>
     (\<forall>l \<in> H. \<forall>m \<in> H. l \<noteq> m \<longrightarrow> set (L l) \<inter> set (L m) = {}) \<and>
     (\<forall>n \<in> N. (\<forall>l \<in> H. n \<notin> set (L l)) \<longrightarrow> alone h n)"

definition in_no_list :: "'a set \<Rightarrow> ('a \<Rightarrow> 'a list) \<Rightarrow> 'a \<Rightarrow> bool" where
  "in_no_list H L n \<longleftrightarrow> (\<forall>l \<in> H. n \<notin> set (L l))"

text \<open>
  The abstract list after an insertion by comparison, where \<open>P a\<close> is the result of comparing
  \<open>a\<close> with the new node: behind the nodes that compare true. If the first one does not, the new
  node goes to the end of the list.
\<close>

definition insert_sorted_list :: "('a \<Rightarrow> bool) \<Rightarrow> 'a \<Rightarrow> 'a list \<Rightarrow> 'a list" where
  "insert_sorted_list P n xs =
     (if takeWhile P xs = [] then xs @ [n] else takeWhile P xs @ n # dropWhile P xs)"

lemma set_insert_sorted_list [simp]: "set (insert_sorted_list P n xs) = insert n (set xs)"
  by (auto simp: insert_sorted_list_def dest: set_takeWhileD set_dropWhileD)
     (metis Un_iff set_append takeWhile_dropWhile_id)

locale node_lists =
  fixes is_list :: "'h \<Rightarrow> 'a \<Rightarrow> 'a list \<Rightarrow> bool"
    and alone :: "'h \<Rightarrow> 'a \<Rightarrow> bool"
    and same :: "'a set \<Rightarrow> 'h \<Rightarrow> 'h \<Rightarrow> bool"
    and remove :: "'a \<Rightarrow> 'a \<Rightarrow> 'h \<Rightarrow> 'h option"
    and push_front :: "'a \<Rightarrow> 'a \<Rightarrow> 'h \<Rightarrow> 'h option"
    and push_behind :: "'a \<Rightarrow> 'a \<Rightarrow> 'h \<Rightarrow> 'h option"
    and insert_by :: "('a option \<Rightarrow> 'a option \<Rightarrow> bool option) \<Rightarrow> 'a \<Rightarrow> 'a \<Rightarrow> 'h \<Rightarrow> 'h option"
  assumes list_distinct: "is_list h l xs \<Longrightarrow> distinct xs"
    and list_frame: "is_list h l xs \<Longrightarrow> same A h h' \<Longrightarrow> l \<notin> A \<Longrightarrow> set xs \<inter> A = {} \<Longrightarrow> is_list h' l xs"
    and alone_frame: "alone h n \<Longrightarrow> same A h h' \<Longrightarrow> n \<notin> A \<Longrightarrow> alone h' n"
    and remove_law: "is_list h l xs \<Longrightarrow> n \<in> set xs \<Longrightarrow>
      \<exists>h'. remove l n h = Some h' \<and> is_list h' l (remove1 n xs) \<and> alone h' n \<and>
        same (insert l (insert n (set xs))) h h'"
    and push_front_law: "is_list h l xs \<Longrightarrow> alone h n \<Longrightarrow> n \<notin> set xs \<Longrightarrow>
      \<exists>h'. push_front l n h = Some h' \<and> is_list h' l (n # xs) \<and> same (insert l (insert n (set xs))) h h'"
    and push_behind_law: "is_list h l (as @ a # bs) \<Longrightarrow> alone h n \<Longrightarrow> n \<notin> set (as @ a # bs) \<Longrightarrow> n \<noteq> l \<Longrightarrow>
      \<exists>h'. push_behind a n h = Some h' \<and> is_list h' l (as @ a # n # bs) \<and>
        same (insert l (insert n (set (as @ a # bs)))) h h'"
    and insert_by_law: "is_list h l xs \<Longrightarrow> alone h n \<Longrightarrow> n \<notin> set xs \<Longrightarrow> n \<noteq> l \<Longrightarrow>
      (\<And>a. a \<in> set xs \<Longrightarrow> cmp (Some a) (Some n) = Some (P a)) \<Longrightarrow>
      \<exists>h'. insert_by cmp l n h = Some h' \<and> is_list h' l (insert_sorted_list P n xs) \<and>
        same (insert l (insert n (set xs))) h h'"
begin

abbreviation fam :: "'a set \<Rightarrow> 'a set \<Rightarrow> 'h \<Rightarrow> ('a \<Rightarrow> 'a list) \<Rightarrow> bool" where
  "fam \<equiv> family is_list alone"

lemma fam_list: "fam H N h L \<Longrightarrow> l \<in> H \<Longrightarrow> is_list h l (L l)"
  by (simp add: family_def)

lemma fam_distinct: "fam H N h L \<Longrightarrow> l \<in> H \<Longrightarrow> distinct (L l)"
  by (blast intro: list_distinct fam_list)

lemma fam_disjoint: "fam H N h L \<Longrightarrow> l \<in> H \<Longrightarrow> m \<in> H \<Longrightarrow> l \<noteq> m \<Longrightarrow> set (L l) \<inter> set (L m) = {}"
  by (simp add: family_def)

lemma fam_node: "fam H N h L \<Longrightarrow> l \<in> H \<Longrightarrow> n \<in> set (L l) \<Longrightarrow> n \<in> N"
  by (auto simp: family_def)

lemma fam_alone: "fam H N h L \<Longrightarrow> n \<in> N \<Longrightarrow> in_no_list H L n \<Longrightarrow> alone h n"
  by (simp add: family_def in_no_list_def)

text \<open>One list changes by one node, the rest of the family is framed away.\<close>

lemma fam_update:
  assumes "fam H N h L" "l \<in> H" "n \<in> N" "\<And>m. m \<in> H \<Longrightarrow> m \<noteq> l \<Longrightarrow> n \<notin> set (L m)"
    and same: "same (insert l (insert n (set (L l)))) h h'"
    and new: "is_list h' l ys" "set ys \<subseteq> insert n (set (L l))" "set (L l) \<subseteq> insert n (set ys)"
    and al: "n \<notin> set ys \<Longrightarrow> alone h' n"
  shows "fam H N h' (L(l := ys))"
proof -
  have HN: "H \<inter> N = {}" and lN: "set (L l) \<subseteq> N" using assms(1,2) by (auto simp: family_def)
  have "is_list h' m (L m)" if "m \<in> H" "m \<noteq> l" for m
  proof (rule list_frame [OF _ same])
    show "is_list h m (L m)" using assms(1) that by (simp add: family_def)
    show "m \<notin> insert l (insert n (set (L l)))" using that HN lN assms(3) by auto
    show "set (L m) \<inter> insert l (insert n (set (L l))) = {}"
      using fam_disjoint [OF assms(1) that(1) assms(2) that(2)] assms(4) [OF that] that
        fam_node [OF assms(1) that(1)] HN assms(2) by auto
  qed
  moreover have "alone h' m" if "m \<in> N" "\<forall>k \<in> H. m \<notin> set ((L(l := ys)) k)" for m
  proof (cases "m = n")
    case True
    with that al assms(2) show ?thesis by auto
  next
    case False
    then have "\<forall>k \<in> H. m \<notin> set (L k)" using that assms(2) new(3) by (auto split: if_splits)
    then have "alone h m" using assms(1) that(1) by (simp add: family_def)
    then show ?thesis
      by (rule alone_frame [OF _ same]) (use False that assms(2) \<open>\<forall>k \<in> H. m \<notin> set (L k)\<close> HN in auto)
  qed
  moreover have "set ((L(l := ys)) k) \<inter> set ((L(l := ys)) m) = {}" if "k \<in> H" "m \<in> H" "k \<noteq> m" for k m
    using fam_disjoint [OF assms(1) that] assms(4) [OF that(1)] assms(4) [OF that(2)] new(2) that
    by auto
  moreover have "set ys \<subseteq> N" using new(2) lN assms(3) by auto
  ultimately show ?thesis
    using assms(1-3) new(1) HN by (auto simp: family_def)
qed

lemma fam_remove:
  assumes "fam H N h L" "l \<in> H" "n \<in> set (L l)"
  obtains h' where "remove l n h = Some h'" "fam H N h' (L(l := remove1 n (L l)))"
    "in_no_list H (L(l := remove1 n (L l))) n"
proof -
  have d: "distinct (L l)" using assms fam_distinct by blast
  have other: "m \<in> H \<Longrightarrow> m \<noteq> l \<Longrightarrow> n \<notin> set (L m)" for m
    using fam_disjoint [OF assms(1,2), of m] assms(3) by auto
  obtain h' where h': "remove l n h = Some h'" "is_list h' l (remove1 n (L l))" "alone h' n"
      "same (insert l (insert n (set (L l)))) h h'"
    using remove_law [OF fam_list [OF assms(1,2)] assms(3)] by blast
  have "fam H N h' (L(l := remove1 n (L l)))"
    by (rule fam_update [OF assms(1,2) fam_node [OF assms] other h'(4,2)]) (use d h'(3) in auto)
  moreover have "in_no_list H (L(l := remove1 n (L l))) n"
    using other d by (auto simp: in_no_list_def)
  ultimately show ?thesis using h'(1) by (intro that)
qed

lemma fam_push_front:
  assumes "fam H N h L" "l \<in> H" "n \<in> N" "in_no_list H L n"
  obtains h' where "push_front l n h = Some h'" "fam H N h' (L(l := n # L l))"
proof -
  have out: "n \<notin> set (L m)" if "m \<in> H" for m using assms(4) that by (simp add: in_no_list_def)
  obtain h' where h': "push_front l n h = Some h'" "is_list h' l (n # L l)"
      "same (insert l (insert n (set (L l)))) h h'"
    using push_front_law [OF fam_list [OF assms(1,2)] fam_alone [OF assms(1,3,4)] out [OF assms(2)]] by blast
  have "fam H N h' (L(l := n # L l))"
    by (rule fam_update [OF assms(1-3) out h'(3,2)]) auto
  then show ?thesis using h'(1) by (intro that)
qed

lemma fam_push_back:
  assumes "fam H N h L" "l \<in> H" "n \<in> N" "in_no_list H L n" "L l \<noteq> []"
  obtains h' where "push_behind (last (L l)) n h = Some h'" "fam H N h' (L(l := L l @ [n]))"
proof -
  have out: "n \<notin> set (L m)" if "m \<in> H" for m using assms(4) that by (simp add: in_no_list_def)
  have nl: "n \<noteq> l" using assms(1-3) by (auto simp: family_def)
  have split: "L l = butlast (L l) @ last (L l) # []" using assms(5) by simp
  have cons: "butlast (L l) @ last (L l) # n # [] = L l @ [n]"
    using assms(5) by (metis append_Cons append_Nil append_assoc append_butlast_last_id)
  have "is_list h l (butlast (L l) @ last (L l) # [])" using fam_list [OF assms(1,2)] split by simp
  then obtain h' where h': "push_behind (last (L l)) n h = Some h'" "is_list h' l (L l @ [n])"
      "same (insert l (insert n (set (L l)))) h h'"
    using push_behind_law [of h l "butlast (L l)" "last (L l)" "[]" n] out [OF assms(2)] nl
      fam_alone [OF assms(1,3,4)] unfolding cons split [symmetric] by blast
  have "fam H N h' (L(l := L l @ [n]))"
    by (rule fam_update [OF assms(1-3) out h'(3,2)]) auto
  then show ?thesis using h'(1) by (intro that)
qed

lemma fam_insert_by:
  assumes "fam H N h L" "l \<in> H" "n \<in> N" "in_no_list H L n"
    and "\<And>a. a \<in> set (L l) \<Longrightarrow> cmp (Some a) (Some n) = Some (P a)"
  obtains h' where "insert_by cmp l n h = Some h'" "fam H N h' (L(l := insert_sorted_list P n (L l)))"
proof -
  have out: "n \<notin> set (L m)" if "m \<in> H" for m using assms(4) that by (simp add: in_no_list_def)
  have nl: "n \<noteq> l" using assms(1-3) by (auto simp: family_def)
  obtain h' where h': "insert_by cmp l n h = Some h'" "is_list h' l (insert_sorted_list P n (L l))"
      "same (insert l (insert n (set (L l)))) h h'"
    using insert_by_law [OF fam_list [OF assms(1,2)] fam_alone [OF assms(1,3,4)] out [OF assms(2)] nl,
        where cmp = cmp and P = P] assms(5) by blast
  have "fam H N h' (L(l := insert_sorted_list P n (L l)))"
    by (rule fam_update [OF assms(1-3) out h'(3,2)]) auto
  then show ?thesis using h'(1) by (intro that)
qed

lemma fam_move_front:
  assumes "fam H N h L" "a \<in> H" "b \<in> H" "a \<noteq> b" "n \<in> set (L a)"
  obtains h' where "remove a n h \<bind> push_front b n = Some h'"
    "fam H N h' (L(a := remove1 n (L a), b := n # L b))"
proof -
  obtain h1 where h1: "remove a n h = Some h1" "fam H N h1 (L(a := remove1 n (L a)))"
      "in_no_list H (L(a := remove1 n (L a))) n"
    using fam_remove [OF assms(1,2,5)] .
  obtain h2 where "push_front b n h1 = Some h2"
      "fam H N h2 (L(a := remove1 n (L a), b := n # (L(a := remove1 n (L a))) b))"
    using fam_push_front [OF h1(2) assms(3) fam_node [OF assms(1,2,5)] h1(3)] .
  then show ?thesis using h1(1) assms(4) by (intro that [of h2]) auto
qed

lemma fam_move_back:
  assumes "fam H N h L" "a \<in> H" "b \<in> H" "a \<noteq> b" "n \<in> set (L a)" "L b \<noteq> []"
  obtains h' where "remove a n h \<bind> push_behind (last (L b)) n = Some h'"
    "fam H N h' (L(a := remove1 n (L a), b := L b @ [n]))"
proof -
  obtain h1 where h1: "remove a n h = Some h1" "fam H N h1 (L(a := remove1 n (L a)))"
      "in_no_list H (L(a := remove1 n (L a))) n"
    using fam_remove [OF assms(1,2,5)] .
  have Lb: "(L(a := remove1 n (L a))) b = L b" using assms(4) by simp
  obtain h2 where "push_behind (last (L b)) n h1 = Some h2"
      "fam H N h2 (L(a := remove1 n (L a), b := L b @ [n]))"
    using fam_push_back [OF h1(2) assms(3) fam_node [OF assms(1,2,5)] h1(3)] assms(6) unfolding Lb by blast
  then show ?thesis using h1(1) by (intro that [of h2]) auto
qed

end

end
