(* ===== verification/Intrusive_List.thy ===== *)
theory Intrusive_List
  imports Node_Lists
begin

text \<open>
  \<^verbatim>\<open>kernel/lib/kintrusive_list.c\<close>: circular doubly linked lists whose nodes are fields of the
  objects they chain. The nodes live in a heap, a function from addresses (any type \<open>'a\<close>) to
  \<open>k_node\<close>; a pointer is an address or NULL (\<open>None\<close>). A list has a head node, whose
  \<open>previous\<close> is NULL and whose \<open>next\<close> (here \<open>nxt\<close>) points to the first node or is NULL; the
  nodes themselves form a ring that does not run through the head.

  The second half relates the heap to abstract lists: \<open>klist h l xs\<close> says that the list with
  head \<open>l\<close> holds the nodes \<open>xs\<close> in this order. Each operation has a lemma with what it does to
  the abstract list, that it returns (no assertion fails, no NULL is read) and that it changes
  no node outside of the list it works on.
\<close>

section \<open>Nodes and the heap\<close>

type_synonym 'a ptr = "'a option"

record 'a k_node =
  previous :: "'a ptr"
  nxt :: "'a ptr"

type_synonym 'a heap = "'a \<Rightarrow> 'a k_node"

definition load :: "'a heap \<Rightarrow> 'a ptr \<Rightarrow> 'a k_node option" where
  "load h p = map_option h p"

definition store_next :: "'a ptr \<Rightarrow> 'a ptr \<Rightarrow> 'a heap \<Rightarrow> 'a heap option" where
  "store_next p v h = map_option (\<lambda>a. h(a := (h a)\<lparr>nxt := v\<rparr>)) p"

definition store_previous :: "'a ptr \<Rightarrow> 'a ptr \<Rightarrow> 'a heap \<Rightarrow> 'a heap option" where
  "store_previous p v h = map_option (\<lambda>a. h(a := (h a)\<lparr>previous := v\<rparr>)) p"

section \<open>Operations\<close>

definition k_is_list_head :: "'a heap \<Rightarrow> 'a ptr \<Rightarrow> bool option" where
  "k_is_list_head h n = do {
     verify (n \<noteq> None);
     x \<leftarrow> load h n;
     Some (previous x = None)
   }"

definition k_is_list_node :: "'a heap \<Rightarrow> 'a ptr \<Rightarrow> bool option" where
  "k_is_list_node h n = do {
     verify (n \<noteq> None);
     x \<leftarrow> load h n;
     Some (previous x \<noteq> None \<and> nxt x \<noteq> None)
   }"

definition k_is_list_empty :: "'a heap \<Rightarrow> 'a ptr \<Rightarrow> bool option" where
  "k_is_list_empty h list = do {
     b \<leftarrow> k_is_list_head h list;
     verify b;
     l \<leftarrow> load h list;
     Some (nxt l = None)
   }"

definition k_get_first_node :: "'a heap \<Rightarrow> 'a ptr \<Rightarrow> 'a ptr option" where
  "k_get_first_node h list = do {
     b \<leftarrow> k_is_list_head h list;
     verify b;
     e \<leftarrow> k_is_list_empty h list;
     verify (\<not> e);
     l \<leftarrow> load h list;
     b \<leftarrow> k_is_list_node h (nxt l);
     verify b;
     Some (nxt l)
   }"

definition k_get_last_node :: "'a heap \<Rightarrow> 'a ptr \<Rightarrow> 'a ptr option" where
  "k_get_last_node h list = do {
     b \<leftarrow> k_is_list_head h list;
     verify b;
     e \<leftarrow> k_is_list_empty h list;
     verify (\<not> e);
     l \<leftarrow> load h list;
     f \<leftarrow> load h (nxt l);
     b \<leftarrow> k_is_list_node h (previous f);
     verify b;
     Some (previous f)
   }"

definition k_is_first_node :: "'a heap \<Rightarrow> 'a ptr \<Rightarrow> 'a ptr \<Rightarrow> bool option" where
  "k_is_first_node h list n = do {
     e \<leftarrow> k_is_list_empty h list;
     if e then Some False
     else do {
       f \<leftarrow> k_get_first_node h list;
       Some (f = n)
     }
   }"

definition k_is_last_node :: "'a heap \<Rightarrow> 'a ptr \<Rightarrow> 'a ptr \<Rightarrow> bool option" where
  "k_is_last_node h list n = do {
     e \<leftarrow> k_is_list_empty h list;
     if e then Some False
     else do {
       f \<leftarrow> k_get_last_node h list;
       Some (f = n)
     }
   }"

definition k_connect_nodes :: "'a ptr \<Rightarrow> 'a ptr \<Rightarrow> 'a heap \<Rightarrow> 'a heap option" where
  "k_connect_nodes from to h = do {
     b \<leftarrow> k_is_list_node h from;
     verify b;
     b \<leftarrow> k_is_list_node h to;
     verify b;
     h \<leftarrow> store_next from to h;
     store_previous to from h
   }"

definition k_remove_node_from_list :: "'a ptr \<Rightarrow> 'a ptr \<Rightarrow> 'a heap \<Rightarrow> 'a heap option" where
  "k_remove_node_from_list list n h = do {
     b \<leftarrow> k_is_list_head h list;
     verify b;
     b \<leftarrow> k_is_list_node h n;
     verify b;
     l \<leftarrow> load h list;
     x \<leftarrow> load h n;
     h \<leftarrow> (if nxt l = n
          then if n = previous x \<and> n = nxt x
               then store_next list None h
               else store_next list (nxt x) h
          else Some h);
     x \<leftarrow> load h n;
     h \<leftarrow> k_connect_nodes (previous x) (nxt x) h;
     k_connect_nodes n n h
   }"

text \<open>
  When \<open>list\<close> is a head, the new node goes behind the last node and becomes the first one; when
  \<open>list\<close> is a node, the new node goes behind it.
\<close>

definition k_append_node_to_list :: "'a ptr \<Rightarrow> 'a ptr \<Rightarrow> 'a heap \<Rightarrow> 'a heap option" where
  "k_append_node_to_list list n h = do {
     b \<leftarrow> k_is_list_node h list;
     b \<leftarrow> (if b then Some True else k_is_list_head h list);
     verify b;
     b \<leftarrow> k_is_list_node h n;
     verify b;
     verify (list \<noteq> n);
     is_head \<leftarrow> k_is_list_head h list;
     l \<leftarrow> load h list;
     if is_head \<and> nxt l = None then store_next list n h
     else do {
       (list, h) \<leftarrow> (if is_head
          then do {
            let head = list;
            list \<leftarrow> k_get_last_node h list;
            h \<leftarrow> store_next head n h;
            Some (list, h)
          }
          else Some (list, h));
       l \<leftarrow> load h list;
       h \<leftarrow> k_connect_nodes n (nxt l) h;
       k_connect_nodes list n h
     }
   }"

text \<open>
  The loop of \<open>k_insert_sorted\<close>; its result is the value of \<open>current\<close> behind it. On a ring
  whose nodes the head does not reach it would not end, which is \<open>None\<close>.
\<close>

partial_function (option) k_insert_sorted_loop ::
  "'a heap \<Rightarrow> 'a ptr \<Rightarrow> 'a ptr \<Rightarrow> ('a ptr \<Rightarrow> 'a ptr \<Rightarrow> bool option) \<Rightarrow> 'a ptr \<Rightarrow> 'a ptr option" where
  "k_insert_sorted_loop h list n cmp current = do {
     c \<leftarrow> cmp current n;
     if c then do {
       x \<leftarrow> load h current;
       f \<leftarrow> k_get_first_node h list;
       if nxt x = f then Some (nxt x)
       else k_insert_sorted_loop h list n cmp (nxt x)
     }
     else Some current
   }"

declare k_insert_sorted_loop.simps [code]

definition k_insert_sorted ::
  "'a ptr \<Rightarrow> 'a ptr \<Rightarrow> ('a ptr \<Rightarrow> 'a ptr \<Rightarrow> bool option) \<Rightarrow> 'a heap \<Rightarrow> 'a heap option" where
  "k_insert_sorted list n cmp h = do {
     b \<leftarrow> k_is_list_head h list;
     verify b;
     b \<leftarrow> k_is_list_node h n;
     verify b;
     l \<leftarrow> load h list;
     if nxt l = None then store_next list n h
     else do {
       current \<leftarrow> k_insert_sorted_loop h list n cmp (nxt l);
       x \<leftarrow> load h current;
       let current = previous x;
       x \<leftarrow> load h current;
       h \<leftarrow> k_connect_nodes n (nxt x) h;
       k_connect_nodes current n h
     }
   }"

definition k_transfer_list_node :: "'a ptr \<Rightarrow> 'a ptr \<Rightarrow> 'a ptr \<Rightarrow> 'a heap \<Rightarrow> 'a heap option" where
  "k_transfer_list_node from to n h = do {
     h \<leftarrow> k_remove_node_from_list from n h;
     k_append_node_to_list to n h
   }"

section \<open>Moving a node between lists\<close>

text \<open>
  The scheduler moves a node to the end of another list by testing whether that list is empty:
  \<open>k_transfer_list_node\<close> to the head if it is, else behind the last node.
\<close>

definition k_transfer_to_back :: "'a ptr \<Rightarrow> 'a ptr \<Rightarrow> 'a ptr \<Rightarrow> 'a heap \<Rightarrow> 'a heap option" where
  "k_transfer_to_back from to n h = do {
     e \<leftarrow> k_is_list_empty h to;
     if e then k_transfer_list_node from to n h
     else do {
       last \<leftarrow> k_get_last_node h to;
       k_transfer_list_node from last n h
     }
   }"

section \<open>Rings and lists\<close>

definition link :: "'a heap \<Rightarrow> 'a \<Rightarrow> 'a \<Rightarrow> bool" where
  "link h a b \<longleftrightarrow> nxt (h a) = Some b \<and> previous (h b) = Some a"

fun chain :: "'a heap \<Rightarrow> 'a \<Rightarrow> 'a list \<Rightarrow> bool" where
  "chain h a [] = True"
| "chain h a (b # bs) = (link h a b \<and> chain h b bs)"

fun ring :: "'a heap \<Rightarrow> 'a list \<Rightarrow> bool" where
  "ring h [] = True"
| "ring h (x # xs) = (chain h x xs \<and> link h (last (x # xs)) x)"

definition klist :: "'a heap \<Rightarrow> 'a \<Rightarrow> 'a list \<Rightarrow> bool" where
  "klist h l xs \<longleftrightarrow> previous (h l) = None \<and> nxt (h l) = (if xs = [] then None else Some (hd xs)) \<and>
     distinct xs \<and> ring h xs"

definition lone :: "'a heap \<Rightarrow> 'a \<Rightarrow> bool" where
  "lone h n \<longleftrightarrow> link h n n"

definition same_except :: "'a set \<Rightarrow> 'a heap \<Rightarrow> 'a heap \<Rightarrow> bool" where
  "same_except A h h' \<longleftrightarrow> (\<forall>a. a \<notin> A \<longrightarrow> h' a = h a)"

definition connect :: "'a \<Rightarrow> 'a \<Rightarrow> 'a heap \<Rightarrow> 'a heap" where
  "connect a b h = (let h = h(a := (h a)\<lparr>nxt := Some b\<rparr>) in h(b := (h b)\<lparr>previous := Some a\<rparr>))"

lemma nxt_connect [simp]: "nxt (connect a b h c) = (if c = a then Some b else nxt (h c))"
  by (simp add: connect_def)

lemma previous_connect [simp]: "previous (connect a b h c) = (if c = b then Some a else previous (h c))"
  by (simp add: connect_def)

lemma connect_other: "c \<noteq> a \<Longrightarrow> c \<noteq> b \<Longrightarrow> connect a b h c = h c"
  by (simp add: connect_def)

lemma chain_append: "chain h a (xs @ b # ys) \<longleftrightarrow> chain h a xs \<and> link h (last (a # xs)) b \<and> chain h b ys"
  by (induction xs arbitrary: a) auto

lemma chain_cong:
  assumes "\<forall>x \<in> set (butlast (a # xs)). nxt (h' x) = nxt (h x)"
    and "\<forall>x \<in> set xs. previous (h' x) = previous (h x)"
  shows "chain h' a xs = chain h a xs"
  using assms by (induction xs arbitrary: a) (auto simp: link_def)

lemma ring_rotate: "ring h (xs @ ys) = ring h (ys @ xs)"
  by (cases xs; cases ys) (auto simp: chain_append)

lemma ring_cong:
  assumes "\<forall>x \<in> set xs. h' x = h x"
  shows "ring h' xs = ring h xs"
proof (cases xs)
  case (Cons x ys)
  have "chain h' x ys = chain h x ys"
    using assms Cons by (intro chain_cong) (auto dest: in_set_butlastD)
  with assms Cons show ?thesis by (auto simp: link_def)
qed simp

lemma ring_members:
  assumes "ring h xs" "n \<in> set xs"
  shows "previous (h n) \<noteq> None" "nxt (h n) \<noteq> None"
proof -
  obtain as bs where xs: "xs = as @ n # bs"
    using assms(2) by (meson split_list)
  then have "ring h (n # bs @ as)"
    using assms(1) ring_rotate [of h as "n # bs"] by simp
  then show "previous (h n) \<noteq> None" "nxt (h n) \<noteq> None"
    by (cases "bs @ as"; auto simp: link_def)+
qed

lemma klistI:
  "previous (h l) = None \<Longrightarrow> nxt (h l) = (if xs = [] then None else Some (hd xs)) \<Longrightarrow>
   distinct xs \<Longrightarrow> ring h xs \<Longrightarrow> klist h l xs"
  by (simp add: klist_def)

lemma klist_cong:
  assumes "\<forall>a \<in> insert l (set xs). h' a = h a"
  shows "klist h' l xs = klist h l xs"
  using assms ring_cong [of xs h' h] by (simp add: klist_def)

lemma klist_head_notin: "klist h l xs \<Longrightarrow> l \<notin> set xs"
  using ring_members(1) by (fastforce simp: klist_def)

lemma klist_same_except:
  "klist h l xs \<Longrightarrow> same_except A h h' \<Longrightarrow> l \<notin> A \<Longrightarrow> set xs \<inter> A = {} \<Longrightarrow> klist h' l xs"
  by (subst klist_cong [of l xs h' h]) (auto simp: same_except_def)

lemma ring_insert_last:
  assumes "ring h (x # xs)" "distinct (x # xs)" "n \<notin> set (x # xs)"
  shows "ring (connect (last (x # xs)) n (connect n x h)) (x # xs @ [n])" (is "ring ?h _")
proof -
  have "last (x # xs) \<notin> set (butlast (x # xs))"
    using assms(2) by (metis append_butlast_last_id distinct_butlast list.distinct(1) not_distinct_conv_prefix)
  then have "chain ?h x xs = chain h x xs"
    using assms(2,3) by (intro chain_cong) (auto dest: in_set_butlastD split: if_splits)
  with assms show ?thesis
    by (auto simp: chain_append link_def)
qed

lemma ring_remove_first:
  assumes "ring h (n # x # xs)" "distinct (n # x # xs)"
  shows "ring (connect n n (connect (last (x # xs)) x h)) (x # xs)" (is "ring ?h _")
proof -
  have "last (x # xs) \<notin> set (butlast (x # xs))"
    using assms(2) by (metis append_butlast_last_id distinct_butlast list.distinct(1) not_distinct_conv_prefix distinct.simps(2))
  then have "chain ?h x xs = chain h x xs"
    using assms(2) by (intro chain_cong) (auto dest: in_set_butlastD split: if_splits)
  with assms show ?thesis
    by (auto simp: link_def)
qed

section \<open>What the operations do\<close>

lemmas list_op_defs = k_is_list_head_def k_is_list_node_def k_is_list_empty_def load_def
  store_next_def store_previous_def

lemma is_list_head_Some: "k_is_list_head h (Some a) = Some (previous (h a) = None)"
  by (simp add: list_op_defs)

lemma is_list_node_Some: "k_is_list_node h (Some a) = Some (previous (h a) \<noteq> None \<and> nxt (h a) \<noteq> None)"
  by (simp add: list_op_defs)

lemma connect_nodes_eq:
  assumes "previous (h a) \<noteq> None" "nxt (h a) \<noteq> None" "previous (h b) \<noteq> None" "nxt (h b) \<noteq> None"
  shows "k_connect_nodes (Some a) (Some b) h = Some (connect a b h)"
  using assms by (simp add: k_connect_nodes_def is_list_node_Some store_next_def store_previous_def connect_def)

lemma list_empty_klist: "klist h l xs \<Longrightarrow> k_is_list_empty h (Some l) = Some (xs = [])"
  by (simp add: list_op_defs klist_def)

lemma get_first_klist: "klist h l xs \<Longrightarrow> xs \<noteq> [] \<Longrightarrow> k_get_first_node h (Some l) = Some (Some (hd xs))"
  using ring_members [of h xs "hd xs"] list_empty_klist [of h l xs]
  by (simp add: k_get_first_node_def is_list_head_Some is_list_node_Some load_def klist_def)

lemma ring_previous_first: "ring h xs \<Longrightarrow> xs \<noteq> [] \<Longrightarrow> previous (h (hd xs)) = Some (last xs)"
  by (cases xs) (auto simp: link_def)

lemma ring_next_last: "ring h xs \<Longrightarrow> xs \<noteq> [] \<Longrightarrow> nxt (h (last xs)) = Some (hd xs)"
  by (cases xs) (auto simp: link_def)

lemma get_last_klist: "klist h l xs \<Longrightarrow> xs \<noteq> [] \<Longrightarrow> k_get_last_node h (Some l) = Some (Some (last xs))"
  using ring_members [of h xs "last xs"] ring_previous_first [of h xs] list_empty_klist [of h l xs]
  by (simp add: k_get_last_node_def is_list_head_Some is_list_node_Some load_def klist_def)

lemma loneD: "lone h n \<Longrightarrow> previous (h n) = Some n \<and> nxt (h n) = Some n"
  by (simp add: lone_def link_def)

lemma lone_ring: "lone h n = ring h [n]"
  by (simp add: lone_def)

lemma same_except_connect: "a \<in> A \<Longrightarrow> b \<in> A \<Longrightarrow> same_except A h0 h \<Longrightarrow> same_except A h0 (connect a b h)"
  by (auto simp: same_except_def connect_def)

lemma same_except_upd: "a \<in> A \<Longrightarrow> same_except A h0 h \<Longrightarrow> same_except A h0 (h(a := x))"
  by (auto simp: same_except_def)

lemma same_except_refl: "same_except A h h"
  by (simp add: same_except_def)

lemma same_except_trans: "same_except A h h' \<Longrightarrow> same_except B h' h'' \<Longrightarrow> same_except (A \<union> B) h h''"
  by (simp add: same_except_def)

lemma same_except_mono: "same_except A h h' \<Longrightarrow> A \<subseteq> B \<Longrightarrow> same_except B h h'"
  by (auto simp: same_except_def)

lemmas same_except_intros = same_except_connect same_except_upd same_except_refl

lemma klist_split:
  assumes "klist h l (as @ n # bs)"
  shows "previous (h l) = None" "nxt (h l) = Some (hd (as @ [n]))" "distinct (n # bs @ as)"
    "ring h (n # bs @ as)" "l \<noteq> n" "l \<notin> set as" "l \<notin> set bs"
  using assms klist_head_notin [OF assms] ring_rotate [of h as "n # bs"]
  by (auto simp: klist_def hd_append)

lemma remove_only_node:
  assumes "klist h l [n]"
  obtains h' where "k_remove_node_from_list (Some l) (Some n) h = Some h'"
    and "klist h' l []" "lone h' n" "same_except {l, n} h h'"
proof -
  have K: "previous (h l) = None" "nxt (h l) = Some n" "previous (h n) = Some n" "nxt (h n) = Some n" "l \<noteq> n"
    using klist_split [of h l "[]" n "[]"] assms by (auto simp: link_def)
  let ?h = "connect n n (connect n n (h(l := (h l)\<lparr>nxt := None\<rparr>)))"
  have "k_remove_node_from_list (Some l) (Some n) h = Some ?h"
    using K by (simp add: k_remove_node_from_list_def is_list_head_Some is_list_node_Some load_def
        store_next_def connect_nodes_eq)
  moreover have "klist ?h l []" using K by (simp add: klist_def connect_other)
  moreover have "lone ?h n" by (simp add: lone_def link_def)
  moreover have "same_except {l, n} h ?h" by (simp add: same_except_intros)
  ultimately show ?thesis by (rule that)
qed

lemma remove_one_of_many:
  assumes "klist h l (as @ n # bs)" "bs @ as = y # ys"
  obtains h' where "k_remove_node_from_list (Some l) (Some n) h = Some h'"
    and "klist h' l (as @ bs)" "lone h' n" "same_except (insert l (set (as @ n # bs))) h h'"
proof -
  note K = klist_split [OF assms(1)]
  have mem: "set (y # ys) = set as \<union> set bs" by (metis Un_commute assms(2) set_append)
  have R: "ring h (n # y # ys)" and D: "distinct (n # y # ys)" using K assms(2) by auto
  have l: "l \<notin> set (n # y # ys)" using K mem by auto
  have n: "nxt (h n) = Some y" "previous (h n) = Some (last (y # ys))"
    using R by (auto simp: link_def)
  define h1 where "h1 = (if as = [] then h(l := (h l)\<lparr>nxt := Some y\<rparr>) else h)"
  have h1o: "a \<noteq> l \<Longrightarrow> h1 a = h a" for a by (simp add: h1_def)
  have R1: "ring h1 (n # y # ys)"
    using R l by (subst ring_cong [of _ h1 h]) (auto intro!: h1o)
  let ?p = "last (y # ys)"
  let ?h = "connect n n (connect ?p y h1)"
  have R2: "ring ?h (y # ys)" by (rule ring_remove_first [OF R1 D])
  have pl: "?p \<noteq> l" using l last_in_set [of "y # ys"] by (metis list.distinct(1) list.set_intros(2))
  have first: "nxt (h l) = Some n \<longleftrightarrow> as = []"
    using K(2,3) by (cases as) auto
  have "k_remove_node_from_list (Some l) (Some n) h = Some ?h"
  proof -
    have nl: "h1 n = h n" using l by (intro h1o) auto
    have mv: "(if nxt (h l) = Some n then if Some n = previous (h n) \<and> Some n = nxt (h n)
         then store_next (Some l) None h else store_next (Some l) (nxt (h n)) h else Some h) = Some h1"
      using first n D by (auto simp: h1_def store_next_def)
    have y: "previous (h1 y) \<noteq> None" "nxt (h1 y) \<noteq> None" and p: "previous (h1 ?p) \<noteq> None" "nxt (h1 ?p) \<noteq> None"
      using ring_members [OF R1, of y] ring_members [OF R1, of ?p] last_in_set [of "y # ys"] by auto
    show ?thesis
      using K(1) n nl y p
      by (simp add: k_remove_node_from_list_def is_list_head_Some is_list_node_Some load_def mv connect_nodes_eq del: last.simps)
  qed
  moreover have "klist ?h l (as @ bs)"
  proof -
    have hl: "?h l = h1 l" using l pl by (simp add: connect_other)
    show ?thesis
    proof (rule klistI)
      show "previous (?h l) = None" unfolding hl using K(1) by (simp add: h1_def)
      show "nxt (?h l) = (if as @ bs = [] then None else Some (hd (as @ bs)))"
        unfolding hl using K(2) assms(2) by (cases as) (auto simp: h1_def)
      show "distinct (as @ bs)" using K(3) by auto
      show "ring ?h (as @ bs)" by (subst ring_rotate) (simp only: assms(2) R2)
    qed
  qed
  moreover have "lone ?h n" by (simp add: lone_def link_def)
  moreover have "same_except (insert l (set (as @ n # bs))) h ?h"
  proof (intro same_except_connect)
    show "same_except (insert l (set (as @ n # bs))) h h1" by (simp add: h1_def same_except_def)
    show "?p \<in> insert l (set (as @ n # bs))" "y \<in> insert l (set (as @ n # bs))"
      using last_in_set [of "y # ys"] mem by (auto simp del: last.simps)
  qed simp_all
  ultimately show ?thesis by (rule that)
qed

lemma remove_node_spec:
  assumes "klist h l xs" "n \<in> set xs"
  obtains h' where "k_remove_node_from_list (Some l) (Some n) h = Some h'"
    and "klist h' l (remove1 n xs)" "lone h' n" "same_except (insert l (set xs)) h h'"
proof -
  obtain as bs where xs: "xs = as @ n # bs" and na: "n \<notin> set as"
    using assms(2) by (meson split_list_first)
  then have rem: "remove1 n xs = as @ bs" by (simp add: remove1_append)
  show ?thesis
  proof (cases "bs @ as")
    case Nil
    with xs assms(1) have "klist h l [n]" by simp
    then show ?thesis by (rule remove_only_node) (use Nil xs that rem in auto)
  next
    case (Cons y ys)
    from assms(1) xs have "klist h l (as @ n # bs)" by simp
    from remove_one_of_many [OF this Cons] show ?thesis using that xs rem by metis
  qed
qed

lemma append_to_head_spec:
  assumes "klist h l xs" "lone h n" "n \<notin> set xs"
  obtains h' where "k_append_node_to_list (Some l) (Some n) h = Some h'"
    and "klist h' l (n # xs)" "same_except (insert l (insert n (set xs))) h h'"
proof (cases xs)
  case Nil
  have K: "previous (h l) = None" "nxt (h l) = None" "previous (h n) = Some n" "nxt (h n) = Some n" "l \<noteq> n"
    using assms Nil by (auto simp: klist_def dest: loneD)
  let ?h = "h(l := (h l)\<lparr>nxt := Some n\<rparr>)"
  have "k_append_node_to_list (Some l) (Some n) h = Some ?h"
    using K by (simp add: k_append_node_to_list_def is_list_head_Some is_list_node_Some load_def store_next_def)
  moreover have "klist ?h l [n]" using K by (simp add: klist_def link_def)
  moreover have "same_except {l, n} h ?h" by (simp add: same_except_intros)
  ultimately show ?thesis using Nil by (intro that) auto
next
  case (Cons x ys)
  let ?last = "last (x # ys)"
  have K: "previous (h l) = None" "nxt (h l) = Some x" "distinct (x # ys)" "ring h (x # ys)"
      "previous (h n) = Some n" "nxt (h n) = Some n" "l \<noteq> n"
    using assms Cons by (auto simp: klist_def dest: loneD)
  have l: "l \<notin> set (x # ys)" using klist_head_notin [OF assms(1)] Cons by simp
  have nn: "n \<notin> set (x # ys)" using assms(3) Cons by simp
  have lin: "?last \<in> set (x # ys)" by (rule last_in_set) simp
  let ?h1 = "h(l := (h l)\<lparr>nxt := Some n\<rparr>)"
  let ?h = "connect ?last n (connect n x ?h1)"
  have R1: "ring ?h1 (x # ys)" using K l by (subst ring_cong [of _ _ h]) auto
  have "k_append_node_to_list (Some l) (Some n) h = Some ?h"
  proof -
    have "nxt (?h1 ?last) = Some x" using ring_next_last [OF R1] by simp
    moreover have "previous (?h1 ?last) \<noteq> None" "previous (?h1 x) \<noteq> None" "nxt (?h1 x) \<noteq> None"
      using ring_members [OF R1 lin] ring_members [OF R1, of x] by auto
    moreover have "?last \<noteq> n" using lin nn by auto
    ultimately show ?thesis
      using K get_last_klist [OF assms(1)] Cons l
      by (simp add: k_append_node_to_list_def is_list_head_Some is_list_node_Some load_def store_next_def
          connect_nodes_eq del: last.simps)
  qed
  moreover have "klist ?h l (n # x # ys)"
  proof -
    have "ring ?h (n # x # ys)"
      using ring_insert_last [OF R1 K(3) nn] ring_rotate [of ?h "x # ys" "[n]"] by simp
    moreover have "?last \<noteq> l" using lin l by auto
    ultimately show ?thesis using K nn l by (simp add: klist_def connect_other)
  qed
  moreover have "same_except (insert l (insert n (set (x # ys)))) h ?h"
    using lin by (intro same_except_intros) auto
  ultimately show ?thesis using Cons by (intro that) auto
qed

text \<open>Behind a given node: the ring is turned so that this node is its last one.\<close>

lemma insert_behind_ring:
  assumes "klist h l xs" "xs = as @ a # bs" "lone h n" "n \<notin> set xs" "n \<noteq> l"
  obtains h' where "(nxt (h a) = Some (hd (bs @ as @ [a])))"
    and "k_connect_nodes (Some n) (nxt (h a)) h \<bind> k_connect_nodes (Some a) (Some n) = Some h'"
    and "klist h' l (as @ a # n # bs)" "same_except (insert n (set xs)) h h'"
proof -
  obtain y ys where rot: "bs @ as @ [a] = y # ys" by (cases "bs @ as @ [a]") auto
  then have last: "last (y # ys) = a" by (metis append_assoc last_snoc)
  have mem: "set (y # ys) = set xs" using assms(2) rot [symmetric] by auto
  have "ring h (as @ a # bs)" using assms by (simp add: klist_def)
  then have R: "ring h (y # ys)" using ring_rotate [of h "as @ [a]" bs] rot by simp
  have D: "distinct (y # ys)" using assms rot [symmetric] by (auto simp: klist_def)
  have nn: "n \<notin> set (y # ys)" using mem assms by simp
  have na: "nxt (h a) = Some y" using ring_next_last [OF R] last by simp
  let ?h = "connect a n (connect n y h)"
  have members: "previous (h a) \<noteq> None" "previous (h y) \<noteq> None" "nxt (h y) \<noteq> None"
    using ring_members [OF R, of a] ring_members [OF R, of y] last last_in_set [of "y # ys"] by auto
  have lo: "previous (h n) = Some n" "nxt (h n) = Some n" using loneD [OF assms(3)] by auto
  have "k_connect_nodes (Some n) (nxt (h a)) h \<bind> k_connect_nodes (Some a) (Some n) = Some ?h"
    using na members lo by (simp add: connect_nodes_eq)
  moreover have "klist ?h l (as @ a # n # bs)"
  proof -
    have "ring ?h (y # ys @ [n])" using ring_insert_last [OF R D nn] last by simp
    then have "ring ?h ((bs @ as @ [a]) @ [n])" using rot by simp
    then have "ring ?h (as @ a # n # bs)" using ring_rotate [of ?h bs "as @ [a, n]"] by simp
    moreover have "?h l = h l"
      using klist_head_notin [OF assms(1)] assms mem by (intro trans [OF connect_other connect_other]) auto
    ultimately show ?thesis
      using assms by (auto simp: klist_def hd_append)
  qed
  moreover have "same_except (insert n (set xs)) h ?h"
    using mem assms by (intro same_except_intros) auto
  moreover have "nxt (h a) = Some (hd (bs @ as @ [a]))" using na rot by simp
  ultimately show ?thesis by (intro that)
qed

lemma append_behind_spec:
  assumes "klist h l xs" "xs = as @ a # bs" "lone h n" "n \<notin> set xs" "n \<noteq> l"
  obtains h' where "k_append_node_to_list (Some a) (Some n) h = Some h'"
    and "klist h' l (as @ a # n # bs)" "same_except (insert n (set xs)) h h'"
proof -
  have R: "ring h xs" "a \<in> set xs" using assms by (auto simp: klist_def)
  from insert_behind_ring [OF assms]
  obtain h' where h': "k_connect_nodes (Some n) (nxt (h a)) h \<bind> k_connect_nodes (Some a) (Some n) = Some h'"
      "klist h' l (as @ a # n # bs)" "same_except (insert n (set xs)) h h'" .
  moreover have "k_append_node_to_list (Some a) (Some n) h = Some h'"
    using h'(1) ring_members [OF R] loneD [OF assms(3)] R(2) assms(4)
    by (auto simp: k_append_node_to_list_def is_list_head_Some is_list_node_Some load_def)
  ultimately show ?thesis by (intro that)
qed

lemma append_last_spec:
  assumes "klist h l xs" "xs \<noteq> []" "lone h n" "n \<notin> set xs" "n \<noteq> l"
  obtains h' where "k_append_node_to_list (Some (last xs)) (Some n) h = Some h'"
    and "klist h' l (xs @ [n])" "same_except (insert n (set xs)) h h'"
proof -
  have xs: "xs = butlast xs @ last xs # []" using assms(2) by simp
  have "butlast xs @ [last xs, n] = xs @ [n]"
    using assms(2) by (metis append_Cons append_Nil append_assoc append_butlast_last_id)
  then show ?thesis
    using append_behind_spec [OF assms(1) xs assms(3-5)] that by metis
qed

lemma ring_neighbours:
  assumes "ring h (as @ c # bs)"
  shows "previous (h c) = Some (last (c # bs @ as))" "nxt (h c) = Some (hd (bs @ as @ [c]))"
proof -
  have R: "ring h (c # bs @ as)" using assms ring_rotate [of h as "c # bs"] by simp
  show "previous (h c) = Some (last (c # bs @ as))"
    using ring_previous_first [OF R] by simp
  show "nxt (h c) = Some (hd (bs @ as @ [c]))"
  proof (cases "bs @ as")
    case Nil
    with R show ?thesis by (auto simp: link_def)
  next
    case (Cons y ys)
    with R have "nxt (h c) = Some y" by (simp add: link_def)
    moreover have "hd (bs @ as @ [c]) = y" using Cons by (metis append_assoc append_Cons list.sel(1))
    ultimately show ?thesis by simp
  qed
qed

lemma insert_sorted_loop_eq:
  assumes "klist h l (as @ b # bs)" "\<And>a. a \<in> set (b # bs) \<Longrightarrow> cmp (Some a) (Some n) = Some (P a)"
  shows "k_insert_sorted_loop h (Some l) (Some n) cmp (Some b) =
    Some (Some (hd (dropWhile P (b # bs) @ [hd (as @ [b])])))"
  using assms
proof (induction bs arbitrary: as b)
  case Nil
  have R: "ring h (as @ [b])" using Nil by (simp add: klist_def)
  have f: "k_get_first_node h (Some l) = Some (Some (hd (as @ [b])))"
    using get_first_klist [OF Nil(1)] by simp
  show ?case
    using ring_neighbours(2) [OF R] f Nil(2)
    by (subst k_insert_sorted_loop.simps) (simp add: load_def)
next
  case (Cons c cs)
  have R: "ring h (as @ b # c # cs)" and D: "distinct (as @ b # c # cs)" using Cons.prems by (auto simp: klist_def)
  have f: "k_get_first_node h (Some l) = Some (Some (hd (as @ [b])))"
    using get_first_klist [OF Cons.prems(1)] by (simp add: hd_append)
  have c: "c \<noteq> hd (as @ [b])" using D by (cases as) auto
  have "klist h l ((as @ [b]) @ c # cs)" using Cons.prems(1) by simp
  then have IH: "k_insert_sorted_loop h (Some l) (Some n) cmp (Some c) =
      Some (Some (hd (dropWhile P (c # cs) @ [hd ((as @ [b]) @ [c])])))"
    using Cons.prems(2) by (intro Cons.IH) auto
  have h: "hd ((as @ [b]) @ [c]) = hd (as @ [b])" by (cases as) auto
  show ?case
    using ring_neighbours(2) [OF R] f Cons.prems(2) c IH unfolding h
    by (subst k_insert_sorted_loop.simps) (simp add: load_def)
qed

lemma insert_sorted_spec:
  assumes "klist h l xs" "lone h n" "n \<notin> set xs" "n \<noteq> l"
    and cmp: "\<And>a. a \<in> set xs \<Longrightarrow> cmp (Some a) (Some n) = Some (P a)"
  obtains h' where "k_insert_sorted (Some l) (Some n) cmp h = Some h'"
    and "klist h' l (insert_sorted_list P n xs)" "same_except (insert l (insert n (set xs))) h h'"
proof (cases xs)
  case Nil
  have K: "previous (h l) = None" "nxt (h l) = None" "previous (h n) = Some n" "nxt (h n) = Some n"
    using assms Nil by (auto simp: klist_def dest: loneD)
  let ?h = "h(l := (h l)\<lparr>nxt := Some n\<rparr>)"
  have "k_insert_sorted (Some l) (Some n) cmp h = Some ?h"
    using K by (simp add: k_insert_sorted_def is_list_head_Some is_list_node_Some load_def store_next_def)
  moreover have "klist ?h l [n]" using K assms(4) by (simp add: klist_def link_def)
  moreover have "same_except {l, n} h ?h" by (simp add: same_except_def)
  ultimately show ?thesis using Nil by (intro that) (auto simp: insert_sorted_list_def)
next
  case (Cons x ys)
  define c where "c = hd (dropWhile P xs @ [x])"
  obtain as a bs where xs: "xs = as @ a # bs" and prev: "previous (h c) = Some a"
    and res: "insert_sorted_list P n xs = as @ a # n # bs"
  proof (cases "takeWhile P xs = [] \<or> dropWhile P xs = []")
    case True
    then have c: "c = x"
      using Cons by (auto simp: c_def simp del: dropWhile_eq_Nil_conv split: if_splits)
    have xs: "xs = butlast xs @ last xs # []" using Cons by simp
    have "previous (h c) = Some (last xs)"
      using ring_previous_first [of h xs] assms(1) Cons by (auto simp: c klist_def)
    moreover have "insert_sorted_list P n xs = butlast xs @ last xs # n # []"
    proof -
      have "takeWhile P xs = [] \<or> takeWhile P xs = xs \<and> dropWhile P xs = []"
        using True by (metis append_Nil2 takeWhile_dropWhile_id)
      then have "insert_sorted_list P n xs = xs @ [n]" by (auto simp: insert_sorted_list_def)
      then show ?thesis using Cons by (metis append_Cons append_Nil append_assoc xs)
    qed
    ultimately show ?thesis using that xs by blast
  next
    case False
    let ?pre = "takeWhile P xs"
    obtain d ds where d: "dropWhile P xs = d # ds" using False by (cases "dropWhile P xs") auto
    have split: "xs = ?pre @ d # ds" using takeWhile_dropWhile_id [of P xs] d by simp
    have "ring h (?pre @ d # ds)" using assms(1) split by (simp add: klist_def)
    from ring_neighbours(1) [OF this] have "previous (h d) = Some (last ?pre)"
      using False by simp
    moreover have "xs = butlast ?pre @ last ?pre # d # ds"
      using split False by (metis append_Cons append_Nil append_assoc append_butlast_last_id)
    moreover have "insert_sorted_list P n xs = butlast ?pre @ last ?pre # n # d # ds"
      using False d by (simp add: insert_sorted_list_def)
    ultimately show ?thesis using that d by (simp add: c_def)
  qed
  have K: "previous (h l) = None" "nxt (h l) = Some x" using assms(1) Cons by (auto simp: klist_def)
  have loop: "k_insert_sorted_loop h (Some l) (Some n) cmp (Some x) = Some (Some c)"
    using insert_sorted_loop_eq [of h l "[]" x ys cmp n P] assms(1) cmp Cons by (simp add: c_def)
  from insert_behind_ring [OF assms(1) xs assms(2-4)]
  obtain h' where h': "k_connect_nodes (Some n) (nxt (h a)) h \<bind> k_connect_nodes (Some a) (Some n) = Some h'"
      "klist h' l (as @ a # n # bs)" "same_except (insert n (set xs)) h h'" .
  have "k_insert_sorted (Some l) (Some n) cmp h = Some h'"
    using K loop prev h'(1) loneD [OF assms(2)]
    by (simp add: k_insert_sorted_def is_list_head_Some is_list_node_Some load_def)
  moreover have "same_except (insert l (insert n (set xs))) h h'"
    using h'(3) by (rule same_except_mono) auto
  ultimately show ?thesis using h'(2) res by (intro that) auto
qed

section \<open>The lists as a provider of the interface\<close>

lemma lone_frame: "lone h n \<Longrightarrow> same_except A h h' \<Longrightarrow> n \<notin> A \<Longrightarrow> lone h' n"
  by (simp add: lone_def link_def same_except_def)

interpretation kl: node_lists klist lone same_except
  "\<lambda>l n. k_remove_node_from_list (Some l) (Some n)"
  "\<lambda>l n. k_append_node_to_list (Some l) (Some n)"
  "\<lambda>a n. k_append_node_to_list (Some a) (Some n)"
  "\<lambda>cmp l n. k_insert_sorted (Some l) (Some n) cmp"
proof
  fix h :: "'a heap" and l xs n
  assume K: "klist h l xs"
  show "distinct xs" using K by (simp add: klist_def)
  show "\<exists>h'. k_remove_node_from_list (Some l) (Some n) h = Some h' \<and> klist h' l (remove1 n xs) \<and>
      lone h' n \<and> same_except (insert l (insert n (set xs))) h h'" if "n \<in> set xs"
    using remove_node_spec [OF K that] that by (metis insert_absorb)
  assume lo: "lone h n" and n: "n \<notin> set xs"
  show "\<exists>h'. k_append_node_to_list (Some l) (Some n) h = Some h' \<and> klist h' l (n # xs) \<and>
      same_except (insert l (insert n (set xs))) h h'"
    using append_to_head_spec [OF K lo n] by metis
  assume nl: "n \<noteq> l"
  fix cmp :: "'a ptr \<Rightarrow> 'a ptr \<Rightarrow> bool option" and P :: "'a \<Rightarrow> bool"
  assume "\<And>a. a \<in> set xs \<Longrightarrow> cmp (Some a) (Some n) = Some (P a)"
  then show "\<exists>h'. k_insert_sorted (Some l) (Some n) cmp h = Some h' \<and> klist h' l (insert_sorted_list P n xs) \<and>
      same_except (insert l (insert n (set xs))) h h'"
    using insert_sorted_spec [OF K lo n nl, of cmp P] by metis
next
  fix h :: "'a heap" and l as a bs n
  assume "klist h l (as @ a # bs)" "lone h n" "n \<notin> set (as @ a # bs)" "n \<noteq> l"
  then show "\<exists>h'. k_append_node_to_list (Some a) (Some n) h = Some h' \<and> klist h' l (as @ a # n # bs) \<and>
      same_except (insert l (insert n (set (as @ a # bs)))) h h'"
    using append_behind_spec [of h l _ as a bs n] same_except_mono by (metis subset_insertI)
qed (blast intro: klist_same_except lone_frame)+

section \<open>Properties\<close>

lemma sorted_split:
  fixes key :: "'a \<Rightarrow> 'k :: linorder"
  assumes "sorted (map key xs)"
  shows "takeWhile (\<lambda>a. key a \<le> k) xs = filter (\<lambda>a. key a \<le> k) xs \<and>
    dropWhile (\<lambda>a. key a \<le> k) xs = filter (\<lambda>a. k < key a) xs"
  using assms
proof (induction xs)
  case (Cons a xs)
  show ?case
  proof (cases "key a \<le> k")
    case False
    then have "\<forall>x \<in> set xs. k < key x" using Cons.prems by (auto intro: less_le_trans)
    then have "filter (\<lambda>a. key a \<le> k) xs = []" "filter (\<lambda>a. k < key a) xs = xs"
      by (auto simp: filter_empty_conv filter_id_conv not_le)
    with False show ?thesis by simp
  qed (use Cons in \<open>simp add: leD\<close>)
qed simp

text \<open>C22. Sorted insertion, on a list sorted by a key with the comparison "not greater". The new node
  goes behind the nodes whose keys are not greater, and the list stays sorted, except when
  its key is smaller than every key of a list that is not empty: then it ends up last, because the
  loop stops at the first node and the head of the list is not moved.\<close>

theorem k_insert_sorted_order:
  assumes "klist h l xs" "lone h n" "n \<notin> set xs" "n \<noteq> l" "sorted (map key xs)"
    and "\<And>a. a \<in> set xs \<Longrightarrow> cmp (Some a) (Some n) = Some (key a \<le> (key n :: 'k :: linorder))"
  shows "\<exists>h' ys. k_insert_sorted (Some l) (Some n) cmp h = Some h' \<and> klist h' l ys \<and>
    (if xs = [] \<or> key (hd xs) \<le> key n
     then ys = filter (\<lambda>a. key a \<le> key n) xs @ n # filter (\<lambda>a. key n < key a) xs \<and> sorted (map key ys)
     else ys = xs @ [n] \<and> \<not> sorted (map key ys))"
proof -
  obtain h' where h': "k_insert_sorted (Some l) (Some n) cmp h = Some h'"
      "klist h' l (insert_sorted_list (\<lambda>a. key a \<le> key n) n xs)"
    by (rule insert_sorted_spec [OF assms(1-4), of cmp "\<lambda>a. key a \<le> key n"]) (use assms(6) in auto)
  have s: "takeWhile (\<lambda>a. key a \<le> key n) xs = filter (\<lambda>a. key a \<le> key n) xs \<and>
      dropWhile (\<lambda>a. key a \<le> key n) xs = filter (\<lambda>a. key n < key a) xs"
    using assms(5) by (rule sorted_split)
  have e: "takeWhile (\<lambda>a. key a \<le> key n) xs = [] \<longleftrightarrow> xs = [] \<or> \<not> key (hd xs) \<le> key n" by (cases xs) auto
  have "sorted (map key (filter P xs))" for P using assms(5) by (rule sorted_filter)
  then have "sorted (map key (filter (\<lambda>a. key a \<le> key n) xs @ n # filter (\<lambda>a. key n < key a) xs))"
    by (auto simp: sorted_append)
  moreover have "insert_sorted_list (\<lambda>a. key a \<le> key n) n xs =
      (if xs = [] \<or> key (hd xs) \<le> key n
       then filter (\<lambda>a. key a \<le> key n) xs @ n # filter (\<lambda>a. key n < key a) xs else xs @ [n])"
    unfolding insert_sorted_list_def e by (auto simp: s)
  moreover have "\<not> sorted (map key (xs @ [n]))" if "\<not> (xs = [] \<or> key (hd xs) \<le> key n)"
    using that by (cases xs) (auto simp: sorted_append not_le)
  ultimately show ?thesis using h' by (cases "xs = [] \<or> key (hd xs) \<le> key n") auto
qed

text \<open>A list with the head 0 and the nodes 1 and 2, and the single node 3.\<close>

definition example_heap :: "nat heap" where
  "example_heap a = (if a = 0 then \<lparr>previous = None, nxt = Some 1\<rparr>
     else if a = 1 then \<lparr>previous = Some 2, nxt = Some 2\<rparr>
     else if a = 2 then \<lparr>previous = Some 1, nxt = Some 1\<rparr>
     else \<lparr>previous = Some a, nxt = Some a\<rparr>)"

lemma example_list: "klist example_heap 0 [1, 2]" "lone example_heap 3"
  by (simp_all add: klist_def lone_def link_def example_heap_def)

theorem k_insert_sorted_order_witness:
  "\<exists>h' ys. k_insert_sorted (Some 0) (Some 3) (\<lambda>a b. Some (the a mod 3 \<le> the b mod 3)) example_heap = Some h' \<and>
    klist h' 0 ys \<and> ys = [1, 2, 3] \<and> \<not> sorted (map (\<lambda>a. a mod 3) ys)"
  using k_insert_sorted_order [OF example_list, of "\<lambda>a. a mod 3" "\<lambda>a b. Some (the a mod 3 \<le> the b mod 3)"]
  by simp

text \<open>A transfer takes the node out of its list and makes it the first of the other one (the
  order the function appends to a head in), or puts it behind the given node; every other list keeps
  its nodes.\<close>

theorem k_transfer_list_node_front:
  assumes "klist h a xs" "klist h b ys" "n \<in> set xs" "a \<noteq> b" "set xs \<inter> set ys = {}" "a \<notin> set ys" "b \<notin> set xs"
  shows "\<exists>h'. k_transfer_list_node (Some a) (Some b) (Some n) h = Some h' \<and>
    klist h' a (remove1 n xs) \<and> klist h' b (n # ys) \<and> same_except ({a, b} \<union> set xs \<union> set ys) h h'"
proof -
  obtain h1 where h1: "k_remove_node_from_list (Some a) (Some n) h = Some h1"
      "klist h1 a (remove1 n xs)" "lone h1 n" "same_except (insert a (set xs)) h h1"
    by (rule remove_node_spec [OF assms(1,3)])
  have b1: "klist h1 b ys" using assms by (intro klist_same_except [OF assms(2) h1(4)]) auto
  have "n \<notin> set ys" using assms by auto
  then obtain h2 where h2: "k_append_node_to_list (Some b) (Some n) h1 = Some h2"
      "klist h2 b (n # ys)" "same_except (insert b (insert n (set ys))) h1 h2"
    by (rule append_to_head_spec [OF b1 h1(3)])
  have "distinct xs" "a \<notin> set xs" using assms(1) klist_head_notin [OF assms(1)] by (simp_all add: klist_def)
  then have "klist h2 a (remove1 n xs)"
    using assms by (intro klist_same_except [OF h1(2) h2(3)]) auto
  moreover have "same_except ({a, b} \<union> set xs \<union> set ys) h h2"
    using same_except_trans [OF h1(4) h2(3)] by (rule same_except_mono) (use assms(3) in auto)
  ultimately show ?thesis using h1(1) h2(1,2) by (auto simp: k_transfer_list_node_def)
qed

theorem k_transfer_list_node_front_witness:
  "\<exists>h'. k_transfer_list_node (Some 0) (Some 5) (Some 2)
      (example_heap(5 := \<lparr>previous = None, nxt = None\<rparr>)) = Some h' \<and>
    klist h' 0 (remove1 2 [1, 2]) \<and> klist h' 5 [2] \<and>
    same_except ({0, 5} \<union> set [1, 2] \<union> set []) (example_heap(5 := \<lparr>previous = None, nxt = None\<rparr>)) h'"
  by (rule k_transfer_list_node_front) (simp_all add: klist_def link_def example_heap_def)

end
