(* ===== verification/Machine.thy ===== *)
theory Machine
  imports Prelude
begin

text \<open>
  What the kernel sees of the hardware: the saved and the banked registers, the mode bits of the
  program status registers (\<^verbatim>\<open>include/arch/cpu/psr.h\<close>, \<^verbatim>\<open>include/arch/cpu/registers.h\<close>), the
  memory map (\<^verbatim>\<open>include/arch/bsp/memory_map.h\<close>) and the device registers.

  The hardware itself is not part of the source, so it is a parameter: an \<open>env\<close> gives the value
  of every volatile read, the address translation of the MMU and the addresses the linker
  chooses. A volatile write is recorded with its address and value, in order.
\<close>

section \<open>Registers\<close>

record registers =
  general :: "nat \<Rightarrow> u32"
  sp :: u32
  lr :: u32
  pc :: u32

text \<open>The registers a handler reaches only through \<^verbatim>\<open>mrs\<close> and \<^verbatim>\<open>msr\<close>: the \<^verbatim>\<open>SPSR\<close> of its own
  mode and the stack pointer and link register of the interrupted mode.\<close>

record cpu =
  spsr :: u32
  sp_usr :: u32
  lr_usr :: u32

definition psr_mode :: u32 where "psr_mode = 0x1f"
definition psr_not_initialized :: u32 where "psr_not_initialized = 0x0"
definition psr_mode_user :: u32 where "psr_mode_user = 0x10"
definition psr_mode_IRQ :: u32 where "psr_mode_IRQ = 0x12"
definition psr_mode_supervisor :: u32 where "psr_mode_supervisor = 0x13"
definition psr_mode_abort :: u32 where "psr_mode_abort = 0x17"
definition psr_mode_undefined :: u32 where "psr_mode_undefined = 0x1b"
definition psr_mode_system :: u32 where "psr_mode_system = 0x1f"

lemmas psr_defs = psr_mode_def psr_not_initialized_def psr_mode_user_def psr_mode_IRQ_def
  psr_mode_supervisor_def psr_mode_abort_def psr_mode_undefined_def psr_mode_system_def

section \<open>Memory map\<close>

definition KiB :: u32 where "KiB = 1024"
definition MiB :: u32 where "MiB = KiB * KiB"

definition MEMORY_TOP_ADDRESS :: u32 where "MEMORY_TOP_ADDRESS = 128 * MiB"
definition UNASSIGNED0_START_ADDRESS :: u32 where "UNASSIGNED0_START_ADDRESS = 0"
definition INIT_TEXT_SECTION_START_ADDRESS :: u32 where "INIT_TEXT_SECTION_START_ADDRESS = 1 * MiB"
definition RODATA_SECTION_START_ADDRESS :: u32 where "RODATA_SECTION_START_ADDRESS = 2 * MiB"
definition BSS_DATA_SECTION_START_ADDRESS :: u32 where "BSS_DATA_SECTION_START_ADDRESS = 3 * MiB"
definition UTEXT_SECTION_START_ADDRESS :: u32 where "UTEXT_SECTION_START_ADDRESS = 4 * MiB"
definition URODATA_SECTION_START_ADDRESS :: u32 where "URODATA_SECTION_START_ADDRESS = 5 * MiB"
definition UBSS_UDATA_SECTION_START_ADDRESS :: u32 where "UBSS_UDATA_SECTION_START_ADDRESS = 6 * MiB"
definition UBSS_UDATA_KERNEL_MAP_START_ADDRESS :: u32 where "UBSS_UDATA_KERNEL_MAP_START_ADDRESS = 7 * MiB"
definition UBSS_UDATA_KERNEL_ORIGINAL_MAP_START_ADDRESS :: u32 where
  "UBSS_UDATA_KERNEL_ORIGINAL_MAP_START_ADDRESS = 15 * MiB"
definition UNASSIGNED1_START_ADDRESS :: u32 where "UNASSIGNED1_START_ADDRESS = 16 * MiB"
definition MMIO_DEVICES_START_ADDRESS :: u32 where "MMIO_DEVICES_START_ADDRESS = 0x3f0 * MiB"
definition UNASSIGNED2_START_ADDRESS :: u32 where "UNASSIGNED2_START_ADDRESS = 0x3f3 * MiB"
definition STACK_SIZE :: u32 where "STACK_SIZE = 1 * MiB"
definition USER_STACK_COUNT :: nat where "USER_STACK_COUNT = 32"
definition KERNEL_STACK_COUNT :: nat where "KERNEL_STACK_COUNT = 6"
definition STACK_COUNT :: nat where "STACK_COUNT = USER_STACK_COUNT + KERNEL_STACK_COUNT"
definition KERNEL_STACK_TOP_ADDRESS :: u32 where "KERNEL_STACK_TOP_ADDRESS = MEMORY_TOP_ADDRESS"
definition KERNEL_STACK_BOTTOM_ADDRESS :: u32 where
  "KERNEL_STACK_BOTTOM_ADDRESS = KERNEL_STACK_TOP_ADDRESS - of_nat KERNEL_STACK_COUNT * STACK_SIZE"
definition USER_STACK_TOP_ADDRESS :: u32 where "USER_STACK_TOP_ADDRESS = KERNEL_STACK_BOTTOM_ADDRESS"
definition USER_STACK_BOTTOM_ADDRESS :: u32 where
  "USER_STACK_BOTTOM_ADDRESS = USER_STACK_TOP_ADDRESS - of_nat USER_STACK_COUNT * STACK_SIZE"
definition VIRTUAL_PROCESS_STACKS_TOP_ADDRESS :: u32 where
  "VIRTUAL_PROCESS_STACKS_TOP_ADDRESS = USER_STACK_BOTTOM_ADDRESS"
definition VIRTUAL_PROCESS_STACKS_BOTTOM_ADDRESS :: u32 where
  "VIRTUAL_PROCESS_STACKS_BOTTOM_ADDRESS = USER_STACK_BOTTOM_ADDRESS - 4 * MiB"
definition USER_STACK_KERNEL_ONLY_MAPPING_START_ADDRESS :: u32 where
  "USER_STACK_KERNEL_ONLY_MAPPING_START_ADDRESS = USER_STACK_BOTTOM_ADDRESS"
definition IDLE_THREAD_SP :: u32 where "IDLE_THREAD_SP = KERNEL_STACK_TOP_ADDRESS - STACK_SIZE * 5"

lemmas memory_map_defs = KiB_def MiB_def MEMORY_TOP_ADDRESS_def UNASSIGNED0_START_ADDRESS_def
  INIT_TEXT_SECTION_START_ADDRESS_def RODATA_SECTION_START_ADDRESS_def BSS_DATA_SECTION_START_ADDRESS_def
  UTEXT_SECTION_START_ADDRESS_def URODATA_SECTION_START_ADDRESS_def UBSS_UDATA_SECTION_START_ADDRESS_def
  UBSS_UDATA_KERNEL_MAP_START_ADDRESS_def UBSS_UDATA_KERNEL_ORIGINAL_MAP_START_ADDRESS_def
  UNASSIGNED1_START_ADDRESS_def MMIO_DEVICES_START_ADDRESS_def UNASSIGNED2_START_ADDRESS_def
  STACK_SIZE_def USER_STACK_COUNT_def KERNEL_STACK_COUNT_def STACK_COUNT_def
  KERNEL_STACK_TOP_ADDRESS_def KERNEL_STACK_BOTTOM_ADDRESS_def USER_STACK_TOP_ADDRESS_def
  USER_STACK_BOTTOM_ADDRESS_def VIRTUAL_PROCESS_STACKS_TOP_ADDRESS_def
  VIRTUAL_PROCESS_STACKS_BOTTOM_ADDRESS_def USER_STACK_KERNEL_ONLY_MAPPING_START_ADDRESS_def
  IDLE_THREAD_SP_def

section \<open>The environment\<close>

text \<open>
  \<open>volatile e n a\<close> is the value the \<open>n\<close>-th volatile read gives if it is at address \<open>a\<close>;
  \<open>translate e l1 a\<close> the physical address of the kernel's virtual address \<open>a\<close> under the first
  level table \<open>l1\<close>; the rest are addresses of symbols.
\<close>

record env =
  volatile :: "nat \<Rightarrow> u32 \<Rightarrow> u32"
  translate :: "(nat \<Rightarrow> u32) \<Rightarrow> u32 \<Rightarrow> u32"
  user_main :: u32
  sys_exit_thread :: u32
  halt_cpu :: u32
  l1_table_address :: u32
  l2_stack_tables_address :: u32

record io =
  reads :: nat
  writes :: "(u32 \<times> u32) list"

definition volatile_read :: "env \<Rightarrow> u32 \<Rightarrow> io \<Rightarrow> u32 \<times> io" where
  "volatile_read e a d = (volatile e (reads d) a, d\<lparr>reads := Suc (reads d)\<rparr>)"

definition volatile_write :: "u32 \<Rightarrow> u32 \<Rightarrow> io \<Rightarrow> io" where
  "volatile_write a v d = d\<lparr>writes := writes d @ [(a, v)]\<rparr>"

section \<open>Memory\<close>

text \<open>
  \<^verbatim>\<open>k_memcpy\<close> between raw addresses (\<^verbatim>\<open>kernel/lib/kstring.c\<close>): physical memory is a function
  from addresses to bytes, and every access goes through the translation \<open>tr\<close>.
\<close>

fun copy_bytes :: "(u32 \<Rightarrow> u32) \<Rightarrow> u32 \<Rightarrow> u32 \<Rightarrow> nat \<Rightarrow> (u32 \<Rightarrow> u8) \<Rightarrow> (u32 \<Rightarrow> u8)" where
  "copy_bytes tr dst src 0 m = m"
| "copy_bytes tr dst src (Suc i) m =
     (let m = copy_bytes tr dst src i m
      in m(tr (dst + of_nat i) := m (tr (src + of_nat i))))"

definition k_memcpy_mem ::
  "(u32 \<Rightarrow> u32) \<Rightarrow> u32 \<Rightarrow> u32 \<Rightarrow> u32 \<Rightarrow> (u32 \<Rightarrow> u8) \<Rightarrow> (u32 \<Rightarrow> u8) option" where
  "k_memcpy_mem tr dst src n m = do {
     verify (n = 0 \<or> dst \<noteq> 0);
     verify (n = 0 \<or> src \<noteq> 0);
     Some (copy_bytes tr dst src (unat n) m)
   }"

text \<open>A word, lowest byte first.\<close>

definition load_u32 :: "(u32 \<Rightarrow> u32) \<Rightarrow> u32 \<Rightarrow> (u32 \<Rightarrow> u8) \<Rightarrow> u32" where
  "load_u32 tr a m = ucast (m (tr a)) OR push_bit 8 (ucast (m (tr (a + 1)))) OR
     push_bit 16 (ucast (m (tr (a + 2)))) OR push_bit 24 (ucast (m (tr (a + 3))))"

lemma copy_bytes_other:
  assumes "\<And>i. i < n \<Longrightarrow> a \<noteq> tr (dst + of_nat i)"
  shows "copy_bytes tr dst src n m a = m a"
  using assms by (induction n) (auto simp: Let_def)

text \<open>Without overlap (after the translation) the copy is exact.\<close>

lemma copy_bytes_eq:
  assumes "inj_on (\<lambda>i. tr (dst + of_nat i)) {..<n}"
    and "\<And>i j. i < n \<Longrightarrow> j < n \<Longrightarrow> tr (src + of_nat i) \<noteq> tr (dst + of_nat j)"
    and "i < n"
  shows "copy_bytes tr dst src n m (tr (dst + of_nat i)) = m (tr (src + of_nat i))"
  using assms
proof (induction n)
  case (Suc n)
  have src: "copy_bytes tr dst src n m (tr (src + of_nat n)) = m (tr (src + of_nat n))"
    by (rule copy_bytes_other) (use Suc.prems(2) in auto)
  show ?case
  proof (cases "i = n")
    case True
    with src show ?thesis by (simp add: Let_def)
  next
    case False
    with Suc.prems(3) have i: "i < n" by simp
    have "tr (dst + of_nat i) \<noteq> tr (dst + of_nat n)"
      using inj_onD [OF Suc.prems(1), of i n] i by auto
    moreover have "copy_bytes tr dst src n m (tr (dst + of_nat i)) = m (tr (src + of_nat i))"
      using Suc.prems i by (intro Suc.IH) (auto intro: inj_on_subset)
    ultimately show ?thesis by (simp add: Let_def)
  qed
qed simp

end
