(* ===== verification/Systimer.thy ===== *)
theory Systimer
  imports Machine
begin

text \<open>
  \<^verbatim>\<open>arch/bsp/systimer.c\<close>: the timer that drives preemption (compare register C1, match bit M1)
  and the one that wakes stalled threads (C3, M3).
\<close>

section \<open>Definitions\<close>

datatype systimer_offsets = CS | CLO | C1 | C3

fun systimer_offset :: "systimer_offsets \<Rightarrow> u32" where
  "systimer_offset CS = 0x0"
| "systimer_offset CLO = 0x4"
| "systimer_offset C1 = 0x10"
| "systimer_offset C3 = 0x18"

definition SYSTIMER_BASE :: u32 where "SYSTIMER_BASE = 0x7E003000 - 0x3F000000"
definition M1 :: u32 where "M1 = 2"
definition M3 :: u32 where "M3 = 8"
definition TIMER_INTERVAL :: u32 where "TIMER_INTERVAL = 1000000"
definition TOCTOU_PAD :: u32 where "TOCTOU_PAD = 20"

definition systimer_register :: "systimer_offsets \<Rightarrow> u32" where
  "systimer_register offset = SYSTIMER_BASE + systimer_offset offset"

definition systimer_pending :: "env \<Rightarrow> io \<Rightarrow> bool \<times> io" where
  "systimer_pending e d =
     (let (v, d) = volatile_read e (systimer_register CS) d in (v AND M1 \<noteq> 0, d))"

definition systimer_reset :: "env \<Rightarrow> io \<Rightarrow> io" where
  "systimer_reset e d =
     (let d = volatile_write (systimer_register CS) M1 d;
          (v, d) = volatile_read e (systimer_register CLO) d
      in volatile_write (systimer_register C1) (v + TIMER_INTERVAL) d)"

definition systimer_value :: "env \<Rightarrow> io \<Rightarrow> u32 \<times> io" where
  "systimer_value e d = volatile_read e (systimer_register CLO) d"

definition stalltimer_pending :: "env \<Rightarrow> io \<Rightarrow> bool \<times> io" where
  "stalltimer_pending e d =
     (let (v, d) = volatile_read e (systimer_register CS) d in (v AND M3 \<noteq> 0, d))"

definition stalltimer_reset_pending_interrupt :: "io \<Rightarrow> io" where
  "stalltimer_reset_pending_interrupt d = volatile_write (systimer_register CS) M3 d"

definition stalltimer_interrupt_at :: "env \<Rightarrow> u32 \<Rightarrow> io \<Rightarrow> int \<times> io" where
  "stalltimer_interrupt_at e hz d =
     (let d = volatile_write (systimer_register CS) M3 d;
          (v, d) = systimer_value e d
      in if v + TOCTOU_PAD < hz
         then (0, volatile_write (systimer_register C3) hz d)
         else (- K_EINVAL, d))"

end
