(* ===== verification/Mmu.thy ===== *)
theory Mmu
  imports Machine
begin

text \<open>
  \<^verbatim>\<open>kernel/mmu.c\<close> and \<^verbatim>\<open>include/kernel/mmu.h\<close>: the translation tables. Each packed struct is a
  record whose fields have the declared widths, with the word it is packed into (fields from
  bit 0 upwards); a union is that word. The tables are functions from an index to a word.
\<close>

section \<open>Table entries\<close>

definition L1_TABLE_SIZE :: nat where "L1_TABLE_SIZE = 0x1000"
definition L2_STACK_TABLE_SIZE :: nat where "L2_STACK_TABLE_SIZE = 0x100"

record l1_fault =
  f_pad1_unset :: "1 word"
  f_pad0_unset :: "1 word"
  f_unused :: "30 word"

record l1_section =
  s_PXN :: "1 word"
  s_pad1_set :: "1 word"
  s_B :: "1 word"
  s_C :: "1 word"
  s_XN :: "1 word"
  s_domain :: "4 word"
  s_IMPL :: "1 word"
  s_AP1_0 :: "2 word"
  s_TEX :: "3 word"
  s_AP2 :: "1 word"
  s_S :: "1 word"
  s_nG :: "1 word"
  s_pad0_unset :: "1 word"
  s_NS :: "1 word"
  s_base_address :: "12 word"

record l2_handle =
  h_pad1_set :: "1 word"
  h_pad0_unset :: "1 word"
  h_PXN :: "1 word"
  h_NS :: "1 word"
  h_SBZ :: "1 word"
  h_domain :: "4 word"
  h_IMPL :: "1 word"
  h_base_address :: "22 word"

record l2_small_page =
  p_XN :: "1 word"
  p_pad0_set :: "1 word"
  p_B :: "1 word"
  p_C :: "1 word"
  p_AP1_0 :: "2 word"
  p_TEX :: "3 word"
  p_AP2 :: "1 word"
  p_S :: "1 word"
  p_nG :: "1 word"
  p_base_address :: "20 word"

type_synonym l1_entry = u32
type_synonym l2_entry = u32

definition pack_l1_fault :: "l1_fault \<Rightarrow> l1_entry" where
  "pack_l1_fault f = ucast (f_pad1_unset f) OR push_bit 1 (ucast (f_pad0_unset f)) OR
     push_bit 2 (ucast (f_unused f))"

definition unpack_l1_fault :: "l1_entry \<Rightarrow> l1_fault" where
  "unpack_l1_fault w = \<lparr>f_pad1_unset = ucast w, f_pad0_unset = ucast (drop_bit 1 w),
     f_unused = ucast (drop_bit 2 w)\<rparr>"

definition pack_l1_section :: "l1_section \<Rightarrow> l1_entry" where
  "pack_l1_section s = ucast (s_PXN s) OR push_bit 1 (ucast (s_pad1_set s)) OR
     push_bit 2 (ucast (s_B s)) OR push_bit 3 (ucast (s_C s)) OR push_bit 4 (ucast (s_XN s)) OR
     push_bit 5 (ucast (s_domain s)) OR push_bit 9 (ucast (s_IMPL s)) OR
     push_bit 10 (ucast (s_AP1_0 s)) OR push_bit 12 (ucast (s_TEX s)) OR
     push_bit 15 (ucast (s_AP2 s)) OR push_bit 16 (ucast (s_S s)) OR push_bit 17 (ucast (s_nG s)) OR
     push_bit 18 (ucast (s_pad0_unset s)) OR push_bit 19 (ucast (s_NS s)) OR
     push_bit 20 (ucast (s_base_address s))"

definition unpack_l1_section :: "l1_entry \<Rightarrow> l1_section" where
  "unpack_l1_section w = \<lparr>s_PXN = ucast w, s_pad1_set = ucast (drop_bit 1 w),
     s_B = ucast (drop_bit 2 w), s_C = ucast (drop_bit 3 w), s_XN = ucast (drop_bit 4 w),
     s_domain = ucast (drop_bit 5 w), s_IMPL = ucast (drop_bit 9 w),
     s_AP1_0 = ucast (drop_bit 10 w), s_TEX = ucast (drop_bit 12 w), s_AP2 = ucast (drop_bit 15 w),
     s_S = ucast (drop_bit 16 w), s_nG = ucast (drop_bit 17 w), s_pad0_unset = ucast (drop_bit 18 w),
     s_NS = ucast (drop_bit 19 w), s_base_address = ucast (drop_bit 20 w)\<rparr>"

definition pack_l2_handle :: "l2_handle \<Rightarrow> l1_entry" where
  "pack_l2_handle h = ucast (h_pad1_set h) OR push_bit 1 (ucast (h_pad0_unset h)) OR
     push_bit 2 (ucast (h_PXN h)) OR push_bit 3 (ucast (h_NS h)) OR push_bit 4 (ucast (h_SBZ h)) OR
     push_bit 5 (ucast (h_domain h)) OR push_bit 9 (ucast (h_IMPL h)) OR
     push_bit 10 (ucast (h_base_address h))"

definition unpack_l2_handle :: "l1_entry \<Rightarrow> l2_handle" where
  "unpack_l2_handle w = \<lparr>h_pad1_set = ucast w, h_pad0_unset = ucast (drop_bit 1 w),
     h_PXN = ucast (drop_bit 2 w), h_NS = ucast (drop_bit 3 w), h_SBZ = ucast (drop_bit 4 w),
     h_domain = ucast (drop_bit 5 w), h_IMPL = ucast (drop_bit 9 w),
     h_base_address = ucast (drop_bit 10 w)\<rparr>"

definition pack_l2_small_page :: "l2_small_page \<Rightarrow> l2_entry" where
  "pack_l2_small_page p = ucast (p_XN p) OR push_bit 1 (ucast (p_pad0_set p)) OR
     push_bit 2 (ucast (p_B p)) OR push_bit 3 (ucast (p_C p)) OR push_bit 4 (ucast (p_AP1_0 p)) OR
     push_bit 6 (ucast (p_TEX p)) OR push_bit 9 (ucast (p_AP2 p)) OR push_bit 10 (ucast (p_S p)) OR
     push_bit 11 (ucast (p_nG p)) OR push_bit 12 (ucast (p_base_address p))"

definition unpack_l2_small_page :: "l2_entry \<Rightarrow> l2_small_page" where
  "unpack_l2_small_page w = \<lparr>p_XN = ucast w, p_pad0_set = ucast (drop_bit 1 w),
     p_B = ucast (drop_bit 2 w), p_C = ucast (drop_bit 3 w), p_AP1_0 = ucast (drop_bit 4 w),
     p_TEX = ucast (drop_bit 6 w), p_AP2 = ucast (drop_bit 9 w), p_S = ucast (drop_bit 10 w),
     p_nG = ucast (drop_bit 11 w), p_base_address = ucast (drop_bit 12 w)\<rparr>"

lemmas pack_defs = pack_l1_fault_def unpack_l1_fault_def pack_l1_section_def unpack_l1_section_def
  pack_l2_handle_def unpack_l2_handle_def pack_l2_small_page_def unpack_l2_small_page_def

section \<open>Permissions\<close>

type_synonym permissions = u32

definition KREAD :: permissions where "KREAD = 4"
definition KWRITE :: permissions where "KWRITE = 2"
definition KEXEC :: permissions where "KEXEC = 1"
definition KNONE :: permissions where "KNONE = 0"
definition UREAD :: permissions where "UREAD = 4"
definition UWRITE :: permissions where "UWRITE = 2"
definition UEXEC :: permissions where "UEXEC = 1"
definition UNONE :: permissions where "UNONE = 0"

lemmas permission_defs = KREAD_def KWRITE_def KEXEC_def KNONE_def UREAD_def UWRITE_def UEXEC_def UNONE_def

definition COMBINE_PERMISSIONS :: "permissions \<Rightarrow> permissions \<Rightarrow> u32" where
  "COMBINE_PERMISSIONS kp up = push_bit 3 (kp AND NOT KEXEC) OR (up AND NOT UEXEC)"

definition get_AP_bits :: "permissions \<Rightarrow> permissions \<Rightarrow> u8 option" where
  "get_AP_bits kp up =
     (let c = COMBINE_PERMISSIONS kp up in
      if c = COMBINE_PERMISSIONS KNONE UNONE then Some 0
      else if c = COMBINE_PERMISSIONS (KREAD OR KWRITE) UNONE then Some 1
      else if c = COMBINE_PERMISSIONS KREAD UNONE then Some 5
      else if c = COMBINE_PERMISSIONS KREAD UREAD then Some 7
      else if c = COMBINE_PERMISSIONS (KREAD OR KWRITE) UREAD then Some 2
      else if c = COMBINE_PERMISSIONS (KREAD OR KWRITE) (UREAD OR UWRITE) then Some 3
      else None)"

text \<open>The repair of an execute permission without read, at the start of both constructors.\<close>

definition add_read :: "permissions \<Rightarrow> permissions \<Rightarrow> permissions \<Rightarrow> permissions" where
  "add_read p exec read = (if p AND exec \<noteq> 0 \<and> p AND read = 0 then p OR read else p)"

section \<open>Constructors\<close>

definition l1_section_set_base_address :: "l1_section \<Rightarrow> u32 \<Rightarrow> l1_section option" where
  "l1_section_set_base_address s base_address = do {
     verify (base_address mod MiB = 0);
     Some (s\<lparr>s_base_address := ucast (base_address div MiB)\<rparr>)
   }"

definition l2_handle_set_table_address :: "l2_handle \<Rightarrow> u32 \<Rightarrow> l2_handle option" where
  "l2_handle_set_table_address handle table_address = do {
     verify (table_address mod KiB = 0);
     Some (handle\<lparr>h_base_address := ucast (table_address div KiB)\<rparr>)
   }"

definition get_stack_handle :: "u32 \<Rightarrow> l2_handle option" where
  "get_stack_handle l2_table_address =
     l2_handle_set_table_address ((unpack_l2_handle 0)\<lparr>h_pad1_set := 1\<rparr>) l2_table_address"

definition get_l1_section :: "u32 \<Rightarrow> permissions \<Rightarrow> permissions \<Rightarrow> l1_section option" where
  "get_l1_section physical_base kp up = do {
     let ret = (unpack_l1_section 0)\<lparr>s_pad1_set := 1\<rparr>;
     ret \<leftarrow> l1_section_set_base_address ret physical_base;
     let kp = add_read kp KEXEC KREAD;
     let up = add_read up UEXEC UREAD;
     let ret = (if kp AND KEXEC = 0
                then if up AND UEXEC \<noteq> 0 then ret\<lparr>s_PXN := 1\<rparr> else ret\<lparr>s_XN := 1\<rparr>
                else ret);
     AP \<leftarrow> get_AP_bits kp up;
     Some (ret\<lparr>s_AP2 := ucast (drop_bit 2 (AP AND 4)), s_AP1_0 := ucast (AP AND 3)\<rparr>)
   }"

definition get_l1_guard_page :: l1_fault where
  "get_l1_guard_page = unpack_l1_fault 0"

definition get_l2_small_page :: "u32 \<Rightarrow> permissions \<Rightarrow> permissions \<Rightarrow> l2_small_page option" where
  "get_l2_small_page physical_base kp up = do {
     verify (physical_base mod (4 * KiB) = 0);
     let ret = (unpack_l2_small_page 0)\<lparr>p_pad0_set := 1, p_base_address := ucast (physical_base div (4 * KiB))\<rparr>;
     let kp = add_read kp KEXEC KREAD;
     let up = add_read up UEXEC UREAD;
     let ret = (if kp AND KEXEC = 0
                then if up AND UEXEC \<noteq> 0 then ret else ret\<lparr>p_XN := 1\<rparr>
                else ret);
     AP \<leftarrow> get_AP_bits kp up;
     Some (ret\<lparr>p_AP2 := ucast (drop_bit 2 (AP AND 4)), p_AP1_0 := ucast (AP AND 3)\<rparr>)
   }"

definition get_l2_guard_page :: l2_entry where
  "get_l2_guard_page = 0"

text \<open>The address of the \<open>n\<close>-th table of \<^verbatim>\<open>l2_stack_tables[STACK_COUNT][L2_STACK_TABLE_SIZE]\<close>.\<close>

definition l2_stack_table :: "env \<Rightarrow> nat \<Rightarrow> u32" where
  "l2_stack_table e n = l2_stack_tables_address e + of_nat n * (of_nat L2_STACK_TABLE_SIZE * 4)"

definition get_nth_stack_handle :: "env \<Rightarrow> nat \<Rightarrow> l2_handle option" where
  "get_nth_stack_handle e n = get_stack_handle (l2_stack_table e n)"

section \<open>Access to the first level table\<close>

definition set_l1_table_entry :: "nat \<Rightarrow> l1_entry \<Rightarrow> (nat \<Rightarrow> l1_entry) \<Rightarrow> (nat \<Rightarrow> l1_entry) option" where
  "set_l1_table_entry index entry l1_table = do {
     verify (index < L1_TABLE_SIZE);
     Some (l1_table(index := entry))
   }"

definition get_l1_entry :: "nat \<Rightarrow> (nat \<Rightarrow> l1_entry) \<Rightarrow> l1_entry option" where
  "get_l1_entry index l1_table = do {
     verify (index < L1_TABLE_SIZE);
     Some (l1_table index)
   }"

datatype l1_type = fault | section_type | handle

definition l1_entry_is_section :: "l1_entry \<Rightarrow> bool" where
  "l1_entry_is_section e \<longleftrightarrow>
     s_pad1_set (unpack_l1_section e) \<noteq> 0 \<and> s_pad0_unset (unpack_l1_section e) = 0"

definition l1_entry_get_type :: "l1_entry \<Rightarrow> l1_type option" where
  "l1_entry_get_type e =
     (if f_pad0_unset (unpack_l1_fault e) = 0 \<and> f_pad1_unset (unpack_l1_fault e) = 0 then Some fault
      else if s_pad1_set (unpack_l1_section e) \<noteq> 0 \<and> s_pad0_unset (unpack_l1_section e) = 0 then Some section_type
      else if h_pad1_set (unpack_l2_handle e) \<noteq> 0 \<and> h_pad0_unset (unpack_l2_handle e) = 0 then Some handle
      else None)"

section \<open>Initialisation of the tables\<close>

definition initialise_l2_stack_tables :: "(nat \<Rightarrow> nat \<Rightarrow> l2_entry) \<Rightarrow> (nat \<Rightarrow> nat \<Rightarrow> l2_entry) option" where
  "initialise_l2_stack_tables tables = do {
     tables \<leftarrow> for_upto 0 USER_STACK_COUNT (\<lambda>i tables. do {
       let current_stack_base = USER_STACK_BOTTOM_ADDRESS + of_nat i * STACK_SIZE;
       let tables = tables(i := (tables i)(0 := get_l2_guard_page));
       for_upto 1 L2_STACK_TABLE_SIZE (\<lambda>j tables. do {
         page \<leftarrow> get_l2_small_page (current_stack_base + of_nat j * 4 * KiB) (KREAD OR KWRITE) (UREAD OR UWRITE);
         Some (tables(i := (tables i)(j := pack_l2_small_page page)))
       }) tables
     }) tables;
     for_upto 0 KERNEL_STACK_COUNT (\<lambda>i tables. do {
       let current_stack_base = KERNEL_STACK_BOTTOM_ADDRESS + of_nat i * STACK_SIZE;
       let k = USER_STACK_COUNT + i;
       let tables = tables(k := (tables k)(0 := get_l2_guard_page));
       for_upto 1 L2_STACK_TABLE_SIZE (\<lambda>j tables. do {
         page \<leftarrow> get_l2_small_page (current_stack_base + of_nat j * 4 * KiB) (KREAD OR KWRITE) UNONE;
         Some (tables(k := (tables k)(j := pack_l2_small_page page)))
       }) tables
     }) tables
   }"

definition address_range_starts :: "u32 list" where
  "address_range_starts = [UNASSIGNED0_START_ADDRESS, INIT_TEXT_SECTION_START_ADDRESS,
     RODATA_SECTION_START_ADDRESS, BSS_DATA_SECTION_START_ADDRESS, UTEXT_SECTION_START_ADDRESS,
     URODATA_SECTION_START_ADDRESS, UBSS_UDATA_SECTION_START_ADDRESS,
     UBSS_UDATA_KERNEL_MAP_START_ADDRESS, UBSS_UDATA_KERNEL_ORIGINAL_MAP_START_ADDRESS,
     UNASSIGNED1_START_ADDRESS, MMIO_DEVICES_START_ADDRESS, UNASSIGNED2_START_ADDRESS,
     VIRTUAL_PROCESS_STACKS_BOTTOM_ADDRESS, USER_STACK_KERNEL_ONLY_MAPPING_START_ADDRESS,
     KERNEL_STACK_BOTTOM_ADDRESS, MEMORY_TOP_ADDRESS]"

definition DISTINCT_SECTIONS_COUNT :: nat where "DISTINCT_SECTIONS_COUNT = 15"

definition l1_section_entry :: "u32 \<Rightarrow> permissions \<Rightarrow> permissions \<Rightarrow> l1_entry option" where
  "l1_section_entry base kp up = map_option pack_l1_section (get_l1_section base kp up)"

definition l1_sections :: "env \<Rightarrow> l1_entry list option" where
  "l1_sections e = do {
     init_text \<leftarrow> l1_section_entry INIT_TEXT_SECTION_START_ADDRESS (KREAD OR KEXEC) UNONE;
     rodata \<leftarrow> l1_section_entry RODATA_SECTION_START_ADDRESS KREAD UNONE;
     bss_data \<leftarrow> l1_section_entry BSS_DATA_SECTION_START_ADDRESS (KREAD OR KWRITE) UNONE;
     utext \<leftarrow> l1_section_entry UTEXT_SECTION_START_ADDRESS (KREAD OR KWRITE) (UREAD OR UEXEC);
     urodata \<leftarrow> l1_section_entry URODATA_SECTION_START_ADDRESS KREAD UREAD;
     ubss_udata \<leftarrow> l1_section_entry UBSS_UDATA_SECTION_START_ADDRESS (KREAD OR KWRITE) (UREAD OR UWRITE);
     kernel_map \<leftarrow> l1_section_entry UBSS_UDATA_KERNEL_MAP_START_ADDRESS (KREAD OR KWRITE) UNONE;
     original_map \<leftarrow> l1_section_entry UBSS_UDATA_SECTION_START_ADDRESS KREAD UNONE;
     mmio \<leftarrow> l1_section_entry MMIO_DEVICES_START_ADDRESS (KREAD OR KWRITE) UNONE;
     stack \<leftarrow> get_stack_handle (l2_stack_table e 0);
     stack_map \<leftarrow> l1_section_entry USER_STACK_KERNEL_ONLY_MAPPING_START_ADDRESS (KREAD OR KWRITE) UNONE;
     Some [pack_l1_fault get_l1_guard_page, init_text, rodata, bss_data, utext, urodata, ubss_udata,
       kernel_map, original_map, pack_l1_fault get_l1_guard_page, mmio, pack_l1_fault get_l1_guard_page,
       pack_l2_handle stack, stack_map, pack_l2_handle stack]
   }"

text \<open>The body of the inner loop up to the assignment: the template for the address \<open>j\<close>.\<close>

definition l1_template_at :: "env \<Rightarrow> u32 \<Rightarrow> l1_entry \<Rightarrow> l1_entry option" where
  "l1_template_at e j template = do {
     t \<leftarrow> l1_entry_get_type template;
     case t of
       fault \<Rightarrow> Some template
     | section_type \<Rightarrow> map_option pack_l1_section (l1_section_set_base_address (unpack_l1_section template) j)
     | handle \<Rightarrow>
         (if j \<ge> KERNEL_STACK_BOTTOM_ADDRESS
          then do {
            let stack_index = unat ((j - USER_STACK_BOTTOM_ADDRESS) div STACK_SIZE);
            verify (stack_index < STACK_COUNT);
            map_option pack_l2_handle (l2_handle_set_table_address (unpack_l2_handle template) (l2_stack_table e stack_index))
          }
          else Some template)
   }"

text \<open>The inner loop; no address it reaches is near the end of the address space.\<close>

function l1_range_loop :: "env \<Rightarrow> nat \<Rightarrow> nat \<Rightarrow> l1_entry \<Rightarrow> (nat \<Rightarrow> l1_entry) \<Rightarrow> (nat \<Rightarrow> l1_entry) option" where
  "l1_range_loop e j stop template l1_table =
     (if j < stop
      then do {
        template \<leftarrow> l1_template_at e (of_nat j) template;
        l1_range_loop e (j + 1048576) stop template (l1_table(j div 1048576 := template))
      }
      else Some l1_table)"
  by pat_completeness auto
termination
  by (relation "measure (\<lambda>(e, j, stop, template, l1_table). stop - j)") auto

declare l1_range_loop.simps [simp del]

definition initialise_l1_table :: "env \<Rightarrow> (nat \<Rightarrow> l1_entry) \<Rightarrow> (nat \<Rightarrow> l1_entry) option" where
  "initialise_l1_table e l1_table = do {
     sections \<leftarrow> l1_sections e;
     l1_table \<leftarrow> for_upto 0 DISTINCT_SECTIONS_COUNT (\<lambda>i l1_table.
       l1_range_loop e (unat (address_range_starts ! i)) (unat (address_range_starts ! (i + 1)))
         (sections ! i) l1_table) l1_table;
     bla \<leftarrow> l1_section_entry UBSS_UDATA_SECTION_START_ADDRESS KREAD UNONE;
     Some (l1_table(unat (UBSS_UDATA_KERNEL_ORIGINAL_MAP_START_ADDRESS div MiB) := bla))
   }"

section \<open>Control registers\<close>

datatype domain_mode = no_access | client | manager

fun domain_mode_bits :: "domain_mode \<Rightarrow> u32" where
  "domain_mode_bits no_access = 0"
| "domain_mode_bits client = 1"
| "domain_mode_bits manager = 3"

datatype ttf = ttf_short | ttf_long

fun ttf_bits :: "ttf \<Rightarrow> u32" where
  "ttf_bits ttf_short = 0"
| "ttf_bits ttf_long = 1"

definition MMU_enable :: nat where "MMU_enable = 0"
definition cache_enable :: nat where "cache_enable = 2"
definition instruction_cache_enable :: nat where "instruction_cache_enable = 12"

definition DACR_set_domain :: "u32 \<Rightarrow> u8 \<Rightarrow> domain_mode \<Rightarrow> u32 option" where
  "DACR_set_domain DACR domain mode = do {
     verify (domain \<le> 15);
     let DACR = DACR AND NOT (push_bit (unat domain * 2) 3);
     let DACR = DACR OR push_bit (unat domain * 2) (domain_mode_bits mode);
     Some DACR
   }"

definition TTBCR_set_translation_table_format :: "u32 \<Rightarrow> ttf \<Rightarrow> u32" where
  "TTBCR_set_translation_table_format TTBCR format =
     (TTBCR AND NOT (push_bit 31 1)) OR push_bit 31 (ttf_bits format)"

definition SCTRL_deactivate_caches :: "u32 \<Rightarrow> u32" where
  "SCTRL_deactivate_caches SCTRL = SCTRL AND NOT (push_bit cache_enable 1 OR push_bit instruction_cache_enable 1)"

definition SCTRL_activate_mmu :: "u32 \<Rightarrow> u32" where
  "SCTRL_activate_mmu SCTRL = SCTRL OR push_bit MMU_enable 1"

definition SCTRL_deactivate_mmu :: "u32 \<Rightarrow> u32" where
  "SCTRL_deactivate_mmu SCTRL = SCTRL AND NOT (push_bit MMU_enable 1)"

record cp15 =
  TTBR0 :: u32
  DACR :: u32
  TTBCR :: u32
  SCTLR :: u32

record mmu_state =
  mmu_l1_table :: "nat \<Rightarrow> l1_entry"
  mmu_l2_stack_tables :: "nat \<Rightarrow> nat \<Rightarrow> l2_entry"
  cp15_regs :: cp15

definition mmu_configure :: "env \<Rightarrow> mmu_state \<Rightarrow> mmu_state option" where
  "mmu_configure e m = do {
     l2 \<leftarrow> initialise_l2_stack_tables (mmu_l2_stack_tables m);
     l1 \<leftarrow> initialise_l1_table e (mmu_l1_table m);
     let c = cp15_regs m;
     dacr \<leftarrow> DACR_set_domain (DACR c) 0 client;
     let ttbcr = TTBCR_set_translation_table_format (TTBCR c) ttf_short;
     let sctlr = SCTRL_deactivate_caches (SCTLR c);
     let sctlr = SCTRL_activate_mmu sctlr;
     Some (m\<lparr>mmu_l1_table := l1, mmu_l2_stack_tables := l2,
       cp15_regs := \<lparr>TTBR0 = l1_table_address e, DACR = dacr, TTBCR = ttbcr, SCTLR = sctlr\<rparr>\<rparr>)
   }"

text \<open>
  Both functions end in a second \<^verbatim>\<open>mrc\<close>, which reads the control register into a register of the
  processor instead of writing it.
\<close>

definition mrc_SCTLR :: "cp15 \<Rightarrow> u32" where
  "mrc_SCTLR c = SCTLR c"

definition mmu_activate :: "cp15 \<Rightarrow> u32 \<times> cp15" where
  "mmu_activate c =
     (let SCTRL = mrc_SCTLR c;
          SCTRL = SCTRL_activate_mmu SCTRL;
          SCTRL = mrc_SCTLR c
      in (SCTRL, c))"

definition mmu_deactivate :: "cp15 \<Rightarrow> u32 \<times> cp15" where
  "mmu_deactivate c =
     (let SCTRL = mrc_SCTLR c;
          SCTRL = SCTRL_deactivate_mmu SCTRL;
          SCTRL = mrc_SCTLR c
      in (SCTRL, c))"

end
