(* ===== verification/Kmath.thy ===== *)
theory Kmath
  imports Prelude
begin

text \<open>
  \<^verbatim>\<open>kernel/lib/kmath.c\<close> and the macros of \<^verbatim>\<open>include/kernel/lib/kmath.h\<close>: modular addition
  and subtraction of unsigned numbers, greatest common divisor and least common multiple of
  signed numbers, clamping and alignment. \<^verbatim>\<open>unsigned\<close> is \<open>u32\<close>, \<^verbatim>\<open>long\<close> is an integer
  with the range checks of \<^theory_text>\<open>Prelude\<close>.
\<close>

section \<open>Definitions\<close>

definition K_ABS :: "int \<Rightarrow> int option" where
  "K_ABS a = (if a \<ge> 0 then Some a else long (- a))"

definition K_MIN :: "'a::ord \<Rightarrow> 'a \<Rightarrow> 'a" where
  "K_MIN a b = (if a < b then a else b)"

definition K_MAX :: "'a::ord \<Rightarrow> 'a \<Rightarrow> 'a" where
  "K_MAX a b = (if a < b then b else a)"

definition K_IS_POWER_OF_TWO :: "u32 \<Rightarrow> bool" where
  "K_IS_POWER_OF_TWO x \<longleftrightarrow> x AND (x - 1) = 0"

definition k_modulo_add :: "u32 \<Rightarrow> u32 \<Rightarrow> u32 \<Rightarrow> u32 \<Rightarrow> u32 option" where
  "k_modulo_add a b mn mx = do {
     verify (mn < mx);
     let a = a mod mx;
     let b = b mod mx;
     if a < mx - b then Some (a + b)
     else Some ((a + b) - mx + mn)
   }"

definition k_modulo_sub :: "u32 \<Rightarrow> u32 \<Rightarrow> u32 \<Rightarrow> u32 \<Rightarrow> u32 option" where
  "k_modulo_sub a b mn mx = do {
     verify (mn < mx);
     let a = a mod mx;
     let b = b mod mx;
     if K_MAX a mn - K_MIN a mn < b
     then Some (mx - (b - (K_MAX a mn - K_MIN a mn)))
     else Some (a - b)
   }"

text \<open>The loop of \<open>k_gcd\<close>. Its remainder never overflows: the arguments are not negative.\<close>

function k_gcd_loop :: "int \<Rightarrow> int \<Rightarrow> int" where
  "k_gcd_loop a b = (if b \<noteq> 0 then k_gcd_loop b (a smod b) else a)"
  by pat_completeness auto
termination
  by (relation "measure (\<lambda>(a, b). nat \<bar>b\<bar>)") (auto simp: smod_int_alt_def abs_mult)

declare k_gcd_loop.simps [simp del]

definition k_gcd :: "int \<Rightarrow> int \<Rightarrow> int option" where
  "k_gcd a b = do {
     a \<leftarrow> K_ABS a;
     b \<leftarrow> K_ABS b;
     Some (k_gcd_loop a b)
   }"

definition k_lcm :: "int \<Rightarrow> int \<Rightarrow> int option" where
  "k_lcm a b = do {
     x \<leftarrow> K_ABS a;
     g \<leftarrow> k_gcd a b;
     q \<leftarrow> long_div x g;
     y \<leftarrow> K_ABS b;
     long (q * y)
   }"

definition k_clamp_unsigned :: "u32 \<Rightarrow> u32 \<Rightarrow> u32 \<Rightarrow> u32 option" where
  "k_clamp_unsigned num mn mx = do {
     verify (mn < mx);
     Some (if num < mn then mn else if num > mx then mx else num)
   }"

definition UINT_MAX :: u32 where "UINT_MAX = 0xFFFFFFFF"

definition k_align8 :: "u32 \<Rightarrow> u32 option" where
  "k_align8 num = do {
     verify (UINT_MAX - 8 \<ge> num);
     Some (if num mod 8 \<noteq> 0 then num + 8 - (num mod 8) else num)
   }"

section \<open>Correctness\<close>

lemma k_gcd_loop_nonneg: "0 \<le> a \<Longrightarrow> 0 \<le> b \<Longrightarrow> k_gcd_loop a b = gcd a b"
proof (induction a b rule: k_gcd_loop.induct)
  case (1 a b)
  show ?case
  proof (cases "b = 0")
    case True
    with 1 show ?thesis by (simp add: k_gcd_loop.simps [of a 0])
  next
    case False
    with 1 have "k_gcd_loop b (a smod b) = gcd b (a smod b)"
      by (simp add: smod_nonneg)
    with False 1 show ?thesis
      by (simp add: k_gcd_loop.simps [of a b] smod_nonneg gcd_red_int [symmetric])
  qed
qed

lemma K_ABS_eq: "in_long a \<Longrightarrow> a \<noteq> LONG_MIN \<Longrightarrow> K_ABS a = Some \<bar>a\<bar>"
  by (auto simp: K_ABS_def in_long_def)

lemma K_ABS_min: "K_ABS LONG_MIN = None"
  by (simp add: K_ABS_def in_long_def)

lemma k_gcd_eq:
  assumes "in_long a" "in_long b" "a \<noteq> LONG_MIN" "b \<noteq> LONG_MIN"
  shows "k_gcd a b = Some (gcd a b)"
  using assms by (simp add: k_gcd_def K_ABS_eq k_gcd_loop_nonneg)

lemma k_lcm_eq:
  assumes "in_long a" "in_long b" "a \<noteq> LONG_MIN" "b \<noteq> LONG_MIN" "a \<noteq> 0 \<or> b \<noteq> 0"
  shows "k_lcm a b = long (lcm a b)"
proof -
  have pos: "0 < gcd a b" using assms by simp
  have q: "\<bar>a\<bar> sdiv gcd a b = \<bar>a\<bar> div gcd a b"
    using pos by (simp add: sdiv_nonneg)
  have "\<bar>a\<bar> div gcd a b \<le> \<bar>a\<bar>"
    using zdiv_mono2 [of "\<bar>a\<bar>" 1 "gcd a b"] pos by simp
  moreover have "0 \<le> \<bar>a\<bar> div gcd a b"
    using pos by (simp add: pos_imp_zdiv_nonneg_iff)
  ultimately have "in_long (\<bar>a\<bar> div gcd a b)"
    using assms by (auto simp: in_long_def)
  moreover have "\<bar>a\<bar> div gcd a b * \<bar>b\<bar> = lcm a b"
    by (simp only: lcm_altdef_int dvd_div_mult [of "gcd a b" "\<bar>a\<bar>"] dvd_abs_iff gcd_dvd1)
  ultimately show ?thesis
    using assms pos by (auto simp: k_lcm_def K_ABS_eq k_gcd_eq long_div_def q)
qed

lemma k_modulo_add_zero_min:
  assumes "0 < mx"
  shows "map_option unat (k_modulo_add a b 0 mx) = Some ((unat a + unat b) mod unat mx)"
proof -
  define x y where "x = a mod mx" and "y = b mod mx"
  have M: "0 < unat mx" using assms by (simp add: word_less_nat_alt)
  have x: "unat x = unat a mod unat mx" "unat x < unat mx"
    and y: "unat y = unat b mod unat mx" "unat y < unat mx"
    using M by (simp_all add: x_def y_def unat_mod_distrib)
  have d: "unat (mx - y) = unat mx - unat y"
    using y by (simp add: unat_sub word_le_nat_alt)
  have sum: "(unat a + unat b) mod unat mx = (unat x + unat y) mod unat mx"
    by (simp add: x y mod_add_eq)
  show ?thesis
  proof (cases "x < mx - y")
    case True
    then have "unat x + unat y < unat mx"
      using d y by (simp add: word_less_nat_alt)
    moreover from this have "unat (x + y) = unat x + unat y"
      using unat_u32_less [of mx] by (simp add: unat_word_ariths)
    ultimately show ?thesis
      using True assms by (simp add: k_modulo_add_def Let_def x_def [symmetric] y_def [symmetric] sum)
  next
    case False
    then have le: "mx - y \<le> x" by simp
    then have ge: "unat mx \<le> unat x + unat y"
      using d y by (simp add: word_le_nat_alt)
    have "unat (x - (mx - y)) = unat x + unat y - unat mx"
      unfolding unat_sub [OF le] d using y(2) by arith
    moreover have "x - (mx - y) = x + y - mx" by simp
    moreover have "(unat x + unat y) mod unat mx = unat x + unat y - unat mx"
      using ge x(2) y(2) by (simp add: le_mod_geq)
    ultimately show ?thesis
      using False assms by (simp add: k_modulo_add_def Let_def x_def [symmetric] y_def [symmetric] sum)
  qed
qed

lemma k_modulo_sub_zero_min:
  assumes "0 < mx"
  shows "map_option unat (k_modulo_sub a b 0 mx) =
    Some ((unat a mod unat mx + (unat mx - unat b mod unat mx)) mod unat mx)"
proof -
  define x y where "x = a mod mx" and "y = b mod mx"
  have M: "0 < unat mx" using assms by (simp add: word_less_nat_alt)
  have x: "unat x = unat a mod unat mx" "unat x < unat mx"
    and y: "unat y = unat b mod unat mx" "unat y < unat mx"
    using M by (simp_all add: x_def y_def unat_mod_distrib)
  have K: "K_MAX x 0 - K_MIN x 0 = x"
    by (simp add: K_MAX_def K_MIN_def)
  show ?thesis
  proof (cases "x < y")
    case True
    then have "unat (mx - (y - x)) = unat mx - (unat y - unat x)"
      using y by (subst unat_sub) (auto simp: unat_sub word_le_nat_alt word_less_nat_alt less_imp_le)
    moreover have "unat x + (unat mx - unat y) = unat mx - (unat y - unat x)"
      using True y by (simp add: word_less_nat_alt)
    moreover have "unat mx - (unat y - unat x) < unat mx"
      using True y by (simp add: word_less_nat_alt)
    ultimately show ?thesis
      using True assms K by (simp add: k_modulo_sub_def Let_def x_def [symmetric] y_def [symmetric] x(1) [symmetric] y(1) [symmetric])
  next
    case False
    then have "unat (x - y) = unat x - unat y" by (simp add: unat_sub)
    moreover have "unat x + (unat mx - unat y) = unat mx + (unat x - unat y)"
      using False y by (simp add: word_less_nat_alt)
    moreover have "(unat mx + (unat x - unat y)) mod unat mx = unat x - unat y"
      using x by simp
    ultimately show ?thesis
      using False assms K by (simp add: k_modulo_sub_def Let_def x_def [symmetric] y_def [symmetric] x(1) [symmetric] y(1) [symmetric])
  qed
qed

lemma k_align8_Some:
  assumes "num \<le> UINT_MAX - 8"
  shows "\<exists>r. k_align8 num = Some r \<and> unat r mod 8 = 0 \<and> num \<le> r \<and> unat r < unat num + 8"
proof -
  have n: "unat num \<le> 4294967287"
    using assms by (simp add: UINT_MAX_def word_le_nat_alt)
  have m: "unat (num mod 8) = unat num mod 8"
    by (simp add: unat_mod_distrib)
  have p: "unat (num + 8) = unat num + 8"
    using n by (simp add: unat_word_ariths)
  have "num mod 8 \<le> num + 8"
    using m p mod_less_eq_dividend [of "unat num" 8] by (simp add: word_le_nat_alt del: mod_less_eq_dividend)
  then have d: "unat (num + 8 - num mod 8) = unat num + 8 - unat num mod 8"
    by (simp add: unat_sub m p)
  have z: "num mod 8 = 0 \<longleftrightarrow> unat num mod 8 = 0"
    by (metis m unat_eq_zero)
  have "(unat num + 8 - unat num mod 8) mod 8 = 0" by presburger
  moreover have "unat num + 8 - unat num mod 8 < unat num + 8 \<longleftrightarrow> unat num mod 8 \<noteq> 0"
    by presburger
  moreover have "unat num \<le> unat num + 8 - unat num mod 8" by presburger
  ultimately show ?thesis
    using assms by (auto simp: k_align8_def z d word_le_nat_alt)
qed

lemma K_IS_POWER_OF_TWO_unat:
  assumes "x \<noteq> 0" "K_IS_POWER_OF_TWO x"
  shows "\<exists>n<32. unat x = 2 ^ n"
proof -
  have "unat (x - 1) = unat x - 1"
    using assms(1) by (simp add: unat_minus_one)
  moreover have "unat (x AND (x - 1)) = 0"
    using assms(2) by (simp add: K_IS_POWER_OF_TWO_def)
  ultimately have "unat x AND (unat x - 1) = 0"
    by (metis unsigned_and_eq)
  moreover have "0 < unat x" using assms(1) by (simp add: unat_gt_0)
  ultimately obtain n where n: "unat x = 2 ^ n"
    using nat_and_pred_0 by blast
  have "unat x < 2 ^ 32" using unat_u32_less [of x] by simp
  with n have "n < 32" by (metis nat_power_less_imp_less zero_less_numeral power_strict_increasing_iff one_less_numeral_iff semiring_norm(76))
  with n show ?thesis by blast
qed

end
