(* ===== verification/Kstring.thy ===== *)
theory Kstring
  imports Prelude
begin

text \<open>
  \<^verbatim>\<open>kernel/lib/kstring.c\<close>: copying bytes and the length of a zero-terminated string. Here a
  pointer is an offset into an array, given as the list of its elements; an access past the end
  of an array has no defined result. (The copies the scheduler makes between raw addresses are
  in \<^theory_text>\<open>Machine\<close>.)
\<close>

section \<open>Definitions\<close>

function k_memcpy_loop :: "'a list \<Rightarrow> nat \<Rightarrow> 'a list \<Rightarrow> nat \<Rightarrow> nat \<Rightarrow> nat \<Rightarrow> 'a list option" where
  "k_memcpy_loop dst_c d src_c s i n =
     (if i < n
      then if d + i < length dst_c \<and> s + i < length src_c
           then k_memcpy_loop (dst_c[d + i := src_c ! (s + i)]) d src_c s (Suc i) n
           else None
      else Some dst_c)"
  by pat_completeness auto
termination
  by (relation "measure (\<lambda>(dst_c, d, src_c, s, i, n). n - i)") auto

declare k_memcpy_loop.simps [simp del]

text \<open>\<open>k_memcpy dst d src s n\<close> copies \<open>n\<close> elements from \<open>src + s\<close> to \<open>dst + d\<close>.\<close>

definition k_memcpy :: "'a list \<Rightarrow> nat \<Rightarrow> 'a list \<Rightarrow> nat \<Rightarrow> nat \<Rightarrow> 'a list option" where
  "k_memcpy dst d src s n = k_memcpy_loop dst d src s 0 n"

text \<open>The string is the array behind the pointer, up to its end; without a zero byte in it the
  loop reads past the array.\<close>

fun k_strlen :: "u8 list \<Rightarrow> nat option" where
  "k_strlen [] = None"
| "k_strlen (c # s) = (if c \<noteq> 0 then map_option Suc (k_strlen s) else Some 0)"

section \<open>Correctness\<close>

lemma k_memcpy_loop_eq:
  assumes "d + n \<le> length dst" "s + n \<le> length src" "i \<le> n"
  shows "k_memcpy_loop dst d src s i n =
    Some (take (d + i) dst @ take (n - i) (drop (s + i) src) @ drop (d + n) dst)"
  using assms
proof (induction dst d src s i n rule: k_memcpy_loop.induct)
  case (1 dst d src s i n)
  show ?case
  proof (cases "i < n")
    case True
    let ?dst = "dst[d + i := src ! (s + i)]"
    have IH: "k_memcpy_loop ?dst d src s (Suc i) n =
        Some (take (d + Suc i) ?dst @ take (n - Suc i) (drop (s + Suc i) src) @ drop (d + n) ?dst)"
      using 1 True by simp
    have a: "take (d + Suc i) ?dst = take (d + i) dst @ [src ! (s + i)]"
      using 1 True by (simp add: take_Suc_conv_app_nth)
    have b: "take (n - i) (drop (s + i) src) = src ! (s + i) # take (n - Suc i) (drop (s + Suc i) src)"
      using 1 True by (simp add: Cons_nth_drop_Suc [symmetric] take_Cons' Suc_diff_Suc)
    show ?thesis
      using 1 True IH a b by (simp add: k_memcpy_loop.simps [of dst d src s i n])
  next
    case False
    with 1 have "i = n" by simp
    with 1 show ?thesis by (simp add: k_memcpy_loop.simps [of dst d src s n n])
  qed
qed

lemma k_memcpy_eq:
  assumes "d + n \<le> length dst" "s + n \<le> length src"
  shows "k_memcpy dst d src s n = Some (take d dst @ take n (drop s src) @ drop (d + n) dst)"
  using k_memcpy_loop_eq [OF assms, of 0] by (simp add: k_memcpy_def)

lemma k_strlen_eq: "0 \<notin> set s \<Longrightarrow> k_strlen (s @ 0 # t) = Some (length s)"
  by (induction s) auto

end
