(* ===== verification/Fifo.thy ===== *)
theory Fifo
  imports Prelude
begin

text \<open>
  The interface between the ring buffer and the driver that caches received characters in it: a
  bounded first-in first-out queue of blocks. \<open>put\<close> stores as much of a block as fits and returns
  how much that was, \<open>get\<close> removes up to \<open>n\<close> elements and returns them.

  The client's lemmas are about histories: whatever the interleaving of calls, what came out
  followed by what is still inside is what went in.
\<close>

datatype 'a fifo_call = Put "'a list" | Get nat

locale fifo =
  fixes valid :: "'q \<Rightarrow> bool"
    and contents :: "'q \<Rightarrow> 'a list"
    and capacity :: "'q \<Rightarrow> nat"
    and put :: "'a list \<Rightarrow> 'q \<Rightarrow> (nat \<times> 'q) option"
    and get :: "nat \<Rightarrow> 'q \<Rightarrow> ('a list \<times> 'q) option"
  assumes bounded: "valid q \<Longrightarrow> length (contents q) \<le> capacity q"
    and put_law: "valid q \<Longrightarrow> length xs < 4294967296 \<Longrightarrow>
      \<exists>q'. put xs q = Some (min (length xs) (capacity q - length (contents q)), q') \<and> valid q' \<and>
        capacity q' = capacity q \<and>
        contents q' = contents q @ take (capacity q - length (contents q)) xs"
    and get_law: "valid q \<Longrightarrow> n < 4294967296 \<Longrightarrow>
      \<exists>q'. get n q = Some (take n (contents q), q') \<and> valid q' \<and>
        capacity q' = capacity q \<and> contents q' = drop n (contents q)"
begin

text \<open>A call that fits: its block is short enough to have a length in the machine.\<close>

definition call_ok :: "'a fifo_call \<Rightarrow> bool" where
  "call_ok c = (case c of Put xs \<Rightarrow> length xs < 4294967296 | Get n \<Rightarrow> n < 4294967296)"

text \<open>The history collects what was accepted and what was delivered.\<close>

primrec run :: "'a fifo_call list \<Rightarrow> 'q \<times> 'a list \<times> 'a list \<Rightarrow> ('q \<times> 'a list \<times> 'a list) option" where
  "run [] s = Some s"
| "run (c # cs) s =
     (case s of (q, accepted, delivered) \<Rightarrow>
        (case c of
           Put xs \<Rightarrow> put xs q \<bind> (\<lambda>(k, q). run cs (q, accepted @ take k xs, delivered))
         | Get n \<Rightarrow> get n q \<bind> (\<lambda>(ys, q). run cs (q, accepted, delivered @ ys))))"

lemma run_fifo:
  assumes "valid q" "\<forall>c \<in> set cs. call_ok c" "accepted = delivered @ contents q"
  shows "\<exists>q' acc' del'. run cs (q, accepted, delivered) = Some (q', acc', del') \<and> valid q' \<and>
    capacity q' = capacity q \<and> acc' = del' @ contents q'"
  using assms
proof (induction cs arbitrary: q accepted delivered)
  case (Cons c cs)
  show ?case
  proof (cases c)
    case (Put xs)
    with Cons.prems(2) have "length xs < 4294967296" by (simp add: call_ok_def)
    then obtain q1 where q1: "put xs q = Some (min (length xs) (capacity q - length (contents q)), q1)"
        "valid q1" "capacity q1 = capacity q"
        "contents q1 = contents q @ take (capacity q - length (contents q)) xs"
      using put_law [OF Cons.prems(1)] by blast
    have t: "take (min (length xs) m) xs = take m xs" for m by (simp add: min_def)
    show ?thesis
      using Cons.IH [OF q1(2), of "accepted @ take (capacity q - length (contents q)) xs" delivered]
        Cons.prems q1 Put t by simp
  next
    case (Get n)
    with Cons.prems(2) have "n < 4294967296" by (simp add: call_ok_def)
    then obtain q1 where q1: "get n q = Some (take n (contents q), q1)"
        "valid q1" "capacity q1 = capacity q" "contents q1 = drop n (contents q)"
      using get_law [OF Cons.prems(1)] by blast
    show ?thesis
      using Cons.IH [OF q1(2), of accepted "delivered @ take n (contents q)"] Cons.prems q1 Get by simp
  qed
qed simp

lemma put_one:
  assumes "valid q"
  shows "\<exists>k q'. put [x] q = Some (k, q') \<and> valid q' \<and> capacity q' = capacity q \<and>
    contents q' = (if length (contents q) < capacity q then contents q @ [x] else contents q)"
  using put_law [OF assms, of "[x]"] by (cases "capacity q - length (contents q)") auto

lemma get_one:
  assumes "valid q" "contents q = x # xs"
  shows "\<exists>q'. get 1 q = Some ([x], q') \<and> valid q' \<and> capacity q' = capacity q \<and> contents q' = xs"
  using get_law [OF assms(1), of 1] assms(2) by simp

end

end
