(* ===== verification/Kringbuffer.thy ===== *)
theory Kringbuffer
  imports Kmath Kstring Fifo
begin

text \<open>
  \<^verbatim>\<open>kernel/lib/kringbuffer.c\<close>: a ring buffer over an array whose size is a power of two. Both
  indices count bytes modulo \<open>2 ^ 32\<close> and are only reduced to a position (\<open>AND mask\<close>) when the
  array is accessed. \<open>rb_data\<close> is the array behind the pointer; a caller's buffer is a list that
  the operations return changed.
\<close>

section \<open>Definitions\<close>

record k_ringbuffer =
  rb_data :: "u8 list"
  mask :: u32
  read_index :: u32
  write_index :: u32

definition k_ringbuffer_used :: "k_ringbuffer \<Rightarrow> u32" where
  "k_ringbuffer_used r = write_index r - read_index r"

definition k_ringbuffer_unused :: "k_ringbuffer \<Rightarrow> u32" where
  "k_ringbuffer_unused r = (mask r + 1) - (write_index r - read_index r)"

definition k_ringbuffer_read_with_offset :: "k_ringbuffer \<Rightarrow> u8 list \<Rightarrow> u32 \<Rightarrow> u32 \<Rightarrow> u8 list option" where
  "k_ringbuffer_read_with_offset r dst len offset = do {
     let size = mask r + 1;
     let offset = offset AND mask r;
     let rest_length = K_MIN len (size - offset);
     dst \<leftarrow> k_memcpy dst 0 (rb_data r) (unat offset) (unat rest_length);
     k_memcpy dst (unat rest_length) (rb_data r) 0 (unat (len - rest_length))
   }"

definition k_ringbuffer_write_with_offset :: "k_ringbuffer \<Rightarrow> u8 list \<Rightarrow> u32 \<Rightarrow> u32 \<Rightarrow> k_ringbuffer option" where
  "k_ringbuffer_write_with_offset r src len offset = do {
     let size = mask r + 1;
     let offset = offset AND mask r;
     let rest_length = K_MIN len (size - offset);
     data \<leftarrow> k_memcpy (rb_data r) (unat offset) src 0 (unat rest_length);
     data \<leftarrow> k_memcpy data 0 src (unat rest_length) (unat (len - rest_length));
     Some (r\<lparr>rb_data := data\<rparr>)
   }"

definition k_ringbuffer_initialise :: "u8 list option \<Rightarrow> u32 \<Rightarrow> k_ringbuffer option" where
  "k_ringbuffer_initialise data len = do {
     verify (data \<noteq> None);
     verify (len \<ge> 2 \<and> K_IS_POWER_OF_TWO len);
     Some \<lparr>rb_data = the data, mask = len - 1, read_index = 0, write_index = 0\<rparr>
   }"

definition k_ringbuffer_empty :: "k_ringbuffer \<Rightarrow> bool" where
  "k_ringbuffer_empty r \<longleftrightarrow> k_ringbuffer_used r = 0"

definition k_ringbuffer_full :: "k_ringbuffer \<Rightarrow> bool" where
  "k_ringbuffer_full r \<longleftrightarrow> k_ringbuffer_unused r = 0"

text \<open>The three operations return the number of bytes with what they change.\<close>

definition k_ringbuffer_peek_newest :: "k_ringbuffer \<Rightarrow> u8 list \<Rightarrow> u32 \<Rightarrow> (u32 \<times> u8 list) option" where
  "k_ringbuffer_peek_newest r dst len = do {
     let cap = k_ringbuffer_used r;
     let len = (if len > cap then cap else len);
     dst \<leftarrow> k_ringbuffer_read_with_offset r dst len (write_index r - len);
     Some (len, dst)
   }"

definition k_ringbuffer_read ::
  "k_ringbuffer \<Rightarrow> u8 list \<Rightarrow> u32 \<Rightarrow> (u32 \<times> u8 list \<times> k_ringbuffer) option" where
  "k_ringbuffer_read r dst len = do {
     let cap = k_ringbuffer_used r;
     let len = (if len > cap then cap else len);
     dst \<leftarrow> k_ringbuffer_read_with_offset r dst len (read_index r);
     Some (len, dst, r\<lparr>read_index := read_index r + len\<rparr>)
   }"

definition k_ringbuffer_write :: "k_ringbuffer \<Rightarrow> u8 list \<Rightarrow> u32 \<Rightarrow> (u32 \<times> k_ringbuffer) option" where
  "k_ringbuffer_write r src len = do {
     let cap = k_ringbuffer_unused r;
     let len = (if len > cap then cap else len);
     r \<leftarrow> k_ringbuffer_write_with_offset r src len (write_index r);
     Some (len, r\<lparr>write_index := write_index r + len\<rparr>)
   }"

section \<open>What a buffer holds\<close>

definition rb_size :: "k_ringbuffer \<Rightarrow> nat" where
  "rb_size r = length (rb_data r)"

definition rb_valid :: "k_ringbuffer \<Rightarrow> bool" where
  "rb_valid r \<longleftrightarrow> (\<exists>n < 32. rb_size r = 2 ^ n) \<and> unat (mask r) + 1 = rb_size r \<and>
     unat (write_index r - read_index r) \<le> rb_size r"

definition rb_contents :: "k_ringbuffer \<Rightarrow> u8 list" where
  "rb_contents r = map (\<lambda>i. rb_data r ! ((unat (read_index r) + i) mod rb_size r))
     [0..<unat (write_index r - read_index r)]"

lemma length_rb_contents [simp]: "length (rb_contents r) = unat (write_index r - read_index r)"
  by (simp add: rb_contents_def)

lemma rb_contents_nth:
  "i < unat (write_index r - read_index r) \<Longrightarrow>
    rb_contents r ! i = rb_data r ! ((unat (read_index r) + i) mod rb_size r)"
  by (simp add: rb_contents_def)

lemma unat_and_mask:
  assumes "unat m + 1 = 2 ^ n" "n < 32"
  shows "unat (x AND m :: u32) = unat x mod 2 ^ n"
proof -
  have "unat m = 2 ^ n - 1" using assms(1) by simp
  then have "unat (x AND m) = unat x AND (2 ^ n - 1)" by (simp add: unsigned_and_eq)
  also have "\<dots> = take_bit n (unat x)" by (simp add: take_bit_eq_mask mask_eq_exp_minus_1)
  finally show ?thesis by (simp add: take_bit_eq_mod)
qed

lemma K_MIN_min: "K_MIN a b = (min a b :: u32)"
  by (auto simp: K_MIN_def min_def)

lemma min_u32: "unat (min a b :: u32) = min (unat a) (unat b)"
  by (simp add: min_def word_le_nat_alt)

text \<open>The two copies around the end of the array, as positions modulo its size.\<close>

lemma wrapped_take:
  assumes "off < length d" "n \<le> length d"
  shows "take (min n (length d - off)) (drop off d) @ take (n - min n (length d - off)) d =
    map (\<lambda>i. d ! ((off + i) mod length d)) [0..<n]"
proof (rule nth_equalityI)
  show "length (take (min n (length d - off)) (drop off d) @ take (n - min n (length d - off)) d) =
      length (map (\<lambda>i. d ! ((off + i) mod length d)) [0..<n])"
    using assms by auto
  fix i
  assume "i < length (take (min n (length d - off)) (drop off d) @ take (n - min n (length d - off)) d)"
  then have i: "i < n" using assms by auto
  show "(take (min n (length d - off)) (drop off d) @ take (n - min n (length d - off)) d) ! i =
      map (\<lambda>i. d ! ((off + i) mod length d)) [0..<n] ! i"
  proof (cases "i < length d - off")
    case True
    then show ?thesis using assms i by (simp add: nth_append)
  next
    case False
    then have "(off + i) mod length d = i - (length d - off)"
      using assms i by (subst le_mod_geq) auto
    with False show ?thesis using assms i by (simp add: nth_append min_def)
  qed
qed

lemma rb_valid_split:
  assumes "rb_valid r"
  obtains n where "n < 32" "rb_size r = 2 ^ n" "unat (mask r) + 1 = 2 ^ n"
    and "\<And>x. unat (x AND mask r) = unat x mod 2 ^ n"
    and "\<And>x. unat (mask r + 1 - (x AND mask r)) = 2 ^ n - unat x mod 2 ^ n"
    and "unat (mask r + 1) = 2 ^ n"
proof -
  from assms obtain n where n: "n < 32" "rb_size r = 2 ^ n" "unat (mask r) + 1 = 2 ^ n"
    by (auto simp: rb_valid_def)
  have "(2::nat) ^ n < 2 ^ 32" using n(1) by (intro power_strict_increasing) auto
  then have s: "unat (mask r + 1) = 2 ^ n" using n(3) by (simp add: unat_word_ariths)
  have a: "unat (x AND mask r) = unat x mod 2 ^ n" for x
    by (rule unat_and_mask [OF n(3,1)])
  have "unat (mask r + 1 - (x AND mask r)) = 2 ^ n - unat x mod 2 ^ n" for x
  proof -
    have "unat (x AND mask r) \<le> unat (mask r + 1)" using a [of x] s by (simp add: less_imp_le)
    then show ?thesis by (simp add: unat_sub word_le_nat_alt s a)
  qed
  with n a s show thesis by (intro that) auto
qed

lemma read_with_offset_eq:
  assumes "rb_valid r" "unat len \<le> rb_size r" "unat len \<le> length dst"
  shows "k_ringbuffer_read_with_offset r dst len offset =
    Some (map (\<lambda>i. rb_data r ! ((unat offset + i) mod rb_size r)) [0..<unat len] @ drop (unat len) dst)"
proof -
  obtain n where n: "n < 32" "rb_size r = 2 ^ n" "unat (mask r) + 1 = 2 ^ n"
      "\<And>x. unat (x AND mask r) = unat x mod 2 ^ n"
      "\<And>x. unat (mask r + 1 - (x AND mask r)) = 2 ^ n - unat x mod 2 ^ n"
    using rb_valid_split [OF assms(1)] by metis
  define off where "off = unat offset mod 2 ^ n"
  define rest where "rest = K_MIN len (mask r + 1 - (offset AND mask r))"
  have L: "length (rb_data r) = 2 ^ n" using n(2) by (simp add: rb_size_def)
  have off: "off < length (rb_data r)" by (simp add: off_def L)
  have ur: "unat rest = min (unat len) (length (rb_data r) - off)"
    by (simp add: rest_def K_MIN_min min_u32 n(5) off_def L)
  have rl: "unat (len - rest) = unat len - unat rest"
    using ur by (intro unat_sub) (simp add: word_le_nat_alt)
  have lr: "unat rest \<le> unat len" "off + unat rest \<le> length (rb_data r)" "unat len - unat rest \<le> off"
    using ur off assms(2) by (auto simp: rb_size_def)
  let ?a = "take (unat rest) (drop off (rb_data r))"
  let ?b = "take (unat len - unat rest) (rb_data r)"
  have s1: "k_memcpy dst 0 (rb_data r) off (unat rest) = Some (?a @ drop (unat rest) dst)"
    using lr assms(3) by (subst k_memcpy_eq) auto
  have la: "length ?a = unat rest" using lr by simp
  have s2: "k_memcpy (?a @ drop (unat rest) dst) (unat rest) (rb_data r) 0 (unat len - unat rest) =
      Some (?a @ ?b @ drop (unat len) dst)"
    using lr la assms(3) off by (subst k_memcpy_eq) auto
  have m: "(unat offset + i) mod 2 ^ n = (off + i) mod 2 ^ n" for i
    by (simp add: off_def mod_add_left_eq)
  have "?a @ ?b = map (\<lambda>i. rb_data r ! ((unat offset + i) mod rb_size r)) [0..<unat len]"
    using wrapped_take [OF off, of "unat len"] assms(2) ur by (simp add: n(2) L m rb_size_def)
  with s1 s2 show ?thesis
    by (simp add: k_ringbuffer_read_with_offset_def Let_def rest_def [symmetric] n(4) off_def [symmetric] rl)
qed

text \<open>The position of the \<open>i\<close>-th byte from \<open>off\<close> decides which copy wrote it.\<close>

lemma wrapped_write:
  assumes "off < length d" "n \<le> length d" "n \<le> length src" "i < length d"
  defines "k \<equiv> min n (length d - off)"
  defines "d1 \<equiv> take off d @ take k src @ drop (off + k) d"
  defines "d2 \<equiv> take (n - k) (drop k src) @ drop (n - k) d1"
  shows "d2 ! ((off + i) mod length d) = (if i < n then src ! i else d ! ((off + i) mod length d))"
proof -
  have k: "k \<le> n" "off + k \<le> length d" "n - k \<le> off" using assms(1,2) by (auto simp: k_def)
  have l1: "length d1 = length d" using k assms(3) by (simp add: d1_def)
  show ?thesis
  proof (cases "off + i < length d")
    case True
    then have p: "(off + i) mod length d = off + i" by simp
    have "d2 ! (off + i) = d1 ! (off + i)"
      using k assms(1-4) l1 by (simp add: d2_def nth_append)
    also have "\<dots> = (if i < n then src ! i else d ! (off + i))"
      using k assms(1-4) True by (auto simp: d1_def nth_append min_def k_def)
    finally show ?thesis by (simp add: p)
  next
    case False
    then have p: "(off + i) mod length d = off + i - length d"
      using assms(1,4) by (subst le_mod_geq) auto
    show ?thesis
    proof (cases "i < n")
      case True
      then have "k = length d - off" using False by (simp add: k_def)
      then have "off + i - length d < n - k" "k + (off + i - length d) = i"
        using True False assms(1) by linarith+
      with True False k assms(1-4) show ?thesis by (simp add: p d2_def nth_append)
    next
      case ni: False
      have a: "n - k \<le> off + i - length d" using ni False by (auto simp: k_def)
      have b: "off + i - length d < off" using assms(1,4) False by simp
      have "length (take (n - k) (drop k src)) = n - k" using k(1) assms(3) by simp
      moreover have "n - k + (off + i - length d - (n - k)) = off + i - length d" using a by simp
      ultimately have "d2 ! (off + i - length d) = d1 ! (off + i - length d)"
        using a l1 k(3) assms(1) by (simp only: d2_def nth_append) simp
      also have "\<dots> = d ! (off + i - length d)"
        using b assms(1) by (simp add: d1_def nth_append)
      finally show ?thesis using ni by (simp add: p)
    qed
  qed
qed

lemma write_with_offset_eq:
  assumes "rb_valid r" "unat len \<le> rb_size r" "unat len \<le> length src"
  shows "\<exists>d. k_ringbuffer_write_with_offset r src len offset = Some (r\<lparr>rb_data := d\<rparr>) \<and>
    length d = rb_size r \<and>
    (\<forall>i < rb_size r. d ! ((unat offset + i) mod rb_size r) =
      (if i < unat len then src ! i else rb_data r ! ((unat offset + i) mod rb_size r)))"
proof -
  obtain n where n: "n < 32" "rb_size r = 2 ^ n" "unat (mask r) + 1 = 2 ^ n"
      "\<And>x. unat (x AND mask r) = unat x mod 2 ^ n"
      "\<And>x. unat (mask r + 1 - (x AND mask r)) = 2 ^ n - unat x mod 2 ^ n"
    using rb_valid_split [OF assms(1)] by metis
  define off where "off = unat offset mod 2 ^ n"
  define rest where "rest = K_MIN len (mask r + 1 - (offset AND mask r))"
  have L: "length (rb_data r) = 2 ^ n" using n(2) by (simp add: rb_size_def)
  have off: "off < length (rb_data r)" by (simp add: off_def L)
  have ur: "unat rest = min (unat len) (length (rb_data r) - off)"
    by (simp add: rest_def K_MIN_min min_u32 n(5) off_def L)
  have rl: "unat (len - rest) = unat len - unat rest"
    using ur by (intro unat_sub) (simp add: word_le_nat_alt)
  have lr: "unat rest \<le> unat len" "off + unat rest \<le> length (rb_data r)" "unat len - unat rest \<le> off"
    using ur off assms(2) by (auto simp: rb_size_def)
  let ?d1 = "take off (rb_data r) @ take (unat rest) src @ drop (off + unat rest) (rb_data r)"
  let ?d2 = "take (unat len - unat rest) (drop (unat rest) src) @ drop (unat len - unat rest) ?d1"
  have l1: "length ?d1 = length (rb_data r)" using lr assms(3) by simp
  have s1: "k_memcpy (rb_data r) off src 0 (unat rest) = Some ?d1"
    using lr assms(3) by (subst k_memcpy_eq) auto
  have "unat len - unat rest \<le> length ?d1" unfolding l1 using lr off by simp
  then have s2: "k_memcpy ?d1 0 src (unat rest) (unat len - unat rest) = Some ?d2"
    using lr assms(3) by (subst k_memcpy_eq) auto
  have l2: "length ?d2 = rb_size r"
    using l1 lr assms(3) off by (simp add: rb_size_def)
  have m: "(unat offset + i) mod rb_size r = (off + i) mod length (rb_data r)" for i
    by (simp add: off_def mod_add_left_eq n(2) L)
  have "?d2 ! ((off + i) mod length (rb_data r)) =
      (if i < unat len then src ! i else rb_data r ! ((off + i) mod length (rb_data r)))"
    if "i < rb_size r" for i
    using wrapped_write [OF off _ assms(3), of i] assms(2) that by (simp add: ur rb_size_def)
  moreover have "k_ringbuffer_write_with_offset r src len offset = Some (r\<lparr>rb_data := ?d2\<rparr>)"
    using s1 s2 by (simp add: k_ringbuffer_write_with_offset_def Let_def rest_def [symmetric] n(4)
        off_def [symmetric] rl del: take_append drop_append)
  ultimately show ?thesis
    unfolding m using l2 by blast
qed

lemma write_position:
  assumes "rb_valid r"
  shows "(unat (write_index r) + i) mod rb_size r =
    (unat (read_index r) + (unat (write_index r - read_index r) + i)) mod rb_size r"
proof -
  obtain n where n: "n < 32" "rb_size r = 2 ^ n" using rb_valid_split [OF assms] by metis
  have "unat (write_index r) mod rb_size r =
      (unat (read_index r) + unat (write_index r - read_index r)) mod rb_size r"
    using unat_add_mod_pow [OF n(1), of "read_index r" "write_index r - read_index r"] by (simp add: n(2))
  then show ?thesis by (metis add.assoc mod_add_left_eq)
qed

lemma rb_size_bound: "rb_valid r \<Longrightarrow> rb_size r < 4294967296"
  using power_strict_increasing [of _ 32 "2::nat"] by (auto simp: rb_valid_def)

lemma unused_eq:
  assumes "rb_valid r"
  shows "unat (k_ringbuffer_unused r) = rb_size r - length (rb_contents r)"
proof -
  have s: "unat (mask r + 1) = rb_size r" using rb_valid_split [OF assms] by metis
  moreover have "unat (write_index r - read_index r) \<le> rb_size r" using assms by (simp add: rb_valid_def)
  ultimately show ?thesis by (simp add: k_ringbuffer_unused_def unat_sub word_le_nat_alt)
qed

lemma k_ringbuffer_write_spec:
  assumes "rb_valid r" "unat len = length src"
  defines "k \<equiv> min (length src) (rb_size r - length (rb_contents r))"
  shows "\<exists>r'. k_ringbuffer_write r src len = Some (of_nat k, r') \<and> rb_valid r' \<and>
    rb_size r' = rb_size r \<and> rb_contents r' = rb_contents r @ take k src"
proof -
  define m where "m = (if len > k_ringbuffer_unused r then k_ringbuffer_unused r else len)"
  have m: "unat m = k"
    using unused_eq [OF assms(1)] assms(2) by (auto simp: m_def k_def word_less_nat_alt min_def)
  have used: "unat (write_index r - read_index r) \<le> rb_size r" using assms(1) by (simp add: rb_valid_def)
  have k: "k \<le> rb_size r - unat (write_index r - read_index r)" "k \<le> length src" by (simp_all add: k_def)
  obtain d where d: "k_ringbuffer_write_with_offset r src m (write_index r) = Some (r\<lparr>rb_data := d\<rparr>)"
      "length d = rb_size r" "\<And>i. i < rb_size r \<Longrightarrow> d ! ((unat (write_index r) + i) mod rb_size r) =
        (if i < k then src ! i else rb_data r ! ((unat (write_index r) + i) mod rb_size r))"
  proof -
    have "unat m \<le> rb_size r" "unat m \<le> length src" using m k by auto
    from write_with_offset_eq [OF assms(1) this, of "write_index r"] show thesis
      unfolding m using that by blast
  qed
  let ?r = "r\<lparr>rb_data := d, write_index := write_index r + m\<rparr>"
  have new: "unat (write_index r + m - read_index r) = unat (write_index r - read_index r) + k"
  proof -
    have "write_index r + m - read_index r = (write_index r - read_index r) + m" by simp
    moreover have "unat (write_index r - read_index r) + unat m < 4294967296"
      using used k(1) rb_size_bound [OF assms(1)] m by simp
    ultimately show ?thesis using m by (simp only: unat_word_ariths) simp
  qed
  have size: "rb_size ?r = rb_size r" using d(2) by (simp add: rb_size_def)
  have valid: "rb_valid ?r"
    using assms(1) size new used k(1) by (simp add: rb_valid_def)
  have "rb_contents ?r = rb_contents r @ take k src"
  proof (rule nth_equalityI)
    show "length (rb_contents ?r) = length (rb_contents r @ take k src)"
      using new k(2) by simp
    fix i assume "i < length (rb_contents ?r)"
    then have i: "i < unat (write_index r - read_index r) + k" using new by simp
    have lhs: "rb_contents ?r ! i = d ! ((unat (read_index r) + i) mod rb_size r)"
      using i new size by (simp add: rb_contents_def)
    show "rb_contents ?r ! i = (rb_contents r @ take k src) ! i"
    proof (cases "i < unat (write_index r - read_index r)")
      case True
      define j where "j = rb_size r - unat (write_index r - read_index r) + i"
      have j: "j < rb_size r" "\<not> j < k" using True used k(1) by (auto simp: j_def)
      have "unat (write_index r - read_index r) + j = rb_size r + i" using used by (simp add: j_def)
      then have "(unat (write_index r) + j) mod rb_size r = (unat (read_index r) + i) mod rb_size r"
        using write_position [OF assms(1), of j] by (simp add: add.left_commute)
      then show ?thesis
        using d(3) [OF j(1)] j(2) True lhs by (simp add: nth_append rb_contents_def)
    next
      case False
      define j where "j = i - unat (write_index r - read_index r)"
      have j: "j < k" "j < rb_size r" "unat (write_index r - read_index r) + j = i"
        using False i k(1) by (auto simp: j_def)
      then have "(unat (write_index r) + j) mod rb_size r = (unat (read_index r) + i) mod rb_size r"
        using write_position [OF assms(1), of j] by simp
      then show ?thesis
        using d(3) [OF j(2)] j(1) False lhs by (simp add: nth_append j_def)
    qed
  qed
  moreover have "k_ringbuffer_write r src len = Some (of_nat k, ?r)"
    using d(1) by (simp add: k_ringbuffer_write_def Let_def m_def [symmetric] flip: m)
  ultimately show ?thesis using valid size by blast
qed

lemma k_ringbuffer_read_spec:
  assumes "rb_valid r" "unat len \<le> length dst"
  defines "k \<equiv> min (unat len) (length (rb_contents r))"
  shows "\<exists>r'. k_ringbuffer_read r dst len = Some (of_nat k, take k (rb_contents r) @ drop k dst, r') \<and>
    rb_valid r' \<and> rb_size r' = rb_size r \<and> rb_contents r' = drop k (rb_contents r)"
proof -
  define m where "m = (if len > k_ringbuffer_used r then k_ringbuffer_used r else len)"
  have m: "unat m = k"
    by (auto simp: m_def k_def word_less_nat_alt min_def k_ringbuffer_used_def)
  have used: "unat (write_index r - read_index r) \<le> rb_size r" using assms(1) by (simp add: rb_valid_def)
  have k: "k \<le> unat (write_index r - read_index r)" "k \<le> length dst" using assms(2) by (simp_all add: k_def)
  let ?r = "r\<lparr>read_index := read_index r + m\<rparr>"
  have new: "unat (write_index r - (read_index r + m)) = unat (write_index r - read_index r) - k"
  proof -
    have "write_index r - (read_index r + m) = (write_index r - read_index r) - m" by simp
    moreover have "m \<le> write_index r - read_index r" using k(1) m by (simp add: word_le_nat_alt)
    ultimately show ?thesis using m by (simp only: unat_sub)
  qed
  have pos: "(unat (read_index r + m) + i) mod rb_size r = (unat (read_index r) + (k + i)) mod rb_size r" for i
  proof -
    obtain n where n: "n < 32" "rb_size r = 2 ^ n" using rb_valid_split [OF assms(1)] by metis
    have "unat (read_index r + m) mod rb_size r = (unat (read_index r) + k) mod rb_size r"
      using unat_add_mod_pow [OF n(1), of "read_index r" m] m by (simp add: n(2))
    then show ?thesis by (metis add.assoc mod_add_left_eq)
  qed
  have size: "rb_size ?r = rb_size r" by (simp add: rb_size_def)
  have valid: "rb_valid ?r" using assms(1) size new used by (simp add: rb_valid_def)
  have "rb_contents ?r = drop k (rb_contents r)"
  proof (rule nth_equalityI)
    show "length (rb_contents ?r) = length (drop k (rb_contents r))" using new by simp
    fix i assume "i < length (rb_contents ?r)"
    then have "k + i < unat (write_index r - read_index r)" "i < unat (write_index ?r - read_index ?r)"
      using new k(1) by simp_all
    then show "rb_contents ?r ! i = drop k (rb_contents r) ! i"
      using pos [of i] size by (simp add: rb_contents_nth nth_drop)
  qed
  moreover have "map (\<lambda>i. rb_data r ! ((unat (read_index r) + i) mod rb_size r)) [0..<k] = take k (rb_contents r)"
    using k(1) by (simp add: rb_contents_def take_map)
  then have "k_ringbuffer_read_with_offset r dst m (read_index r) = Some (take k (rb_contents r) @ drop k dst)"
    using read_with_offset_eq [OF assms(1), of m dst "read_index r"] m k used by simp
  then have "k_ringbuffer_read r dst len = Some (of_nat k, take k (rb_contents r) @ drop k dst, ?r)"
    by (simp add: k_ringbuffer_read_def Let_def m_def [symmetric] flip: m)
  ultimately show ?thesis using valid size by blast
qed

lemma k_ringbuffer_peek_newest_spec:
  assumes "rb_valid r" "unat len \<le> length dst"
  defines "k \<equiv> min (unat len) (length (rb_contents r))"
  shows "k_ringbuffer_peek_newest r dst len =
    Some (of_nat k, drop (length (rb_contents r) - k) (rb_contents r) @ drop k dst)"
proof -
  define m where "m = (if len > k_ringbuffer_used r then k_ringbuffer_used r else len)"
  have m: "unat m = k"
    by (auto simp: m_def k_def word_less_nat_alt min_def k_ringbuffer_used_def)
  have used: "unat (write_index r - read_index r) \<le> rb_size r" using assms(1) by (simp add: rb_valid_def)
  have k: "k \<le> unat (write_index r - read_index r)" "k \<le> length dst" using assms(2) by (simp_all add: k_def)
  define d where "d = write_index r - read_index r - m"
  have d: "unat d = unat (write_index r - read_index r) - k"
    using k(1) m by (simp add: d_def unat_sub word_le_nat_alt)
  have pos: "(unat (write_index r - m) + i) mod rb_size r =
      (unat (read_index r) + (unat (write_index r - read_index r) - k + i)) mod rb_size r" for i
  proof -
    obtain n where n: "n < 32" "rb_size r = 2 ^ n" using rb_valid_split [OF assms(1)] by metis
    have "write_index r - m = read_index r + d" by (simp add: d_def)
    then have "unat (write_index r - m) mod rb_size r = (unat (read_index r) + unat d) mod rb_size r"
      using unat_add_mod_pow [OF n(1), of "read_index r" d] by (simp add: n(2))
    then show ?thesis by (metis add.assoc mod_add_left_eq d)
  qed
  have "map (\<lambda>i. rb_data r ! ((unat (write_index r - m) + i) mod rb_size r)) [0..<k] =
      drop (length (rb_contents r) - k) (rb_contents r)"
  proof (rule nth_equalityI)
    show "length (map (\<lambda>i. rb_data r ! ((unat (write_index r - m) + i) mod rb_size r)) [0..<k]) =
        length (drop (length (rb_contents r) - k) (rb_contents r))"
      using k(1) by simp
    fix i assume "i < length (map (\<lambda>i. rb_data r ! ((unat (write_index r - m) + i) mod rb_size r)) [0..<k])"
    then have i: "i < k" by simp
    then have "unat (write_index r - read_index r) - k + i < unat (write_index r - read_index r)"
      using k(1) by linarith
    from rb_contents_nth [OF this]
    show "map (\<lambda>i. rb_data r ! ((unat (write_index r - m) + i) mod rb_size r)) [0..<k] ! i =
        drop (length (rb_contents r) - k) (rb_contents r) ! i"
      using i pos [of i] by simp
  qed
  then have "k_ringbuffer_read_with_offset r dst m (write_index r - m) =
      Some (drop (length (rb_contents r) - k) (rb_contents r) @ drop k dst)"
    using read_with_offset_eq [OF assms(1), of m dst "write_index r - m"] m k used by simp
  then show ?thesis
    by (simp add: k_ringbuffer_peek_newest_def Let_def m_def [symmetric] flip: m)
qed

lemma k_ringbuffer_initialise_spec:
  assumes "2 \<le> unat len" "K_IS_POWER_OF_TWO len" "length data = unat len"
  shows "\<exists>r. k_ringbuffer_initialise (Some data) len = Some r \<and> rb_valid r \<and>
    rb_size r = unat len \<and> rb_contents r = []"
proof -
  have l: "len \<ge> 2" "len \<noteq> 0" using assms(1) by (auto simp: word_le_nat_alt)
  then obtain n where n: "n < 32" "unat len = 2 ^ n"
    using K_IS_POWER_OF_TWO_unat assms(2) by blast
  have "unat (len - 1) + 1 = unat len" using l(2) assms(1) by (simp add: unat_minus_one)
  then show ?thesis
    using l n assms by (auto simp: k_ringbuffer_initialise_def rb_valid_def rb_size_def rb_contents_def)
qed

section \<open>The ring buffer as a provider of the queue interface\<close>

definition rb_put :: "u8 list \<Rightarrow> k_ringbuffer \<Rightarrow> (nat \<times> k_ringbuffer) option" where
  "rb_put src r = map_option (\<lambda>(k, r). (unat k, r)) (k_ringbuffer_write r src (of_nat (length src)))"

definition rb_get :: "nat \<Rightarrow> k_ringbuffer \<Rightarrow> (u8 list \<times> k_ringbuffer) option" where
  "rb_get n r = map_option (\<lambda>(k, dst, r). (take (unat k) dst, r))
     (k_ringbuffer_read r (replicate n 0) (of_nat n))"

interpretation rb: fifo rb_valid rb_contents rb_size rb_put rb_get
proof
  fix r :: k_ringbuffer and xs :: "u8 list" and n :: nat
  assume v: "rb_valid r"
  show "length (rb_contents r) \<le> rb_size r" using v by (simp add: rb_valid_def)
  have ofn: "unat (of_nat m :: u32) = m" if "m < 4294967296" for m
    using that by (simp add: unat_of_nat)
  show "\<exists>r'. rb_put xs r = Some (min (length xs) (rb_size r - length (rb_contents r)), r') \<and>
      rb_valid r' \<and> rb_size r' = rb_size r \<and>
      rb_contents r' = rb_contents r @ take (rb_size r - length (rb_contents r)) xs"
    if "length xs < 4294967296"
    using k_ringbuffer_write_spec [OF v ofn [OF that]] that by (auto simp: rb_put_def ofn min_def)
  show "\<exists>r'. rb_get n r = Some (take n (rb_contents r), r') \<and> rb_valid r' \<and>
      rb_size r' = rb_size r \<and> rb_contents r' = drop n (rb_contents r)" if "n < 4294967296"
    using k_ringbuffer_read_spec [OF v, of "of_nat n" "replicate n 0"] that
    by (auto simp: rb_get_def ofn min_def)
qed

section \<open>Properties\<close>

text \<open>C23. The ring buffer refines a bounded queue: in every history of block writes and reads on a
  valid buffer no call fails, and what was delivered followed by what the buffer still holds is what
  was accepted, in order; the indices may wrap around 32 bits on the way.\<close>

theorem ringbuffer_history:
  assumes "rb_valid r" "\<forall>c \<in> set cs. rb.call_ok c" "accepted = delivered @ rb_contents r"
  shows "\<exists>r' acc' del'. rb.run cs (r, accepted, delivered) = Some (r', acc', del') \<and> rb_valid r' \<and>
    rb_size r' = rb_size r \<and> acc' = del' @ rb_contents r'"
  by (rule rb.run_fifo [OF assms])

text \<open>A buffer of four bytes that holds two, with indices about to wrap.\<close>

definition example_buffer :: k_ringbuffer where
  "example_buffer = \<lparr>rb_data = [1, 2, 3, 4], mask = 3, read_index = 0xFFFFFFFE, write_index = 0\<rparr>"

lemma example_buffer_valid: "rb_valid example_buffer" "rb_contents example_buffer = [3, 4]"
proof -
  have s: "rb_size example_buffer = 2 ^ 2" by (simp add: example_buffer_def rb_size_def)
  then have "\<exists>n < 32. rb_size example_buffer = 2 ^ n" by (intro exI [of _ 2]) simp
  then show "rb_valid example_buffer" unfolding rb_valid_def s by (simp add: example_buffer_def)
  show "rb_contents example_buffer = [3, 4]"
    by (simp add: example_buffer_def rb_contents_def rb_size_def upt_rec)
qed

theorem ringbuffer_history_witness:
  "\<exists>r' acc' del'. rb.run [Put [5, 6, 7], Get 3] (example_buffer, [3, 4], []) = Some (r', acc', del') \<and> rb_valid r' \<and>
    rb_size r' = rb_size example_buffer \<and> acc' = del' @ rb_contents r'"
  by (rule ringbuffer_history [OF example_buffer_valid(1)]) (simp_all add: rb.call_ok_def example_buffer_valid)

text \<open>A block that fits comes back unchanged: after writing it, a read of everything returns the
  old contents followed by the block and leaves the buffer empty.\<close>

theorem ringbuffer_round_trip:
  assumes "rb_valid r" "unat len = length src" "length (rb_contents r) + length src \<le> rb_size r"
    and "length dst = length (rb_contents r) + length src"
  shows "\<exists>r1 r2. k_ringbuffer_write r src len = Some (len, r1) \<and>
    k_ringbuffer_read r1 dst (of_nat (length dst)) = Some (of_nat (length dst), rb_contents r @ src, r2) \<and>
    k_ringbuffer_empty r2 \<and> rb_valid r2"
proof -
  have k: "min (length src) (rb_size r - length (rb_contents r)) = length src" using assms(3) by simp
  obtain r1 where r1: "k_ringbuffer_write r src len = Some (of_nat (length src), r1)" "rb_valid r1"
      "rb_size r1 = rb_size r" "rb_contents r1 = rb_contents r @ src"
    using k_ringbuffer_write_spec [OF assms(1,2)] unfolding k by auto
  have "length dst < 4294967296"
    using rb_size_bound [OF assms(1)] assms(3,4) by (simp del: length_rb_contents)
  then have u: "unat (of_nat (length dst) :: u32) = length dst" by (simp add: unat_of_nat)
  have c: "length (rb_contents r1) = length dst" using assms(4) by (simp add: r1(4) del: length_rb_contents)
  obtain r2 where r2: "k_ringbuffer_read r1 dst (of_nat (length dst)) = Some (of_nat (length dst), rb_contents r @ src, r2)"
      "rb_valid r2" "rb_contents r2 = []"
    using k_ringbuffer_read_spec [OF r1(2), of "of_nat (length dst)" dst] assms(4)
    unfolding u c r1(4) by (auto simp del: length_rb_contents)
  have "len = of_nat (length src)" using assms(2) by (metis of_nat_unat ucast_id)
  moreover have "k_ringbuffer_empty r2"
    using arg_cong [OF r2(3), of length] by (simp add: k_ringbuffer_empty_def k_ringbuffer_used_def unat_eq_0)
  ultimately show ?thesis using r1(1) r2(1,2) by auto
qed

theorem ringbuffer_round_trip_witness:
  "\<exists>r1 r2. k_ringbuffer_write example_buffer [9, 8] 2 = Some (2, r1) \<and>
    k_ringbuffer_read r1 [0, 0, 0, 0] (of_nat (length [0, 0, 0, 0 :: u8])) =
      Some (of_nat (length [0, 0, 0, 0 :: u8]), rb_contents example_buffer @ [9, 8], r2) \<and>
    k_ringbuffer_empty r2 \<and> rb_valid r2"
  by (rule ringbuffer_round_trip [OF example_buffer_valid(1)])
    (simp_all only: example_buffer_valid, simp_all add: example_buffer_def rb_size_def)

end
