(* ===== verification/Pl001.thy ===== *)
theory Pl001
  imports Kringbuffer Machine
begin

text \<open>
  \<^verbatim>\<open>arch/bsp/pl001.c\<close>: the serial port. Received characters are cached in a ring buffer of
  \<open>UART_INPUT_BUFFER_SIZE\<close> bytes until a thread reads them; sending waits for the device. The
  state is the cache and the device registers.
\<close>

section \<open>Definitions\<close>

datatype register_offsets = DR | FR | IBRD | FBRD | LCRH | CR | IFLS | IMSC | RIS | MIS | ICR
  | DMACR | ITCR | ITIP | ITOP | TDR

fun register_offset :: "register_offsets \<Rightarrow> u32" where
  "register_offset DR = 0x0"
| "register_offset FR = 0x18"
| "register_offset IBRD = 0x24"
| "register_offset FBRD = 0x28"
| "register_offset LCRH = 0x2c"
| "register_offset CR = 0x30"
| "register_offset IFLS = 0x34"
| "register_offset IMSC = 0x38"
| "register_offset RIS = 0x3c"
| "register_offset MIS = 0x40"
| "register_offset ICR = 0x44"
| "register_offset DMACR = 0x48"
| "register_offset ITCR = 0x80"
| "register_offset ITIP = 0x84"
| "register_offset ITOP = 0x88"
| "register_offset TDR = 0x8c"

definition UART_BASE :: u32 where "UART_BASE = 0x7E201000 - 0x3F000000"
definition TXFF :: u32 where "TXFF = push_bit 5 1"
definition RXIM :: u32 where "RXIM = push_bit 4 1"
definition UART_INPUT_BUFFER_SIZE :: nat where "UART_INPUT_BUFFER_SIZE = 128"

definition pl001_register :: "register_offsets \<Rightarrow> u32" where
  "pl001_register offset = UART_BASE + register_offset offset"

text \<open>\<open>buffer\<close> is the static array behind the cache.\<close>

definition pl001_setup :: "env \<Rightarrow> u8 list \<Rightarrow> io \<Rightarrow> (k_ringbuffer \<times> io) option" where
  "pl001_setup e buffer d = do {
     cache \<leftarrow> k_ringbuffer_initialise (Some buffer) (of_nat UART_INPUT_BUFFER_SIZE);
     let (v, d) = volatile_read e (pl001_register IMSC) d;
     Some (cache, volatile_write (pl001_register IMSC) (v OR RXIM) d)
   }"

definition pl001_receive :: "env \<Rightarrow> k_ringbuffer \<Rightarrow> io \<Rightarrow> (k_ringbuffer \<times> io) option" where
  "pl001_receive e cache d = do {
     let (v, d) = volatile_read e (pl001_register DR) d;
     let ch = (ucast v :: u8);
     (n, cache) \<leftarrow> k_ringbuffer_write cache [ch] 1;
     Some (cache, d)
   }"

definition pl001_has_unread_character :: "k_ringbuffer \<Rightarrow> bool" where
  "pl001_has_unread_character cache \<longleftrightarrow> \<not> k_ringbuffer_empty cache"

text \<open>\<open>[0]\<close> is the local variable \<open>ch\<close>, which both functions return only after it was written.\<close>

definition pl001_peek_newest :: "k_ringbuffer \<Rightarrow> u8 option" where
  "pl001_peek_newest cache = do {
     (n, ch) \<leftarrow> k_ringbuffer_peek_newest cache [0] 1;
     verify (n = 1);
     Some (ch ! 0)
   }"

definition pl001_read :: "k_ringbuffer \<Rightarrow> (u8 \<times> k_ringbuffer) option" where
  "pl001_read cache = do {
     (n, ch, cache) \<leftarrow> k_ringbuffer_read cache [0] 1;
     verify (n = 1);
     Some (ch ! 0, cache)
   }"

partial_function (option) pl001_send :: "env \<Rightarrow> u8 \<Rightarrow> io \<Rightarrow> io option" where
  "pl001_send e ch d =
     (let (v, d) = volatile_read e (pl001_register FR) d
      in if v AND TXFF \<noteq> 0 then pl001_send e ch d
         else Some (volatile_write (pl001_register DR) (ucast ch) d))"

declare pl001_send.simps [code]

section \<open>Receiving and reading\<close>

lemma pl001_receive_spec:
  assumes "rb_valid cache"
  shows "\<exists>cache'. pl001_receive e cache d = Some (cache', d\<lparr>reads := Suc (reads d)\<rparr>) \<and>
    rb_valid cache' \<and> rb_size cache' = rb_size cache \<and>
    rb_contents cache' = (if length (rb_contents cache) < rb_size cache
      then rb_contents cache @ [ucast (volatile e (reads d) (pl001_register DR))]
      else rb_contents cache)"
  using rb.put_one [OF assms, of "ucast (volatile e (reads d) (pl001_register DR))"]
  by (auto simp: rb_put_def pl001_receive_def volatile_read_def)

lemma has_unread_iff: "pl001_has_unread_character cache \<longleftrightarrow> rb_contents cache \<noteq> []"
  by (simp add: pl001_has_unread_character_def k_ringbuffer_empty_def k_ringbuffer_used_def
      unat_eq_0 flip: length_0_conv)

lemma pl001_read_spec:
  assumes "rb_valid cache" "rb_contents cache = ch # chs"
  shows "\<exists>cache'. pl001_read cache = Some (ch, cache') \<and> rb_valid cache' \<and>
    rb_size cache' = rb_size cache \<and> rb_contents cache' = chs"
proof -
  have "min (unat (1 :: u32)) (length (rb_contents cache)) = 1" using assms(2) by simp
  then show ?thesis
    using k_ringbuffer_read_spec [OF assms(1), of 1 "[0]"] assms(2)
    by (auto simp: pl001_read_def simp del: length_rb_contents)
qed

text \<open>Any interleaving of receive interrupts and reads (a thread that waits reads when there is
  something to read). The run records what was cached and what was handed out.\<close>

datatype uart_event = Receive | Fetch

primrec uart_run ::
  "env \<Rightarrow> uart_event list \<Rightarrow> k_ringbuffer \<times> io \<times> u8 list \<times> u8 list \<Rightarrow> (k_ringbuffer \<times> io \<times> u8 list \<times> u8 list) option"
where
  "uart_run e [] s = Some s"
| "uart_run e (v # vs) s =
     (case s of (cache, d, cached, fetched) \<Rightarrow>
        (case v of
           Receive \<Rightarrow> do {
             let ch = (ucast (volatile e (reads d) (pl001_register DR)) :: u8);
             let dropped = k_ringbuffer_full cache;
             (cache, d) \<leftarrow> pl001_receive e cache d;
             uart_run e vs (cache, d, if dropped then cached else cached @ [ch], fetched)
           }
         | Fetch \<Rightarrow>
             if pl001_has_unread_character cache
             then do {
               (ch, cache) \<leftarrow> pl001_read cache;
               uart_run e vs (cache, d, cached, fetched @ [ch])
             }
             else uart_run e vs s))"

lemma full_iff: "rb_valid r \<Longrightarrow> k_ringbuffer_full r \<longleftrightarrow> length (rb_contents r) = rb_size r"
  using unused_eq [of r] unsigned_0 [where 'a = nat]
  by (auto simp: k_ringbuffer_full_def rb_valid_def unat_eq_0 [symmetric])

lemma uart_run_fifo:
  assumes "rb_valid cache" "cached = fetched @ rb_contents cache"
  shows "\<exists>cache' d' cached' fetched'.
    uart_run e vs (cache, d, cached, fetched) = Some (cache', d', cached', fetched') \<and>
    rb_valid cache' \<and> rb_size cache' = rb_size cache \<and> cached' = fetched' @ rb_contents cache'"
  using assms
proof (induction vs arbitrary: cache d cached fetched)
  case (Cons v vs)
  show ?case
  proof (cases v)
    case Receive
    let ?ch = "ucast (volatile e (reads d) (pl001_register DR)) :: u8"
    obtain c where c: "pl001_receive e cache d = Some (c, d\<lparr>reads := Suc (reads d)\<rparr>)"
        "rb_valid c" "rb_size c = rb_size cache"
        "rb_contents c = (if length (rb_contents cache) < rb_size cache
           then rb_contents cache @ [?ch] else rb_contents cache)"
      using pl001_receive_spec [OF Cons.prems(1)] by blast
    have "length (rb_contents cache) \<le> rb_size cache" using Cons.prems(1) by (rule rb.bounded)
    then have "(if k_ringbuffer_full cache then cached else cached @ [?ch]) = fetched @ rb_contents c"
      using Cons.prems c(4) by (auto simp: full_iff simp del: length_rb_contents)
    from Cons.IH [OF c(2) this] c(1,3) Receive show ?thesis by simp
  next
    case Fetch
    show ?thesis
    proof (cases "rb_contents cache")
      case Nil
      from Cons.IH [OF Cons.prems] Nil Fetch show ?thesis by (simp add: has_unread_iff)
    next
      case (Cons ch chs)
      with pl001_read_spec [OF Cons.prems(1)] obtain c where
        c: "pl001_read cache = Some (ch, c)" "rb_valid c" "rb_size c = rb_size cache" "rb_contents c = chs"
        by blast
      have "cached = (fetched @ [ch]) @ rb_contents c" using Cons.prems(2) Cons c(4) by simp
      from Cons.IH [OF c(2) this] c(1,3) Fetch Cons show ?thesis by (simp add: has_unread_iff)
    qed
  qed
qed simp

lemma pl001_setup_spec:
  assumes "length buffer = UART_INPUT_BUFFER_SIZE"
  shows "\<exists>cache d'. pl001_setup e buffer d = Some (cache, d') \<and> rb_valid cache \<and>
    rb_size cache = 128 \<and> rb_contents cache = [] \<and> reads d' = Suc (reads d) \<and>
    writes d' = writes d @ [(pl001_register IMSC, volatile e (reads d) (pl001_register IMSC) OR RXIM)]"
proof -
  have "K_IS_POWER_OF_TWO 128" by (simp add: K_IS_POWER_OF_TWO_def)
  then show ?thesis
    using k_ringbuffer_initialise_spec [of 128 buffer] assms
    by (auto simp: pl001_setup_def UART_INPUT_BUFFER_SIZE_def volatile_read_def volatile_write_def)
qed

section \<open>Sending\<close>

lemma pl001_send_unfold:
  "pl001_send e ch d =
    (if volatile e (reads d) (pl001_register FR) AND TXFF \<noteq> 0
     then pl001_send e ch (d\<lparr>reads := Suc (reads d)\<rparr>)
     else Some (d\<lparr>reads := Suc (reads d), writes := writes d @ [(pl001_register DR, ucast ch)]\<rparr>))"
  by (subst pl001_send.simps) (simp add: volatile_read_def volatile_write_def)

lemma pl001_send_ready:
  assumes "volatile e (reads d + k) (pl001_register FR) AND TXFF = 0"
    and "\<And>i. i < k \<Longrightarrow> volatile e (reads d + i) (pl001_register FR) AND TXFF \<noteq> 0"
  shows "pl001_send e ch d =
    Some (d\<lparr>reads := reads d + Suc k, writes := writes d @ [(pl001_register DR, ucast ch)]\<rparr>)"
  using assms
proof (induction k arbitrary: d)
  case 0
  then show ?case by (subst pl001_send_unfold) simp
next
  case (Suc k)
  let ?d = "d\<lparr>reads := Suc (reads d)\<rparr>"
  have "pl001_send e ch ?d =
      Some (?d\<lparr>reads := reads ?d + Suc k, writes := writes ?d @ [(pl001_register DR, ucast ch)]\<rparr>)"
    using Suc.prems(1) Suc.prems(2) [of "Suc _"] by (intro Suc.IH) simp_all
  moreover have "volatile e (reads d) (pl001_register FR) AND TXFF \<noteq> 0"
    using Suc.prems(2) [of 0] by simp
  ultimately show ?case by (subst pl001_send_unfold) simp
qed

text \<open>Without a read that finds room the loop does not end.\<close>

lemma pl001_send_returns:
  "pl001_send e ch d = Some y \<Longrightarrow> \<exists>i. volatile e (reads d + i) (pl001_register FR) AND TXFF = 0"
proof (rule pl001_send.raw_induct [of "\<lambda>e ch d y. \<exists>i. volatile e (reads d + i) (pl001_register FR) AND TXFF = 0"])
  fix send e ch d y
  assume IH: "\<And>e ch d y. send e ch d = Some y \<Longrightarrow> \<exists>i. volatile e (reads d + i) (pl001_register FR) AND TXFF = 0"
    and step: "(let (v, d) = volatile_read e (pl001_register FR) d
      in if v AND TXFF \<noteq> 0 then send e ch d
         else Some (volatile_write (pl001_register DR) (ucast ch) d)) = Some y"
  show "\<exists>i. volatile e (reads d + i) (pl001_register FR) AND TXFF = 0"
  proof (cases "volatile e (reads d) (pl001_register FR) AND TXFF = 0")
    case True
    then show ?thesis by (intro exI [of _ 0]) simp
  next
    case False
    then have "send e ch (d\<lparr>reads := Suc (reads d)\<rparr>) = Some y"
      using step by (simp add: volatile_read_def)
    from IH [OF this] obtain i where
      "volatile e (reads d + Suc i) (pl001_register FR) AND TXFF = 0" by auto
    then show ?thesis by blast
  qed
qed

text \<open>So sending ends exactly when the device has room at some later read, and it then has
  written the character once.\<close>

lemma pl001_send_iff:
  "(\<exists>d'. pl001_send e ch d = Some d') \<longleftrightarrow>
    (\<exists>i. volatile e (reads d + i) (pl001_register FR) AND TXFF = 0)"
proof
  assume "\<exists>d'. pl001_send e ch d = Some d'"
  then show "\<exists>i. volatile e (reads d + i) (pl001_register FR) AND TXFF = 0"
    using pl001_send_returns by blast
next
  let ?P = "\<lambda>i. volatile e (reads d + i) (pl001_register FR) AND TXFF = 0"
  assume "\<exists>i. ?P i"
  then have "?P (LEAST i. ?P i)" and "i < (LEAST i. ?P i) \<Longrightarrow> \<not> ?P i" for i
    by (auto intro: LeastI_ex dest: not_less_Least)
  then show "\<exists>d'. pl001_send e ch d = Some d'"
    using pl001_send_ready by blast
qed

lemma pl001_send_writes:
  assumes "pl001_send e ch d = Some d'"
  shows "writes d' = writes d @ [(pl001_register DR, ucast ch)] \<and> reads d < reads d'"
proof -
  let ?P = "\<lambda>i. volatile e (reads d + i) (pl001_register FR) AND TXFF = 0"
  have "\<exists>i. ?P i" using assms pl001_send_iff by blast
  then have "?P (LEAST i. ?P i)" and "i < (LEAST i. ?P i) \<Longrightarrow> \<not> ?P i" for i
    by (auto intro: LeastI_ex dest: not_less_Least)
  from pl001_send_ready [OF this, of ch] assms show ?thesis by auto
qed

section \<open>Properties\<close>

text \<open>C29. Input is a queue: for every sequence of receive interrupts and reads, starting with an empty
  cache, no call fails, and what the readers got followed by what is still cached is exactly what was
  received while the cache had room, in the order of arrival.\<close>

theorem serial_input_queue:
  assumes "rb_valid cache" "rb_contents cache = []"
  shows "\<exists>cache' d' cached fetched. uart_run e vs (cache, d, [], []) = Some (cache', d', cached, fetched) \<and>
    rb_valid cache' \<and> rb_size cache' = rb_size cache \<and> cached = fetched @ rb_contents cache'"
  using uart_run_fifo [OF assms(1), of "[]" "[]" e vs d] assms(2) by simp

definition one_byte_buffer :: k_ringbuffer where
  "one_byte_buffer = \<lparr>rb_data = [0], mask = 0, read_index = 0xFFFFFFFF, write_index = 0xFFFFFFFF\<rparr>"

lemma one_byte_buffer_valid: "rb_valid one_byte_buffer" "rb_contents one_byte_buffer = []"
proof -
  have s: "rb_size one_byte_buffer = 2 ^ 0" by (simp add: one_byte_buffer_def rb_size_def)
  then have "\<exists>n < 32. rb_size one_byte_buffer = 2 ^ n" by (intro exI [of _ 0]) simp
  then show "rb_valid one_byte_buffer" unfolding rb_valid_def s by (simp add: one_byte_buffer_def)
  show "rb_contents one_byte_buffer = []" by (simp add: one_byte_buffer_def rb_contents_def)
qed

theorem serial_input_queue_witness:
  "\<forall>e d. \<exists>cache' d' cached fetched. uart_run e [Receive, Receive, Fetch, Receive] (one_byte_buffer, d, [], []) =
      Some (cache', d', cached, fetched) \<and> rb_valid cache' \<and> rb_size cache' = rb_size one_byte_buffer \<and>
    cached = fetched @ rb_contents cache'"
  by (intro allI serial_input_queue [OF one_byte_buffer_valid])

text \<open>C30. Sending polls the flag register until it reads a value without \<open>TXFF\<close> and then writes the
  character once; it returns if and only if such a value is read at some time.\<close>

theorem pl001_send_result:
  "pl001_send e ch d =
    (if \<exists>i. volatile e (reads d + i) (pl001_register FR) AND TXFF = 0
     then Some (d\<lparr>reads := reads d + Suc (LEAST i. volatile e (reads d + i) (pl001_register FR) AND TXFF = 0),
       writes := writes d @ [(pl001_register DR, ucast ch)]\<rparr>)
     else None)"
proof (cases "\<exists>i. volatile e (reads d + i) (pl001_register FR) AND TXFF = 0")
  case True
  let ?P = "\<lambda>i. volatile e (reads d + i) (pl001_register FR) AND TXFF = 0"
  from True have "?P (LEAST i. ?P i)" and "i < (LEAST i. ?P i) \<Longrightarrow> \<not> ?P i" for i
    by (auto intro: LeastI_ex dest: not_less_Least)
  from pl001_send_ready [OF this, of ch] True show ?thesis by simp
next
  case False
  then have "pl001_send e ch d = None" using pl001_send_returns [of e ch d] by (cases "pl001_send e ch d") auto
  with False show ?thesis by simp
qed

end
