(* ===== verification/Scheduler.thy ===== *)
theory Scheduler
  imports Intrusive_List Systimer Mmu Pl001
begin

text \<open>
  \<^verbatim>\<open>kernel/scheduler.c\<close>: the thread control blocks, the lists that hold them, creation and end
  of threads, waiting for input or for the timer, and the round robin with its context switch.

  The state \<open>kernel\<close> is the scheduler's static variables together with what its functions reach
  through pointers: the heap of list nodes, the exception frame (\<^verbatim>\<open>registers *\<close> of every handler
  points to it), the banked registers, memory, the device registers and the cache of the
  serial port. A thread is named by its
  index in \<open>blocks\<close>; \<open>Scheduler_node t\<close> and \<open>Addrspace_node t\<close> are the addresses of the two
  nodes inside its control block, so that \<^verbatim>\<open>container_of\<close> is a function on addresses. Log output
  is left out.
\<close>

section \<open>State\<close>

datatype naddr =
    Ready_list | Stall_waiting_list | Input_waiting_list | Running_list | Finished_list
  | Address_space nat
  | Scheduler_node nat
  | Addrspace_node nat

definition USER_THREAD_COUNT :: nat where "USER_THREAD_COUNT = 32"
definition THREAD_COUNT :: nat where "THREAD_COUNT = USER_THREAD_COUNT + 1"
definition IDLE_THREAD_INDEX :: nat where "IDLE_THREAD_INDEX = USER_THREAD_COUNT"
definition ADDRESS_SPACE_COUNT :: nat where "ADDRESS_SPACE_COUNT = 8"
definition THREADS_PER_ADDRESS_SPACE :: nat where "THREADS_PER_ADDRESS_SPACE = 4"

lemmas thread_count_defs = USER_THREAD_COUNT_def THREAD_COUNT_def IDLE_THREAD_INDEX_def
  ADDRESS_SPACE_COUNT_def THREADS_PER_ADDRESS_SPACE_def

record tcb =
  regs :: registers
  cpsr :: u32
  pid :: nat
  pid_slot :: nat
  tid :: nat
  stack_handle :: l2_handle
  stall_until :: u32

datatype scheduling_type = normal | forced

text \<open>
  \<open>process_stack_handles\<close> is declared with 8 rows. Rows from 8 on stand for the memory behind the
  array: no operation writes them and nothing is assumed about them.
\<close>

record kernel =
  nodes :: "naddr heap"
  blocks :: "nat \<Rightarrow> tcb"
  process_stack_handles :: "nat \<Rightarrow> nat \<Rightarrow> l2_handle"
  slots_used :: "nat \<Rightarrow> nat \<Rightarrow> bool"
  l1_table :: "nat \<Rightarrow> l1_entry"
  mem :: "u32 \<Rightarrow> u8"
  frame :: registers
  cpu_regs :: cpu
  io_regs :: io
  cache :: k_ringbuffer

fun tcb_of_scheduler_node :: "naddr ptr \<Rightarrow> nat option" where
  "tcb_of_scheduler_node (Some (Scheduler_node t)) = Some t"
| "tcb_of_scheduler_node _ = None"

definition set_thread :: "nat \<Rightarrow> (tcb \<Rightarrow> tcb) \<Rightarrow> kernel \<Rightarrow> kernel" where
  "set_thread t f s = s\<lparr>blocks := (blocks s)(t := f (blocks s t))\<rparr>"

definition on_nodes :: "(naddr heap \<Rightarrow> naddr heap option) \<Rightarrow> kernel \<Rightarrow> kernel option" where
  "on_nodes f s = map_option (\<lambda>h. s\<lparr>nodes := h\<rparr>) (f (nodes s))"

section \<open>Lookups\<close>

definition scheduler_get_address_space_list :: "nat \<Rightarrow> naddr ptr option" where
  "scheduler_get_address_space_list address_space = do {
     verify (address_space < ADDRESS_SPACE_COUNT);
     Some (Some (Address_space address_space))
   }"

text \<open>Both searches return the index, or \<open>None\<close> for \<^verbatim>\<open>false\<close>.\<close>

function find_first_empty_address_space_from :: "nat \<Rightarrow> kernel \<Rightarrow> nat option option" where
  "find_first_empty_address_space_from i s =
     (if i < ADDRESS_SPACE_COUNT
      then do {
        e \<leftarrow> k_is_list_empty (nodes s) (Some (Address_space i));
        if e then Some (Some i) else find_first_empty_address_space_from (Suc i) s
      }
      else Some None)"
  by pat_completeness auto
termination
  by (relation "measure (\<lambda>(i, s). ADDRESS_SPACE_COUNT - i)") auto

declare find_first_empty_address_space_from.simps [simp del]

definition scheduler_find_first_empty_address_space :: "kernel \<Rightarrow> nat option option" where
  "scheduler_find_first_empty_address_space s = find_first_empty_address_space_from 0 s"

function find_first_empty_slot_from :: "nat \<Rightarrow> nat \<Rightarrow> kernel \<Rightarrow> nat option" where
  "find_first_empty_slot_from address_space i s =
     (if i < THREADS_PER_ADDRESS_SPACE
      then if \<not> slots_used s address_space i then Some i
           else find_first_empty_slot_from address_space (Suc i) s
      else None)"
  by pat_completeness auto
termination
  by (relation "measure (\<lambda>(address_space, i, s). THREADS_PER_ADDRESS_SPACE - i)") auto

declare find_first_empty_slot_from.simps [simp del]

definition scheduler_find_first_empty_slot_in_address_space :: "nat \<Rightarrow> kernel \<Rightarrow> nat option" where
  "scheduler_find_first_empty_slot_in_address_space address_space s =
     find_first_empty_slot_from address_space 0 s"

definition scheduler_get_idle_thread :: nat where
  "scheduler_get_idle_thread = IDLE_THREAD_INDEX"

definition scheduler_get_running_thread :: "kernel \<Rightarrow> nat option" where
  "scheduler_get_running_thread s = do {
     e \<leftarrow> k_is_list_empty (nodes s) (Some Running_list);
     verify (\<not> e);
     f \<leftarrow> k_get_first_node (nodes s) (Some Running_list);
     tcb_of_scheduler_node f
   }"

section \<open>Creating and ending threads\<close>

text \<open>\<open>k_transfer_to_back\<close> is the pattern that ends most functions: to the head of an empty list,
  else behind its last node.\<close>

definition copy_to :: "env \<Rightarrow> u32 \<Rightarrow> u32 \<Rightarrow> u32 \<Rightarrow> kernel \<Rightarrow> kernel option" where
  "copy_to e dst src n s = do {
     m \<leftarrow> k_memcpy_mem (translate e (l1_table s)) dst src n (mem s);
     Some (s\<lparr>mem := m\<rparr>)
   }"

definition scheduler_create_process :: "env \<Rightarrow> nat \<Rightarrow> u32 \<Rightarrow> u32 \<Rightarrow> u32 \<Rightarrow> kernel \<Rightarrow> kernel option" where
  "scheduler_create_process e address_space func args args_size s = do {
     b \<leftarrow> k_is_list_empty (nodes s) (Some Finished_list);
     verify (\<not> b);
     let kernel_wmap = UBSS_UDATA_SECTION_START_ADDRESS + (of_nat address_space + 1) * MiB;
     let kernel_rmap = UBSS_UDATA_KERNEL_ORIGINAL_MAP_START_ADDRESS;
     s \<leftarrow> copy_to e kernel_wmap kernel_rmap (1 * MiB) s;
     tnode \<leftarrow> k_get_first_node (nodes s) (Some Finished_list);
     thread \<leftarrow> tcb_of_scheduler_node tnode;
     l \<leftarrow> scheduler_get_address_space_list address_space;
     s \<leftarrow> on_nodes (k_append_node_to_list l (Some (Addrspace_node thread))) s;
     let s = s\<lparr>process_stack_handles := (process_stack_handles s)(address_space :=
            (process_stack_handles s address_space)(0 := stack_handle (blocks s thread))),
          slots_used := (slots_used s)(address_space := (slots_used s address_space)(0 := True))\<rparr>;
     size \<leftarrow> k_align8 args_size;
     let stack = VIRTUAL_PROCESS_STACKS_TOP_ADDRESS - size;
     let s = set_thread thread (\<lambda>t. t\<lparr>pid := address_space, pid_slot := 0, cpsr := psr_mode_user,
          regs := (regs t)\<lparr>sp := stack, general := (general (regs t))(0 := stack),
            lr := sys_exit_thread e, pc := func\<rparr>\<rparr>) s;
     let real_sp = USER_STACK_KERNEL_ONLY_MAPPING_START_ADDRESS +
          (of_nat (tid (blocks s thread)) + 1) * MiB - size;
     s \<leftarrow> copy_to e real_sp args args_size s;
     on_nodes (k_transfer_to_back (Some Finished_list) (Some Ready_list) tnode) s
   }"

definition scheduler_create_thread :: "env \<Rightarrow> nat \<Rightarrow> nat \<Rightarrow> u32 \<Rightarrow> u32 \<Rightarrow> u32 \<Rightarrow> kernel \<Rightarrow> kernel option" where
  "scheduler_create_thread e caller process_slot func args args_size s = do {
     b \<leftarrow> k_is_list_empty (nodes s) (Some Finished_list);
     verify (\<not> b);
     tnode \<leftarrow> k_get_first_node (nodes s) (Some Finished_list);
     thread \<leftarrow> tcb_of_scheduler_node tnode;
     l \<leftarrow> scheduler_get_address_space_list (pid (blocks s caller));
     s \<leftarrow> on_nodes (k_append_node_to_list l (Some (Addrspace_node thread))) s;
     let p = pid (blocks s caller);
     let s = s\<lparr>process_stack_handles := (process_stack_handles s)(p :=
            (process_stack_handles s p)(process_slot := stack_handle (blocks s thread))),
          slots_used := (slots_used s)(p := (slots_used s p)(process_slot := True))\<rparr>;
     size \<leftarrow> k_align8 args_size;
     let stack = VIRTUAL_PROCESS_STACKS_TOP_ADDRESS - of_nat process_slot * STACK_SIZE - size;
     let s = set_thread thread (\<lambda>t. t\<lparr>pid := p, pid_slot := process_slot, cpsr := psr_mode_user,
          regs := (regs t)\<lparr>sp := stack, general := (general (regs t))(0 := stack),
            lr := sys_exit_thread e, pc := func\<rparr>\<rparr>) s;
     let real_sp = USER_STACK_KERNEL_ONLY_MAPPING_START_ADDRESS +
          (of_nat (tid (blocks s thread)) + 1) * MiB - size;
     s \<leftarrow> copy_to e real_sp args args_size s;
     on_nodes (k_transfer_to_back (Some Finished_list) (Some Ready_list) tnode) s
   }"

definition scheduler_cleanup_thread :: "kernel \<Rightarrow> kernel option" where
  "scheduler_cleanup_thread s = do {
     me \<leftarrow> k_get_first_node (nodes s) (Some Running_list);
     thread \<leftarrow> tcb_of_scheduler_node me;
     let p = pid (blocks s thread);
     let s = s\<lparr>slots_used := (slots_used s)(p := (slots_used s p)(pid_slot (blocks s thread) := False))\<rparr>;
     l \<leftarrow> scheduler_get_address_space_list p;
     s \<leftarrow> on_nodes (k_remove_node_from_list l (Some (Addrspace_node thread))) s;
     on_nodes (k_transfer_list_node (Some Running_list) (Some Finished_list) me) s
   }"

section \<open>Initialisation\<close>

definition scheduler_initialise_idle_thread_context :: "env \<Rightarrow> kernel \<Rightarrow> kernel" where
  "scheduler_initialise_idle_thread_context e s =
     set_thread IDLE_THREAD_INDEX (\<lambda>t. t\<lparr>pid := ADDRESS_SPACE_COUNT, tid := IDLE_THREAD_INDEX,
       cpsr := psr_mode_system,
       regs := (regs t)\<lparr>sp := IDLE_THREAD_SP, lr := halt_cpu e, pc := halt_cpu e\<rparr>\<rparr>) s"

definition scheduler_initialise_block :: "env \<Rightarrow> nat \<Rightarrow> kernel \<Rightarrow> kernel option" where
  "scheduler_initialise_block e i s = do {
     p \<leftarrow> k_modulo_sub (of_nat i) 1 0 (of_nat USER_THREAD_COUNT);
     n \<leftarrow> k_modulo_add (of_nat i) 1 0 (of_nat USER_THREAD_COUNT);
     let s = s\<lparr>nodes := (nodes s)(
          Scheduler_node i := \<lparr>previous = Some (Scheduler_node (unat p)), nxt = Some (Scheduler_node (unat n))\<rparr>,
          Addrspace_node i := \<lparr>previous = Some (Addrspace_node i), nxt = Some (Addrspace_node i)\<rparr>)\<rparr>;
     handle \<leftarrow> get_nth_stack_handle e i;
     Some (set_thread i (\<lambda>t. t\<lparr>tid := i, stack_handle := handle\<rparr>) s)
   }"

definition scheduler_initialise :: "env \<Rightarrow> kernel \<Rightarrow> kernel option" where
  "scheduler_initialise e s = do {
     s \<leftarrow> for_upto 0 USER_THREAD_COUNT (scheduler_initialise_block e) s;
     let idle_thread = scheduler_get_idle_thread;
     let s = s\<lparr>nodes := (nodes s)(
          Scheduler_node idle_thread :=
            \<lparr>previous = Some (Scheduler_node idle_thread), nxt = Some (Scheduler_node idle_thread)\<rparr>,
          Addrspace_node idle_thread :=
            \<lparr>previous = Some (Addrspace_node idle_thread), nxt = Some (Addrspace_node idle_thread)\<rparr>)\<rparr>;
     let s = scheduler_initialise_idle_thread_context e s;
     scheduler_create_process e 0 (user_main e) 0 0 s
   }"

section \<open>Context switch\<close>

definition scheduler_save_thread_context :: "nat \<Rightarrow> kernel \<Rightarrow> kernel" where
  "scheduler_save_thread_context thread s =
     set_thread thread (\<lambda>t. t\<lparr>regs := (regs t)\<lparr>general := general (frame s),
       sp := sp_usr (cpu_regs s), lr := lr_usr (cpu_regs s), pc := lr (frame s)\<rparr>\<rparr>) s"

definition scheduler_switch_thread :: "nat \<Rightarrow> kernel \<Rightarrow> kernel" where
  "scheduler_switch_thread thread s =
     (let t = blocks s thread in
      s\<lparr>frame := (frame s)\<lparr>general := general (regs t), lr := pc (regs t)\<rparr>,
        cpu_regs := \<lparr>spsr = cpsr t, sp_usr = sp (regs t), lr_usr = lr (regs t)\<rparr>\<rparr>)"

section \<open>Stalling\<close>

definition scheduler_stall_cmp :: "kernel \<Rightarrow> naddr ptr \<Rightarrow> naddr ptr \<Rightarrow> bool option" where
  "scheduler_stall_cmp s a b = do {
     x \<leftarrow> tcb_of_scheduler_node a;
     y \<leftarrow> tcb_of_scheduler_node b;
     Some (stall_until (blocks s x) \<le> stall_until (blocks s y))
   }"

definition scheduler_adjust_stall_timer :: "env \<Rightarrow> kernel \<Rightarrow> (int \<times> kernel) option" where
  "scheduler_adjust_stall_timer e s = do {
     b \<leftarrow> k_is_list_empty (nodes s) (Some Stall_waiting_list);
     if b then Some (0, s\<lparr>io_regs := stalltimer_reset_pending_interrupt (io_regs s)\<rparr>)
     else do {
       first \<leftarrow> k_get_first_node (nodes s) (Some Stall_waiting_list);
       t \<leftarrow> tcb_of_scheduler_node first;
       let (r, d) = stalltimer_interrupt_at e (stall_until (blocks s t)) (io_regs s);
       Some (r, s\<lparr>io_regs := d\<rparr>)
     }
   }"

partial_function (option) scheduler_unblock_overdue_waiting_threads :: "env \<Rightarrow> kernel \<Rightarrow> kernel option" where
  "scheduler_unblock_overdue_waiting_threads e s = do {
     (r, s) \<leftarrow> scheduler_adjust_stall_timer e s;
     if r < 0
     then do {
       first \<leftarrow> k_get_first_node (nodes s) (Some Stall_waiting_list);
       s \<leftarrow> on_nodes (k_transfer_to_back (Some Stall_waiting_list) (Some Ready_list) first) s;
       scheduler_unblock_overdue_waiting_threads e s
     }
     else Some s
   }"

declare scheduler_unblock_overdue_waiting_threads.simps [code]

definition scheduler_ignore_thread_until_timer_match :: "env \<Rightarrow> nat \<Rightarrow> u32 \<Rightarrow> kernel \<Rightarrow> kernel option" where
  "scheduler_ignore_thread_until_timer_match e thread match s = do {
     s \<leftarrow> on_nodes (k_remove_node_from_list (Some Ready_list) (Some (Scheduler_node thread))) s;
     let (v, d) = systimer_value e (io_regs s);
     let s = set_thread thread (\<lambda>t. t\<lparr>stall_until := v + match\<rparr>) (s\<lparr>io_regs := d\<rparr>);
     s \<leftarrow> on_nodes (k_insert_sorted (Some Stall_waiting_list) (Some (Scheduler_node thread)) (scheduler_stall_cmp s)) s;
     first \<leftarrow> k_get_first_node (nodes s) (Some Stall_waiting_list);
     if Some (Scheduler_node thread) = first
     then do {
       (r, s) \<leftarrow> scheduler_adjust_stall_timer e s;
       if r < 0 then scheduler_unblock_overdue_waiting_threads e s else Some s
     }
     else Some s
   }"

section \<open>Waiting for input\<close>

definition scheduler_ignore_thread_until_character_input :: "nat \<Rightarrow> kernel \<Rightarrow> kernel option" where
  "scheduler_ignore_thread_until_character_input thread s =
     on_nodes (k_transfer_to_back (Some Ready_list) (Some Input_waiting_list) (Some (Scheduler_node thread))) s"

definition scheduler_exists_input_waiting_thread :: "kernel \<Rightarrow> bool option" where
  "scheduler_exists_input_waiting_thread s =
     map_option Not (k_is_list_empty (nodes s) (Some Input_waiting_list))"

definition scheduler_unblock_first_input_waiting_thread :: "u8 \<Rightarrow> kernel \<Rightarrow> kernel option" where
  "scheduler_unblock_first_input_waiting_thread ch s = do {
     first \<leftarrow> k_get_first_node (nodes s) (Some Input_waiting_list);
     thread \<leftarrow> tcb_of_scheduler_node first;
     let s = set_thread thread (\<lambda>t. t\<lparr>regs := (regs t)\<lparr>general := (general (regs t))(0 := ucast ch)\<rparr>\<rparr>) s;
     on_nodes (k_transfer_to_back (Some Input_waiting_list) (Some Ready_list) first) s
   }"

section \<open>Integrity check\<close>

text \<open>The walk around one list; its result is the array \<open>checked\<close>.\<close>

partial_function (option) verify_nodes_from ::
  "kernel \<Rightarrow> naddr ptr \<Rightarrow> naddr ptr \<Rightarrow> (nat \<Rightarrow> bool) \<Rightarrow> (nat \<Rightarrow> bool) option" where
  "verify_nodes_from s start current checked = do {
     b \<leftarrow> k_is_list_node (nodes s) current;
     verify b;
     x \<leftarrow> load (nodes s) current;
     p \<leftarrow> load (nodes s) (previous x);
     verify (current = nxt p);
     q \<leftarrow> load (nodes s) (nxt x);
     verify (current = previous q);
     t \<leftarrow> tcb_of_scheduler_node current;
     verify (tid (blocks s t) < THREAD_COUNT);
     verify (\<not> checked (tid (blocks s t)));
     let checked = checked(tid (blocks s t) := True);
     let current = nxt x;
     if current \<noteq> start then verify_nodes_from s start current checked else Some checked
   }"

declare verify_nodes_from.simps [code]

partial_function (option) verify_sorted_from :: "kernel \<Rightarrow> naddr ptr \<Rightarrow> naddr ptr \<Rightarrow> unit option" where
  "verify_sorted_from s last_s current_s =
     (if current_s \<noteq> last_s
      then do {
        x \<leftarrow> load (nodes s) current_s;
        c \<leftarrow> scheduler_stall_cmp s current_s (nxt x);
        verify c;
        verify_sorted_from s last_s (nxt x)
      }
      else Some ())"

declare verify_sorted_from.simps [code]

definition verify_list :: "kernel \<Rightarrow> naddr \<Rightarrow> (nat \<Rightarrow> bool) \<Rightarrow> (nat \<Rightarrow> bool) option" where
  "verify_list s list checked = do {
     e \<leftarrow> k_is_list_empty (nodes s) (Some list);
     if e then Some checked
     else do {
       start \<leftarrow> k_get_first_node (nodes s) (Some list);
       checked \<leftarrow> verify_nodes_from s start start checked;
       if list \<noteq> Stall_waiting_list then Some checked
       else do {
         current_s \<leftarrow> k_get_first_node (nodes s) (Some list);
         last_s \<leftarrow> k_get_last_node (nodes s) (Some list);
         verify_sorted_from s last_s current_s;
         Some checked
       }
     }
   }"

definition thread_lists :: "naddr list" where
  "thread_lists = [Running_list, Ready_list, Input_waiting_list, Stall_waiting_list, Finished_list]"

text \<open>The assertions that the five heads are distinct variables come first.\<close>

definition scheduler_verify_thread_list_integrity :: "kernel \<Rightarrow> unit option" where
  "scheduler_verify_thread_list_integrity s = do {
     verify (distinct thread_lists);
     checked \<leftarrow> for_upto 0 5 (\<lambda>i checked. verify_list s (thread_lists ! i) checked) (\<lambda>_. False);
     Some ()
   }"

section \<open>Round robin\<close>

text \<open>The stack entries of the next process, and its data section.\<close>

definition map_stack_slot :: "nat \<Rightarrow> nat \<Rightarrow> kernel \<Rightarrow> kernel option" where
  "map_stack_slot p i s = do {
     let entry = pack_l2_handle (process_stack_handles s p i);
     t \<leftarrow> set_l1_table_entry (unat (VIRTUAL_PROCESS_STACKS_TOP_ADDRESS div MiB) - (i + 1)) entry (l1_table s);
     Some (s\<lparr>l1_table := t\<rparr>)
   }"

definition map_address_space :: "nat \<Rightarrow> kernel \<Rightarrow> kernel option" where
  "map_address_space p s = do {
     let copy_start = UBSS_UDATA_SECTION_START_ADDRESS + (of_nat p + 1) * MiB;
     let index = unat (UBSS_UDATA_SECTION_START_ADDRESS div MiB);
     entry \<leftarrow> get_l1_entry index (l1_table s);
     section_entry \<leftarrow> l1_section_set_base_address (unpack_l1_section entry) copy_start;
     let s = s\<lparr>l1_table := (l1_table s)(index := pack_l1_section section_entry)\<rparr>;
     for_upto 0 THREADS_PER_ADDRESS_SPACE (map_stack_slot p) s
   }"

text \<open>The running thread, if there is one, leaves its list; any but the idle thread goes to the end of
  the ready list with its context saved.\<close>

definition leave_running :: "kernel \<Rightarrow> (nat option \<times> kernel) option" where
  "leave_running s = do {
     running_empty \<leftarrow> k_is_list_empty (nodes s) (Some Running_list);
     if running_empty then Some (None, s)
     else do {
       r \<leftarrow> k_get_first_node (nodes s) (Some Running_list);
       running_thread \<leftarrow> tcb_of_scheduler_node r;
       s \<leftarrow> on_nodes (k_remove_node_from_list (Some Running_list) (Some (Scheduler_node running_thread))) s;
       if running_thread \<noteq> scheduler_get_idle_thread
       then do {
         last \<leftarrow> k_get_last_node (nodes s) (Some Ready_list);
         s \<leftarrow> on_nodes (k_append_node_to_list last (Some (Scheduler_node running_thread))) s;
         Some (Some running_thread, scheduler_save_thread_context running_thread s)
       }
       else Some (Some running_thread, s)
     }
   }"

definition scheduler_round_robin :: "env \<Rightarrow> scheduling_type \<Rightarrow> kernel \<Rightarrow> kernel option" where
  "scheduler_round_robin e type s = do {
     ready_empty \<leftarrow> k_is_list_empty (nodes s) (Some Ready_list);
     running_empty \<leftarrow> k_is_list_empty (nodes s) (Some Running_list);
     if type \<noteq> forced \<and> ready_empty \<and> \<not> running_empty then Some s
     else do {
       s \<leftarrow> (if ready_empty
             then on_nodes (k_append_node_to_list (Some Ready_list) (Some (Scheduler_node scheduler_get_idle_thread))) s
             else Some s);
       next_node \<leftarrow> k_get_first_node (nodes s) (Some Ready_list);
       next_thread \<leftarrow> tcb_of_scheduler_node next_node;
       (running_thread, s) \<leftarrow> leave_running s;
       s \<leftarrow> (case running_thread of
               None \<Rightarrow> map_address_space (pid (blocks s next_thread)) s
             | Some r \<Rightarrow>
                 if pid (blocks s r) \<noteq> pid (blocks s next_thread)
                 then map_address_space (pid (blocks s next_thread)) s
                 else Some s);
       s \<leftarrow> on_nodes (k_transfer_list_node (Some Ready_list) (Some Running_list) (Some (Scheduler_node next_thread))) s;
       let s = scheduler_switch_thread next_thread s;
       scheduler_verify_thread_list_integrity s;
       Some s
     }
   }"

end
