(* ===== verification/Kfraction.thy ===== *)
theory Kfraction
  imports Kmath Complex_Main
begin

text \<open>
  \<^verbatim>\<open>kernel/lib/kfraction.c\<close>: fractions of two \<^verbatim>\<open>long\<close>s, kept reduced, whose operations lose
  precision (\<open>k_fraction_downcast_precision\<close>) instead of overflowing. Functions that change a
  fraction through a pointer return the new value. The loops are \<^theory_text>\<open>partial_function\<close>s:
  \<open>None\<close> covers a loop that does not end.
\<close>

section \<open>Definitions\<close>

record k_fraction =
  numerator :: int
  denominator :: int

definition k_fraction_compact :: "k_fraction \<Rightarrow> k_fraction option" where
  "k_fraction_compact a = do {
     factor \<leftarrow> k_gcd (numerator a) (denominator a);
     n \<leftarrow> long_div (numerator a) factor;
     d \<leftarrow> long_div (denominator a) factor;
     Some (a\<lparr>numerator := n, denominator := d\<rparr>)
   }"

definition k_fraction_create :: "int \<Rightarrow> int \<Rightarrow> k_fraction option" where
  "k_fraction_create a b = do {
     verify (b \<noteq> 0);
     k_fraction_compact \<lparr>numerator = a, denominator = b\<rparr>
   }"

definition k_fraction_from_number :: "int \<Rightarrow> k_fraction option" where
  "k_fraction_from_number a = k_fraction_create a 1"

definition k_fraction_to_whole_number :: "k_fraction \<Rightarrow> int option" where
  "k_fraction_to_whole_number a = long_div (numerator a) (denominator a)"

text \<open>Returns whether it could lower the precision, and the fraction.\<close>

definition k_fraction_downcast_precision :: "k_fraction \<Rightarrow> (bool \<times> k_fraction) option" where
  "k_fraction_downcast_precision a =
     (if denominator a = 1 then Some (False, a)
      else do {
        n \<leftarrow> (if numerator a smod 2 \<noteq> 0 then long (numerator a - 1) else Some (numerator a));
        d \<leftarrow> (if denominator a smod 2 \<noteq> 0 then long (denominator a - 1) else Some (denominator a));
        a \<leftarrow> k_fraction_compact (a\<lparr>numerator := n, denominator := d\<rparr>);
        Some (True, a)
      })"

text \<open>\<open>!downcast(a) && !downcast(b)\<close>: the second one only runs when the first one fails.\<close>

definition k_fraction_downcast_either ::
  "k_fraction \<Rightarrow> k_fraction \<Rightarrow> (bool \<times> k_fraction \<times> k_fraction) option" where
  "k_fraction_downcast_either a b = do {
     (ok, a) \<leftarrow> k_fraction_downcast_precision a;
     if ok then Some (True, a, b)
     else do {
       (ok, b) \<leftarrow> k_fraction_downcast_precision b;
       Some (ok, a, b)
     }
   }"

text \<open>The product \<open>numerator * (common / denominator)\<close> of the comparisons.\<close>

definition k_fraction_scaled_numerator :: "k_fraction \<Rightarrow> int \<Rightarrow> int option" where
  "k_fraction_scaled_numerator a common = do {
     q \<leftarrow> long_div common (denominator a);
     long (numerator a * q)
   }"

definition k_fraction_lt :: "k_fraction \<Rightarrow> k_fraction \<Rightarrow> bool option" where
  "k_fraction_lt a b = do {
     common \<leftarrow> k_lcm (denominator a) (denominator b);
     x \<leftarrow> k_fraction_scaled_numerator a common;
     y \<leftarrow> k_fraction_scaled_numerator b common;
     Some (x < y)
   }"

definition k_fraction_eq :: "k_fraction \<Rightarrow> k_fraction \<Rightarrow> bool option" where
  "k_fraction_eq a b = do {
     common \<leftarrow> k_lcm (denominator a) (denominator b);
     x \<leftarrow> k_fraction_scaled_numerator a common;
     y \<leftarrow> k_fraction_scaled_numerator b common;
     Some (x = y)
   }"

text \<open>Returns the error code and \<open>*out\<close>.\<close>

definition k_fraction_scalar_multiply :: "k_fraction \<Rightarrow> int \<Rightarrow> int \<times> k_fraction" where
  "k_fraction_scalar_multiply a scalar =
     (if scalar = 0 then (0, a\<lparr>numerator := 0\<rparr>)
      else if \<not> in_long (numerator a * scalar) \<or> \<not> in_long (denominator a * scalar)
      then (- K_ERANGE, a)
      else (0, a\<lparr>numerator := numerator a * scalar, denominator := denominator a * scalar\<rparr>))"

text \<open>The two inner loops of \<open>k_fraction_add\<close> and the outer one.\<close>

definition k_fraction_add_retry :: "k_fraction \<Rightarrow> k_fraction \<Rightarrow> (k_fraction \<times> k_fraction \<times> int) option" where
  "k_fraction_add_retry a_adj b_adj = do {
     a_adj \<leftarrow> k_fraction_compact a_adj;
     b_adj \<leftarrow> k_fraction_compact b_adj;
     (ok, a_adj, b_adj) \<leftarrow> k_fraction_downcast_either a_adj b_adj;
     verify ok;
     common_multiple \<leftarrow> k_lcm (denominator a_adj) (denominator b_adj);
     Some (a_adj, b_adj, common_multiple)
   }"

partial_function (option) k_fraction_add_scale ::
  "k_fraction \<Rightarrow> k_fraction \<Rightarrow> int \<Rightarrow> (k_fraction \<times> k_fraction) option" where
  "k_fraction_add_scale a_adj b_adj common_multiple = do {
     fa \<leftarrow> long_div common_multiple (denominator a_adj);
     let (ra, a_adj) = k_fraction_scalar_multiply a_adj fa;
     if ra < 0
     then do {
       (a_adj, b_adj, common_multiple) \<leftarrow> k_fraction_add_retry a_adj b_adj;
       k_fraction_add_scale a_adj b_adj common_multiple
     }
     else do {
       fb \<leftarrow> long_div common_multiple (denominator b_adj);
       let (rb, b_adj) = k_fraction_scalar_multiply b_adj fb;
       if rb < 0
       then do {
         (a_adj, b_adj, common_multiple) \<leftarrow> k_fraction_add_retry a_adj b_adj;
         k_fraction_add_scale a_adj b_adj common_multiple
       }
       else Some (a_adj, b_adj)
     }
   }"

declare k_fraction_add_scale.simps [code]

partial_function (option) k_fraction_add_shrink ::
  "k_fraction \<Rightarrow> k_fraction \<Rightarrow> (k_fraction \<times> k_fraction) option" where
  "k_fraction_add_shrink a_adj b_adj =
     (if denominator a_adj = denominator b_adj \<and> \<not> in_long (numerator a_adj + numerator b_adj)
      then do {
        (ok, a_adj, b_adj) \<leftarrow> k_fraction_downcast_either a_adj b_adj;
        verify ok;
        k_fraction_add_shrink a_adj b_adj
      }
      else Some (a_adj, b_adj))"

declare k_fraction_add_shrink.simps [code]

partial_function (option) k_fraction_add_loop ::
  "k_fraction \<Rightarrow> k_fraction \<Rightarrow> (int \<times> int) option" where
  "k_fraction_add_loop a_adj b_adj =
     (if denominator a_adj \<noteq> denominator b_adj \<or> \<not> in_long (numerator a_adj + numerator b_adj)
      then do {
        common_multiple \<leftarrow> k_lcm (denominator a_adj) (denominator b_adj);
        (a_adj, b_adj) \<leftarrow> k_fraction_add_scale a_adj b_adj common_multiple;
        (a_adj, b_adj) \<leftarrow> k_fraction_add_shrink a_adj b_adj;
        k_fraction_add_loop a_adj b_adj
      }
      else Some (numerator a_adj + numerator b_adj, denominator a_adj))"

declare k_fraction_add_loop.simps [code]

definition k_fraction_add :: "k_fraction \<Rightarrow> k_fraction \<Rightarrow> k_fraction option" where
  "k_fraction_add a b = do {
     (res_num_add, den) \<leftarrow> k_fraction_add_loop a b;
     k_fraction_create res_num_add den
   }"

definition k_fraction_change_sign :: "k_fraction \<Rightarrow> k_fraction option" where
  "k_fraction_change_sign a =
     (if denominator a < 0
      then do {
        d \<leftarrow> long (- denominator a);
        Some (a\<lparr>denominator := d\<rparr>)
      }
      else do {
        n \<leftarrow> long (- numerator a);
        Some (a\<lparr>numerator := n\<rparr>)
      })"

definition k_fraction_sub :: "k_fraction \<Rightarrow> k_fraction \<Rightarrow> k_fraction option" where
  "k_fraction_sub a b = do {
     b_negative \<leftarrow> k_fraction_change_sign b;
     k_fraction_add a b_negative
   }"

text \<open>The loop of \<open>k_fraction_multiply\<close>: \<open>Some None\<close> is the error return inside of it.\<close>

partial_function (option) k_fraction_multiply_loop ::
  "k_fraction \<Rightarrow> k_fraction \<Rightarrow> (int \<times> int) option option" where
  "k_fraction_multiply_loop a_cpy b_cpy =
     (if \<not> in_long (numerator a_cpy * numerator b_cpy) \<or> \<not> in_long (denominator a_cpy * denominator b_cpy)
      then do {
        (ok, a_cpy, b_cpy) \<leftarrow> k_fraction_downcast_either a_cpy b_cpy;
        if ok then k_fraction_multiply_loop a_cpy b_cpy else Some None
      }
      else Some (Some (numerator a_cpy * numerator b_cpy, denominator a_cpy * denominator b_cpy)))"

declare k_fraction_multiply_loop.simps [code]

text \<open>Returns the fraction and the new value of \<open>*error\<close>.\<close>

definition k_fraction_multiply :: "k_fraction \<Rightarrow> k_fraction \<Rightarrow> int \<Rightarrow> (k_fraction \<times> int) option" where
  "k_fraction_multiply a b error = do {
     r \<leftarrow> k_fraction_multiply_loop a b;
     case r of
       None \<Rightarrow> Some (a, - K_EINVAL)
     | Some (num_mul, denom_mul) \<Rightarrow> do {
         ret \<leftarrow> k_fraction_create num_mul denom_mul;
         Some (ret, error)
       }
   }"

definition k_fraction_multiply_unchecked :: "k_fraction \<Rightarrow> k_fraction \<Rightarrow> k_fraction option" where
  "k_fraction_multiply_unchecked a b = map_option fst (k_fraction_multiply a b 0)"

definition k_fraction_floor :: "k_fraction \<Rightarrow> k_fraction option" where
  "k_fraction_floor a = do {
     r \<leftarrow> long_mod (numerator a) (denominator a);
     n \<leftarrow> long (numerator a - r);
     k_fraction_create n (denominator a)
   }"

definition k_fraction_round :: "k_fraction \<Rightarrow> k_fraction option" where
  "k_fraction_round a = do {
     half \<leftarrow> k_fraction_create 1 2;
     added \<leftarrow> k_fraction_add a half;
     k_fraction_floor added
   }"

definition k_fraction_project_onto_range ::
  "k_fraction \<Rightarrow> k_fraction \<Rightarrow> k_fraction \<Rightarrow> k_fraction option" where
  "k_fraction_project_onto_range a mn mx = do {
     verify (numerator a \<le> denominator a);
     l \<leftarrow> k_fraction_lt mx mn;
     verify (\<not> l);
     diff \<leftarrow> k_fraction_sub mx mn;
     scaled \<leftarrow> k_fraction_multiply_unchecked a diff;
     k_fraction_add scaled mn
   }"

definition k_project_long_onto_range :: "int \<Rightarrow> int \<Rightarrow> int \<Rightarrow> int option" where
  "k_project_long_onto_range a mn mx = do {
     f_scale \<leftarrow> k_fraction_create a LONG_MAX;
     f_min \<leftarrow> k_fraction_from_number mn;
     f_max \<leftarrow> k_fraction_from_number mx;
     f_projected \<leftarrow> k_fraction_project_onto_range f_scale f_min f_max;
     f_rounded \<leftarrow> k_fraction_round f_projected;
     k_fraction_to_whole_number f_rounded
   }"

end
