(* ===== verification/Ktiming.thy ===== *)
theory Ktiming
  imports Kfraction
begin

text \<open>
  \<^verbatim>\<open>kernel/lib/ktiming.c\<close>: conversion between milliseconds and ticks of the system timer. The
  parameters are \<^verbatim>\<open>size_t\<close>, the fractions hold \<^verbatim>\<open>long\<close>s: the conversions in between keep the
  bit pattern.
\<close>

section \<open>Definitions\<close>

definition SYSTIMER_FREQUENCY_HZ :: int where "SYSTIMER_FREQUENCY_HZ = 1000000"

text \<open>Returns the converted value and the new value of \<open>*error\<close>.\<close>

definition ktiming_milliseconds_to_hertz :: "u32 \<Rightarrow> int \<Rightarrow> (u32 \<times> int) option" where
  "ktiming_milliseconds_to_hertz ms error = do {
     s \<leftarrow> k_fraction_create (long_of_unsigned ms) 1000;
     freq \<leftarrow> k_fraction_create SYSTIMER_FREQUENCY_HZ 1;
     (hz, error) \<leftarrow> k_fraction_multiply s freq error;
     if error < 0 then Some (0, error)
     else do {
       n \<leftarrow> k_fraction_to_whole_number hz;
       Some (unsigned_of_long n, error)
     }
   }"

definition ktiming_hertz_to_milliseconds :: "u32 \<Rightarrow> u32 option" where
  "ktiming_hertz_to_milliseconds hz = do {
     s \<leftarrow> k_fraction_create (long_of_unsigned hz) SYSTIMER_FREQUENCY_HZ;
     thousand \<leftarrow> k_fraction_create 1000 1;
     ms \<leftarrow> k_fraction_multiply_unchecked s thousand;
     n \<leftarrow> k_fraction_to_whole_number ms;
     Some (unsigned_of_long n)
   }"

end
