(* ===== verification/Syscall.thy ===== *)
theory Syscall
  imports Scheduler Ktiming
begin

text \<open>
  \<^verbatim>\<open>kernel/syscall_impl.c\<close>: decoding of the \<^verbatim>\<open>svc\<close> instruction and the dispatch of system calls.
  The number and the arguments come from the frame of the calling thread, and the result goes to
  its \<open>r0\<close>.
\<close>

section \<open>Definitions\<close>

definition SYSCALL_READ_CHARACTER_NO :: u32 where "SYSCALL_READ_CHARACTER_NO = 1"
definition SYSCALL_OUTPUT_CHARACTER_NO :: u32 where "SYSCALL_OUTPUT_CHARACTER_NO = 2"
definition SYSCALL_CREATE_PROCESS_NO :: u32 where "SYSCALL_CREATE_PROCESS_NO = 3"
definition SYSCALL_CREATE_THREAD_NO :: u32 where "SYSCALL_CREATE_THREAD_NO = 4"
definition SYSCALL_STALL_THREAD_NO :: u32 where "SYSCALL_STALL_THREAD_NO = 5"
definition SYSCALL_EXIT_THREAD_NO :: u32 where "SYSCALL_EXIT_THREAD_NO = 6"
definition SYSCALL_GET_TIME_NO :: u32 where "SYSCALL_GET_TIME_NO = 7"
definition SYSCALL_GET_THREAD_ID_NO :: u32 where "SYSCALL_GET_THREAD_ID_NO = 8"

lemmas syscall_numbers = SYSCALL_READ_CHARACTER_NO_def SYSCALL_OUTPUT_CHARACTER_NO_def
  SYSCALL_CREATE_PROCESS_NO_def SYSCALL_CREATE_THREAD_NO_def SYSCALL_STALL_THREAD_NO_def
  SYSCALL_EXIT_THREAD_NO_def SYSCALL_GET_TIME_NO_def SYSCALL_GET_THREAD_ID_NO_def

definition load_instruction :: "env \<Rightarrow> u32 \<Rightarrow> kernel \<Rightarrow> u32" where
  "load_instruction e a s = load_u32 (translate e (l1_table s)) a (mem s)"

definition get_syscall_no :: "env \<Rightarrow> u32 \<Rightarrow> kernel \<Rightarrow> u32" where
  "get_syscall_no e svc_instruction_address s = load_instruction e svc_instruction_address s AND 0x00ffffff"

definition is_valid_syscall_no :: "u32 \<Rightarrow> bool" where
  "is_valid_syscall_no syscall_no \<longleftrightarrow>
     syscall_no = SYSCALL_READ_CHARACTER_NO \<or> syscall_no = SYSCALL_OUTPUT_CHARACTER_NO \<or>
     syscall_no = SYSCALL_CREATE_PROCESS_NO \<or> syscall_no = SYSCALL_CREATE_THREAD_NO \<or>
     syscall_no = SYSCALL_STALL_THREAD_NO \<or> syscall_no = SYSCALL_EXIT_THREAD_NO \<or>
     syscall_no = SYSCALL_GET_TIME_NO \<or> syscall_no = SYSCALL_GET_THREAD_ID_NO"

definition is_valid_syscall :: "env \<Rightarrow> u32 \<Rightarrow> kernel \<Rightarrow> bool" where
  "is_valid_syscall e instruction_address s \<longleftrightarrow>
     load_instruction e instruction_address s AND 0xff000000 = 0xef000000 \<and>
     is_valid_syscall_no (get_syscall_no e instruction_address s)"

definition set_result :: "int \<Rightarrow> kernel \<Rightarrow> kernel" where
  "set_result v s = s\<lparr>frame := (frame s)\<lparr>general := (general (frame s))(0 := unsigned_of_long v)\<rparr>\<rparr>"

definition reset_systimer :: "env \<Rightarrow> kernel \<Rightarrow> kernel" where
  "reset_systimer e s = s\<lparr>io_regs := systimer_reset e (io_regs s)\<rparr>"

definition dispatch_syscall :: "env \<Rightarrow> u32 \<Rightarrow> kernel \<Rightarrow> (int \<times> kernel) option" where
  "dispatch_syscall e syscall_no s =
     (let r = general (frame s) in
      if syscall_no = SYSCALL_READ_CHARACTER_NO
      then do {
        calling_thread \<leftarrow> scheduler_get_running_thread s;
        s \<leftarrow> scheduler_round_robin e forced s;
        let s = reset_systimer e s;
        s \<leftarrow> scheduler_ignore_thread_until_character_input calling_thread s;
        Some (0, s)
      }
      else if syscall_no = SYSCALL_OUTPUT_CHARACTER_NO
      then do {
        d \<leftarrow> pl001_send e (ucast (r 0)) (io_regs s);
        Some (0, s\<lparr>io_regs := d\<rparr>)
      }
      else if syscall_no = SYSCALL_CREATE_PROCESS_NO
      then if r 2 > STACK_SIZE then Some (0, set_result (- K_EINVAL) s)
        else do {
          found \<leftarrow> scheduler_find_first_empty_address_space s;
          case found of
            None \<Rightarrow> Some (0, set_result (- K_EBUSY) s)
          | Some address_space \<Rightarrow> do {
              s \<leftarrow> scheduler_create_process e address_space (r 0) (r 1) (r 2) s;
              Some (0, s)
            }
        }
      else if syscall_no = SYSCALL_CREATE_THREAD_NO
      then if r 2 > STACK_SIZE then Some (0, set_result (- K_EINVAL) s)
        else do {
          calling_thread \<leftarrow> scheduler_get_running_thread s;
          case scheduler_find_first_empty_slot_in_address_space (pid (blocks s calling_thread)) s of
            None \<Rightarrow> Some (0, set_result (- K_EBUSY) s)
          | Some slot \<Rightarrow> do {
              s \<leftarrow> scheduler_create_thread e calling_thread slot (r 0) (r 1) (r 2) s;
              Some (0, s)
            }
        }
      else if syscall_no = SYSCALL_STALL_THREAD_NO
      then do {
        let ms = r 0;
        calling_thread \<leftarrow> scheduler_get_running_thread s;
        s \<leftarrow> scheduler_round_robin e forced s;
        let s = reset_systimer e s;
        if ms = 0 then Some (0, s)
        else do {
          (converted, error) \<leftarrow> ktiming_milliseconds_to_hertz ms 0;
          if error < 0 then Some (0, set_result (- K_EINVAL) s)
          else do {
            s \<leftarrow> scheduler_ignore_thread_until_timer_match e calling_thread converted s;
            Some (0, s)
          }
        }
      }
      else if syscall_no = SYSCALL_EXIT_THREAD_NO
      then do {
        s \<leftarrow> scheduler_cleanup_thread s;
        s \<leftarrow> scheduler_round_robin e normal s;
        Some (0, reset_systimer e s)
      }
      else if syscall_no = SYSCALL_GET_TIME_NO
      then do {
        let (v, d) = systimer_value e (io_regs s);
        let s = s\<lparr>io_regs := d\<rparr>;
        ms \<leftarrow> ktiming_hertz_to_milliseconds v;
        Some (0, set_result (long_of_unsigned ms) s)
      }
      else if syscall_no = SYSCALL_GET_THREAD_ID_NO
      then do {
        t \<leftarrow> scheduler_get_running_thread s;
        Some (0, set_result (int (tid (blocks s t))) s)
      }
      else Some (- K_EINVAL, s))"

end
