(* ===== verification/Kprintf.thy ===== *)
theory Kprintf
  imports Pl001
begin

text \<open>
  \<^verbatim>\<open>kernel/lib/kascii.c\<close> and \<^verbatim>\<open>kernel/lib/kprintf.c\<close>: formatted output. The functions of the
  source hand every character to \<open>pl001_send\<close>; here they return the characters as a list, in
  order, and \<open>kprintf\<close> sends them. A string is the list of its bytes up to the terminator, so
  that reading behind the last byte gives the terminator. The variable arguments are a list of
  words and strings; an argument that is missing or of the wrong kind has no defined value.
\<close>

section \<open>Digits\<close>

definition k_is_ascii_decimal_digit :: "u8 \<Rightarrow> bool" where
  "k_is_ascii_decimal_digit ch \<longleftrightarrow> ch \<ge> 48 \<and> ch \<le> 57"

definition k_parse_ascii_decimal_digit :: "u8 \<Rightarrow> u8 option" where
  "k_parse_ascii_decimal_digit ch = do {
     verify (ch \<ge> 48 \<and> ch \<le> 57);
     Some (ch - 48)
   }"

definition k_to_ascii_hexadecimal_digit :: "u8 \<Rightarrow> u8 option" where
  "k_to_ascii_hexadecimal_digit inp = do {
     verify (inp \<le> 15);
     if inp \<le> 9 then Some (inp + 48) else Some (inp + 97 - 10)
   }"

definition k_is_uppercase :: "u8 \<Rightarrow> bool" where
  "k_is_uppercase ch \<longleftrightarrow> ch > 64 \<and> ch < 91"

section \<open>State\<close>

definition MAX_NUMBER_PRINT_WIDTH :: nat where "MAX_NUMBER_PRINT_WIDTH = 32"
definition flag_zeropad :: u32 where "flag_zeropad = push_bit 0 1"
definition flag_hash :: u32 where "flag_hash = push_bit 1 1"

datatype argument = Number u32 | String "u8 list"

record kprintf_state =
  arguments :: "argument list"
  position :: "u8 list"
  flags :: u32
  pad_width :: u8

definition peek :: "u8 list \<Rightarrow> u8" where
  "peek p = (case p of [] \<Rightarrow> 0 | c # _ \<Rightarrow> c)"

definition advance :: "kprintf_state \<Rightarrow> kprintf_state" where
  "advance state = state\<lparr>position := tl (position state)\<rparr>"

definition va_arg_number :: "kprintf_state \<Rightarrow> (u32 \<times> kprintf_state) option" where
  "va_arg_number state =
     (case arguments state of
        Number w # args \<Rightarrow> Some (w, state\<lparr>arguments := args\<rparr>)
      | _ \<Rightarrow> None)"

definition va_arg_string :: "kprintf_state \<Rightarrow> (u8 list \<times> kprintf_state) option" where
  "va_arg_string state =
     (case arguments state of
        String s # args \<Rightarrow> Some (s, state\<lparr>arguments := args\<rparr>)
      | _ \<Rightarrow> None)"

definition SAFE_DECREMENT :: "u8 \<Rightarrow> u8 \<Rightarrow> u8" where
  "SAFE_DECREMENT a b = (if a > b then a - b else 0)"

section \<open>Output of one argument\<close>

text \<open>Each returns the number of characters and the characters.\<close>

definition kprintf_output_literal_percent :: "u32 \<times> u8 list" where
  "kprintf_output_literal_percent = (1, [37])"

definition kprintf_output_character :: "u8 \<Rightarrow> u32 \<times> u8 list" where
  "kprintf_output_character ch = (1, [ch])"

definition kprintf_output_string :: "u8 list \<Rightarrow> kprintf_state \<Rightarrow> u32 \<times> u8 list" where
  "kprintf_output_string str state =
     (let str = takeWhile (\<lambda>c. c \<noteq> 0) str;
          out = str @ replicate (unat (pad_width state) - length str) 32
      in (of_nat (length out), out))"

text \<open>The digits come out in reverse order. The caller's buffer is returned with their number.\<close>

function digits_loop :: "u32 \<Rightarrow> u8 \<Rightarrow> u8 list \<Rightarrow> nat \<Rightarrow> nat \<Rightarrow> (nat \<times> u8 list) option" where
  "digits_loop num base out digits max_length =
     (if base = 0 \<or> digits \<ge> length out then None
      else case k_to_ascii_hexadecimal_digit (ucast (num mod ucast base)) of
        None \<Rightarrow> None
      | Some d \<Rightarrow>
          if num div ucast base \<noteq> 0 \<and> Suc digits < max_length
          then digits_loop (num div ucast base) base (out[digits := d]) (Suc digits) max_length
          else Some (Suc digits, out[digits := d]))"
  by pat_completeness auto
termination
  by (relation "measure (\<lambda>(num, base, out, digits, max_length). max_length - digits)") auto

declare digits_loop.simps [simp del]

definition kprintf_base_less_eq_16_to_ascii :: "u32 \<Rightarrow> u8 \<Rightarrow> u8 list \<Rightarrow> nat \<Rightarrow> (nat \<times> u8 list) option" where
  "kprintf_base_less_eq_16_to_ascii num base out max_length = do {
     verify (base \<le> 16);
     digits_loop num base out 0 max_length
   }"

text \<open>\<open>buffer[length++] = ch\<close>; outside of the buffer the write has no defined result.\<close>

definition put_char :: "u8 \<Rightarrow> nat \<times> u8 list \<Rightarrow> (nat \<times> u8 list) option" where
  "put_char ch b = (case b of (n, buffer) \<Rightarrow>
     if n < length buffer then Some (Suc n, buffer[n := ch]) else None)"

text \<open>\<open>while (length < width) buffer[length++] = ch;\<close>\<close>

function pad_to :: "u8 \<Rightarrow> nat \<Rightarrow> nat \<times> u8 list \<Rightarrow> (nat \<times> u8 list) option" where
  "pad_to ch width b = (case b of (n, buffer) \<Rightarrow>
     if n < width
     then if n < length buffer then pad_to ch width (Suc n, buffer[n := ch]) else None
     else Some (n, buffer))"
  by pat_completeness auto
termination
  by (relation "measure (\<lambda>(ch, width, n, buffer). width - n)") auto

declare pad_to.simps [simp del]

definition kprintf_format_and_output_number ::
  "u32 \<Rightarrow> u8 \<Rightarrow> bool \<Rightarrow> kprintf_state \<Rightarrow> (u32 \<times> u8 list) option" where
  "kprintf_format_and_output_number num base is_negative state =
     (if base > 16 then Some (unsigned_of_long (- K_EINVAL), [])
      else do {
        b \<leftarrow> kprintf_base_less_eq_16_to_ascii num base (replicate MAX_NUMBER_PRINT_WIDTH 0) MAX_NUMBER_PRINT_WIDTH;
        let pad = (if unat (pad_width state) > MAX_NUMBER_PRINT_WIDTH
                   then of_nat MAX_NUMBER_PRINT_WIDTH else pad_width state);
        let zeropad = flags state AND flag_zeropad \<noteq> 0;
        let hash = flags state AND flag_hash \<noteq> 0;
        let pad = (if zeropad \<and> hash then SAFE_DECREMENT pad 2 else pad);
        let pad = (if zeropad \<and> is_negative then SAFE_DECREMENT pad 1 else pad);
        b \<leftarrow> (if zeropad then pad_to 48 (unat pad) b else Some b);
        b \<leftarrow> (if hash
              then do {
                b \<leftarrow> (if base = 16 then put_char 120 b else if base = 2 then put_char 98 b else Some b);
                put_char 48 b
              }
              else Some b);
        b \<leftarrow> (if is_negative then put_char 45 b else Some b);
        b \<leftarrow> pad_to 32 (unat pad) b;
        Some (of_nat (fst b), rev (take (fst b) (snd b)))
      })"

section \<open>Format specifiers\<close>

text \<open>Returns the number of characters or the negated error code, the characters and the state.\<close>

definition kprintf_handle_format_specifier :: "kprintf_state \<Rightarrow> (int \<times> u8 list \<times> kprintf_state) option" where
  "kprintf_handle_format_specifier state =
     (let c = peek (position state) in
      if c = 0 then Some (- K_EINVAL, [], state)
      else if c = 112 \<and> flags state AND flag_zeropad \<noteq> 0 then Some (- K_EINVAL, [], state)
      else if c = 37
      then (case kprintf_output_literal_percent of (n, out) \<Rightarrow> Some (long_of_unsigned n, out, state))
      else if c = 99
      then do {
        (w, state) \<leftarrow> va_arg_number state;
        let (n, out) = kprintf_output_character (ucast w);
        Some (long_of_unsigned n, out, state)
      }
      else if c = 115
      then do {
        (str, state) \<leftarrow> va_arg_string state;
        let (n, out) = kprintf_output_string str state;
        Some (long_of_unsigned n, out, state)
      }
      else if c = 98
      then do {
        (w, state) \<leftarrow> va_arg_number state;
        (n, out) \<leftarrow> kprintf_format_and_output_number w 2 False state;
        Some (long_of_unsigned n, out, state)
      }
      else if c = 120
      then do {
        (w, state) \<leftarrow> va_arg_number state;
        (n, out) \<leftarrow> kprintf_format_and_output_number w 16 False state;
        Some (long_of_unsigned n, out, state)
      }
      else if c = 112
      then do {
        let state = state\<lparr>flags := flags state OR flag_hash\<rparr>;
        (w, state) \<leftarrow> va_arg_number state;
        (n, out) \<leftarrow> kprintf_format_and_output_number w 16 False state;
        Some (long_of_unsigned n, out, state)
      }
      else if c = 117
      then do {
        (w, state) \<leftarrow> va_arg_number state;
        (n, out) \<leftarrow> kprintf_format_and_output_number w 10 False state;
        Some (long_of_unsigned n, out, state)
      }
      else if c = 105
      then do {
        (w, state) \<leftarrow> va_arg_number state;
        let num = long_of_unsigned w;
        let is_negative = num < 0;
        num \<leftarrow> (if is_negative then long (- num) else Some num);
        (n, out) \<leftarrow> kprintf_format_and_output_number (unsigned_of_long num) 10 is_negative state;
        Some (long_of_unsigned n, out, state)
      }
      else Some (- K_EINVAL, [], state))"

fun set_flags_loop :: "u8 list \<Rightarrow> u32 \<Rightarrow> u8 list \<times> u32" where
  "set_flags_loop [] fl = ([], fl)"
| "set_flags_loop (c # p) fl =
     (if c = 48 then set_flags_loop p (fl OR flag_zeropad)
      else if c = 35 then set_flags_loop p (fl OR flag_hash)
      else (c # p, fl))"

definition kprintf_set_flags :: "kprintf_state \<Rightarrow> kprintf_state" where
  "kprintf_set_flags state =
     (let (p, fl) = set_flags_loop (position state) (flags state)
      in state\<lparr>position := p, flags := fl\<rparr>)"

text \<open>\<open>Inl\<close> is the error return.\<close>

fun pad_width_loop :: "u8 list \<Rightarrow> u8 \<Rightarrow> (u8 list + u8 list \<times> u8) option" where
  "pad_width_loop [] converted = Some (Inr ([], converted))"
| "pad_width_loop (c # p) converted =
     (if k_is_ascii_decimal_digit c
      then do {
        digit \<leftarrow> k_parse_ascii_decimal_digit c;
        if uint converted * 10 + uint digit > 255 then Some (Inl (c # p))
        else pad_width_loop p (converted * 10 + digit)
      }
      else Some (Inr (c # p, converted)))"

definition kprintf_set_pad_width :: "kprintf_state \<Rightarrow> (int \<times> kprintf_state) option" where
  "kprintf_set_pad_width state = do {
     r \<leftarrow> pad_width_loop (position state) 0;
     case r of
       Inl p \<Rightarrow> Some (- K_EINVAL, state\<lparr>position := p\<rparr>)
     | Inr (p, converted) \<Rightarrow> Some (0, state\<lparr>position := p, pad_width := converted\<rparr>)
   }"

definition kprintf_initialize_state :: "u8 list \<Rightarrow> argument list \<Rightarrow> kprintf_state" where
  "kprintf_initialize_state format args = \<lparr>arguments = args, position = format, flags = 0, pad_width = 0\<rparr>"

definition kprintf_reset_state :: "kprintf_state \<Rightarrow> kprintf_state" where
  "kprintf_reset_state state = state\<lparr>flags := 0, pad_width := 0\<rparr>"

section \<open>The whole format\<close>

text \<open>From behind a percent sign to its specifier: the result of the specifier, or the error of
  the field width.\<close>

definition kprintf_directive :: "kprintf_state \<Rightarrow> (int \<times> u8 list \<times> kprintf_state) option" where
  "kprintf_directive state = do {
     let state = kprintf_set_flags state;
     (ret, state) \<leftarrow> kprintf_set_pad_width state;
     if ret < 0 then Some (ret, [], state)
     else kprintf_handle_format_specifier state
   }"

lemma set_flags_loop_length: "length (fst (set_flags_loop p fl)) \<le> length p"
  by (induction p fl rule: set_flags_loop.induct) auto

lemma pad_width_loop_length: "pad_width_loop p n = Some (Inr (q, m)) \<Longrightarrow> length q \<le> length p"
  by (induction p n rule: pad_width_loop.induct) (auto simp: Option.bind_eq_Some_conv split: if_splits)

lemma handle_position:
  "kprintf_handle_format_specifier state = Some (r, out, state') \<Longrightarrow> position state' = position state"
  by (auto simp: kprintf_handle_format_specifier_def Let_def va_arg_number_def va_arg_string_def
      Option.bind_eq_Some_conv split: if_splits list.splits argument.splits prod.splits)

lemma set_pad_width_position:
  assumes "kprintf_set_pad_width state = Some (r, state')"
  shows "length (position state') \<le> length (position state) \<or> r < 0"
proof (cases "pad_width_loop (position state) 0")
  case (Some y)
  with assms show ?thesis
    by (cases y) (auto simp: kprintf_set_pad_width_def K_EINVAL_def dest: pad_width_loop_length)
qed (use assms in \<open>simp add: kprintf_set_pad_width_def\<close>)

lemma kprintf_directive_position:
  assumes "kprintf_directive state = Some (r, out, state')" "\<not> r < 0"
  shows "length (position state') \<le> length (position state)"
proof -
  have "length (position (kprintf_set_flags state)) \<le> length (position state)"
    using set_flags_loop_length [of "position state" "flags state"]
    by (simp add: kprintf_set_flags_def case_prod_beta Let_def)
  moreover obtain r1 state1 where s1: "kprintf_set_pad_width (kprintf_set_flags state) = Some (r1, state1)"
    using assms by (auto simp: kprintf_directive_def Option.bind_eq_Some_conv)
  then have "\<not> r1 < 0" "position state' = position state1"
    using assms by (auto simp: kprintf_directive_def dest: handle_position split: if_splits)
  ultimately show ?thesis using set_pad_width_position [OF s1] by simp
qed

function kprintf_loop :: "kprintf_state \<Rightarrow> int \<Rightarrow> (int \<times> u8 list) option" where
  "kprintf_loop state chars_written =
     (if peek (position state) = 0 then Some (chars_written, [])
      else if peek (position state) = 37
      then (case kprintf_directive (advance state) of
              None \<Rightarrow> None
            | Some (ret, out, state') \<Rightarrow>
                if ret < 0 then Some (ret, out)
                else (case long (chars_written + ret) of
                        None \<Rightarrow> None
                      | Some chars_written' \<Rightarrow>
                          map_option (\<lambda>(r, rest). (r, out @ rest))
                            (kprintf_loop (advance (kprintf_reset_state state')) chars_written')))
      else (case long (chars_written + 1) of
              None \<Rightarrow> None
            | Some chars_written' \<Rightarrow>
                map_option (\<lambda>(r, rest). (r, peek (position state) # rest))
                  (kprintf_loop (advance state) chars_written')))"
  by pat_completeness auto
termination
proof (relation "measure (\<lambda>(state, n). length (position state))", goal_cases)
  case (2 state n x ret y out state' n')
  then have "length (position state') \<le> length (tl (position state))"
    using kprintf_directive_position [of "advance state"] by (auto simp: advance_def)
  moreover have "position state \<noteq> []" using 2(1) by (auto simp: peek_def)
  ultimately show ?case
    by (cases "position state"; cases "position state'") (auto simp: advance_def kprintf_reset_state_def)
next
  case (3 state n n')
  then show ?case by (cases "position state") (auto simp: peek_def advance_def)
qed simp

declare kprintf_loop.simps [simp del]

text \<open>The result and the characters that are sent.\<close>

definition kprintf_output :: "u8 list \<Rightarrow> argument list \<Rightarrow> (int \<times> u8 list) option" where
  "kprintf_output format args = kprintf_loop (kprintf_initialize_state format args) 0"

primrec send_all :: "env \<Rightarrow> u8 list \<Rightarrow> io \<Rightarrow> io option" where
  "send_all e [] d = Some d"
| "send_all e (ch # chs) d = pl001_send e ch d \<bind> send_all e chs"

definition kprintf :: "env \<Rightarrow> u8 list \<Rightarrow> argument list \<Rightarrow> io \<Rightarrow> (int \<times> io) option" where
  "kprintf e format args d = do {
     (r, out) \<leftarrow> kprintf_output format args;
     d \<leftarrow> send_all e out d;
     Some (r, d)
   }"

end
