(* ===== verification/Fault_Status.thy ===== *)
theory Fault_Status
  imports Machine
begin

text \<open>
  \<^verbatim>\<open>arch/cpu/psr.c\<close>, \<^verbatim>\<open>arch/cpu/dfsr.c\<close> and \<^verbatim>\<open>arch/cpu/ifsr.c\<close>: names of processor modes and of
  the causes of aborts. A value without a name ends in \<^verbatim>\<open>VERIFY_NOT_REACHED()\<close>.
\<close>

section \<open>Definitions\<close>

definition get_mode_name :: "u32 \<Rightarrow> string option" where
  "get_mode_name psr =
     (let mode = psr AND psr_mode in
      if mode = psr_mode_user then Some ''User''
      else if mode = psr_mode_IRQ then Some ''IRQ''
      else if mode = psr_mode_supervisor then Some ''Supervisor''
      else if mode = psr_mode_abort then Some ''Abort''
      else if mode = psr_mode_undefined then Some ''Undefined''
      else if mode = psr_mode_system then Some ''System''
      else if mode = psr_not_initialized then Some ''Not Initialized''
      else None)"

definition dfsr_status :: u32 where "dfsr_status = 0xf"
definition dfsr_FS :: u32 where "dfsr_FS = push_bit 10 1"
definition dfsr_WnR :: u32 where "dfsr_WnR = push_bit 11 1"
definition dfsr_ExT :: u32 where "dfsr_ExT = push_bit 12 1"

definition WnR_read :: u32 where "WnR_read = 0"
definition WnR_write :: u32 where "WnR_write = 1"

definition get_data_abort_error_type :: "u32 \<Rightarrow> string option" where
  "get_data_abort_error_type dfsr =
     (let status = dfsr AND dfsr_status in
      if status = 0x1 then Some ''Alignment Fault''
      else if status = 0x4 then Some ''Instruction Cache Maintenance Fault''
      else if status = 0xc then Some ''Synchronous External Abort (1st level translation)''
      else if status = 0xe then Some ''Synchronous External Abort (2nd level translation)''
      else if status = 0x5 then Some ''Section Translation Fault''
      else if status = 0x7 then Some ''Page Translation Fault''
      else if status = 0x3 then Some ''Section Access Flag Fault''
      else if status = 0x6 then Some ''Page Access Flag Fault''
      else if status = 0x9 then Some ''Section Domain Fault''
      else if status = 0xb then Some ''Page Domain Fault''
      else if status = 0xd then Some ''Section Permission Fault''
      else if status = 0xf then Some ''Page Permission Fault''
      else if status = 0x8 then Some ''Synchronous External Abort (nontranslation)''
      else if status = 0x2 then Some ''Debug Event''
      else None)"

definition get_data_abort_access_type :: "u32 \<Rightarrow> string option" where
  "get_data_abort_access_type dfsr =
     (if dfsr AND dfsr_WnR = WnR_read then Some ''lesend''
      else if dfsr AND dfsr_WnR = WnR_write then Some ''schreibend''
      else None)"

definition ifsr_FS0_3 :: u32 where "ifsr_FS0_3 = 0xf"
definition ifsr_FS4 :: u32 where "ifsr_FS4 = push_bit 10 1"

definition get_prefetch_abort_error_type :: "u32 \<Rightarrow> string option" where
  "get_prefetch_abort_error_type ifsr =
     (let status = push_bit 4 (ifsr AND ifsr_FS4) OR (ifsr AND ifsr_FS0_3) in
      if status = 0x1 then Some ''PC Alignment Fault''
      else if status = 0x2 then Some ''Debug Exception''
      else if status = 0x3 then Some ''Access Flag Fault (level 1)''
      else if status = 0x5 then Some ''Translation Fault (level 1)''
      else if status = 0x6 then Some ''Access Flag Fault (level 2)''
      else if status = 0x7 then Some ''Translation Fault (level 2)''
      else if status = 0x8 then Some ''Synchronous External Abort (not on translation table walk)''
      else if status = 0x9 then Some ''Domain Fault (level 1)''
      else if status = 0xb then Some ''Domain Fault (level 2)''
      else if status = 0xc then Some ''Synchronous External Abort (on translation table walk, level 1)''
      else if status = 0xd then Some ''Permission Fault (level 1)''
      else if status = 0xe then Some ''Synchronous External Abort (on translation table walk, level 2)''
      else if status = 0xf then Some ''Permission Fault (level 2)''
      else if status = 0x10 then Some ''TLB Conflict Abort''
      else if status = 0x14 then Some ''IMPLEMENTATION DEFINED Fault (lockdown fault)''
      else if status = 0x19 then Some
        ''Synchronous Parity Or ECC Error (on memory access, not on translation table walk)''
      else if status = 0x1c then Some
        ''Synchronous Parity Or ECC Error (on translation table walk, level 1)''
      else if status = 0x1e then Some
        ''Synchronous Parity Or ECC Error (on translation table walk, level 2)''
      else None)"

lemmas fault_status_defs = dfsr_status_def dfsr_FS_def dfsr_WnR_def dfsr_ExT_def WnR_read_def
  WnR_write_def ifsr_FS0_3_def ifsr_FS4_def

section \<open>Which values have a name\<close>

lemma u32_bit_AND: "(w :: u32) AND push_bit n 1 = (if bit w n then push_bit n 1 else 0)"
  by (rule bit_word_eqI) (auto simp: bit_simps)

text \<open>A write access has the bit \<open>WnR\<close> set, which is not the value the code compares with.\<close>

lemma data_abort_access_type_eq:
  "get_data_abort_access_type dfsr = (if bit dfsr 11 then None else Some ''lesend'')"
proof -
  have "dfsr AND dfsr_WnR = (if bit dfsr 11 then push_bit 11 1 else 0)"
    by (simp only: dfsr_WnR_def u32_bit_AND)
  then show ?thesis by (simp add: get_data_abort_access_type_def WnR_read_def WnR_write_def)
qed

text \<open>The five bits of the fault status are bits 10 and 3..0. The code moves bit 10 to bit 14, so
  that no status with bit 10 is found.\<close>

lemma prefetch_abort_FS4:
  assumes "bit ifsr 10"
  shows "get_prefetch_abort_error_type ifsr = None"
proof -
  let ?s = "push_bit 4 (ifsr AND ifsr_FS4) OR (ifsr AND ifsr_FS0_3)"
  have "bit ?s 14" using assms by (simp add: fault_status_defs bit_simps)
  moreover have "\<not> bit (0x1 :: u32) 14" "\<not> bit (0x2 :: u32) 14" "\<not> bit (0x3 :: u32) 14"
    "\<not> bit (0x5 :: u32) 14" "\<not> bit (0x6 :: u32) 14" "\<not> bit (0x7 :: u32) 14" "\<not> bit (0x8 :: u32) 14"
    "\<not> bit (0x9 :: u32) 14" "\<not> bit (0xb :: u32) 14" "\<not> bit (0xc :: u32) 14" "\<not> bit (0xd :: u32) 14"
    "\<not> bit (0xe :: u32) 14" "\<not> bit (0xf :: u32) 14" "\<not> bit (0x10 :: u32) 14" "\<not> bit (0x14 :: u32) 14"
    "\<not> bit (0x19 :: u32) 14" "\<not> bit (0x1c :: u32) 14" "\<not> bit (0x1e :: u32) 14"
    by simp_all
  ultimately have "?s \<noteq> 0x1" "?s \<noteq> 0x2" "?s \<noteq> 0x3" "?s \<noteq> 0x5" "?s \<noteq> 0x6" "?s \<noteq> 0x7"
    "?s \<noteq> 0x8" "?s \<noteq> 0x9" "?s \<noteq> 0xb" "?s \<noteq> 0xc" "?s \<noteq> 0xd" "?s \<noteq> 0xe" "?s \<noteq> 0xf" "?s \<noteq> 0x10"
    "?s \<noteq> 0x14" "?s \<noteq> 0x19" "?s \<noteq> 0x1c" "?s \<noteq> 0x1e"
    by metis+
  then show ?thesis by (simp only: get_prefetch_abort_error_type_def Let_def if_False)
qed

lemma below_16:
  assumes "w < (16 :: u32)"
  shows "w = 15 \<or> w = 14 \<or> w = 13 \<or> w = 12 \<or> w = 11 \<or> w = 10 \<or> w = 9 \<or> w = 8 \<or> w = 7 \<or> w = 6 \<or>
    w = 5 \<or> w = 4 \<or> w = 3 \<or> w = 2 \<or> w = 1 \<or> w = 0"
proof -
  have "unat w < 16" using assms by (simp add: word_less_nat_alt)
  then have "unat w = 15 \<or> unat w = 14 \<or> unat w = 13 \<or> unat w = 12 \<or> unat w = 11 \<or> unat w = 10 \<or> unat w = 9 \<or>
      unat w = 8 \<or> unat w = 7 \<or> unat w = 6 \<or> unat w = 5 \<or> unat w = 4 \<or> unat w = 3 \<or> unat w = 2 \<or> unat w = 1 \<or> unat w = 0"
    by arith
  then show ?thesis by (simp add: word_unat_eq_iff)
qed

lemma low_nibble: "(w :: u32) AND 15 < 16"
proof -
  have "w AND 15 = take_bit 4 w" by (simp add: take_bit_eq_mask mask_eq_exp_minus_1)
  then show ?thesis by (simp add: take_bit_eq_mod word_less_nat_alt unat_mod_distrib)
qed

lemma data_abort_name:
  "get_data_abort_error_type dfsr = None \<longleftrightarrow> dfsr AND 15 = 0 \<or> dfsr AND 15 = 10"
  using below_16 [OF low_nibble [of dfsr]]
  by (elim disjE) (simp_all add: get_data_abort_error_type_def dfsr_status_def)

lemma prefetch_abort_name:
  assumes "\<not> bit ifsr 10"
  shows "get_prefetch_abort_error_type ifsr = None \<longleftrightarrow> ifsr AND 15 = 0 \<or> ifsr AND 15 = 4 \<or> ifsr AND 15 = 10"
proof -
  have "ifsr AND ifsr_FS4 = 0" using assms by (simp only: ifsr_FS4_def u32_bit_AND if_False)
  then show ?thesis
    using below_16 [OF low_nibble [of ifsr]]
    by (elim disjE) (simp_all add: get_prefetch_abort_error_type_def ifsr_FS0_3_def)
qed

text \<open>C31. Which causes of an abort have a name; every other one is an assertion failure. Of the five bits
  of the fault status of a data abort only four are looked at, and two values have no name. A
  prefetch abort with bit 10 set never has one, although five of the names are for such a status. A
  data abort by a write has no access name: the code compares the masked bit 11 with 1.\<close>

theorem abort_names:
  "(get_data_abort_error_type dfsr = None \<longleftrightarrow> dfsr AND 15 = 0 \<or> dfsr AND 15 = 10) \<and>
   (get_prefetch_abort_error_type ifsr = None \<longleftrightarrow>
     bit ifsr 10 \<or> ifsr AND 15 = 0 \<or> ifsr AND 15 = 4 \<or> ifsr AND 15 = 10) \<and>
   get_data_abort_access_type dfsr = (if bit dfsr 11 then None else Some ''lesend'')"
  using data_abort_name prefetch_abort_FS4 prefetch_abort_name data_abort_access_type_eq by metis

end
