(* ===== verification/Register_Dump.thy ===== *)
theory Register_Dump
  imports Kprintf Fault_Status
begin

text \<open>
  \<^verbatim>\<open>kernel/register_dump.c\<close>: the report of an exception. Its parts return the characters they
  print, in order; \<open>dump_registers\<close> sends them. What it reads from the processor is in the record
  \<open>status\<close>.
\<close>

section \<open>Definitions\<close>

datatype interrupt_type = reset | undefined_instruction | software | prefetch_abort | data_abort | irq

text \<open>\<open>banked m\<close> is what \<^verbatim>\<open>GET_MODE_REGS\<close> finds in the mode \<open>m\<close>: its \<^verbatim>\<open>SPSR\<close>, \<^verbatim>\<open>LR\<close> and \<^verbatim>\<open>SP\<close>.\<close>

record status =
  st_cpsr :: u32
  st_spsr :: u32
  banked :: "u32 \<Rightarrow> u32 \<times> u32 \<times> u32"
  ifsr :: u32
  ifar :: u32
  dfsr :: u32
  dfar :: u32

record register_layout_part =
  mnemonic :: "u8 list option"
  last_member_bit_offset :: u32

definition bytes :: "string \<Rightarrow> u8 list" where
  "bytes = map of_char"

text \<open>\<^verbatim>\<open>kprintf\<close> of a format whose return value the caller drops.\<close>

definition print :: "u8 list \<Rightarrow> argument list \<Rightarrow> u8 list option" where
  "print format args = map_option snd (kprintf_output format args)"

definition REGISTER_BIT_WIDTH :: nat where "REGISTER_BIT_WIDTH = 32"
definition BIT_NEEDLE :: u32 where "BIT_NEEDLE = 0x80000000"
definition SP_POSITION :: nat where "SP_POSITION = 13"
definition PC_POSITION :: nat where "PC_POSITION = 15"

text \<open>The registers as the array \<open>regs_iter\<close>.\<close>

definition register_array :: "registers \<Rightarrow> nat \<Rightarrow> u32" where
  "register_array r i = (if i = 13 then sp r else if i = 14 then lr r else if i = 15 then pc r else general r i)"

definition aliases :: "u8 list list" where
  "aliases = [bytes ''SP'', bytes ''LR'', bytes ''PC'']"

definition print_general_register :: "registers \<Rightarrow> nat \<Rightarrow> u8 list \<Rightarrow> u8 list option" where
  "print_general_register r reg_idx out = do {
     a \<leftarrow> print (bytes ''R%u: %#010x'' @ [9]) [Number (of_nat reg_idx), Number (register_array r reg_idx)];
     b \<leftarrow> (if reg_idx + 8 \<ge> SP_POSITION \<and> reg_idx + 8 \<le> PC_POSITION
          then print (bytes ''%s: %#010x'' @ [10])
            [String (aliases ! (reg_idx + 8 - SP_POSITION)), Number (register_array r (reg_idx + 8))]
          else if reg_idx + 8 \<noteq> 16
          then print (bytes ''R%u: %#010x'' @ [10]) [Number (of_nat (reg_idx + 8)), Number (register_array r (reg_idx + 8))]
          else Some []);
     Some (out @ a @ b)
   }"

definition print_general_registers :: "registers \<Rightarrow> u8 list option" where
  "print_general_registers r = do {
     out \<leftarrow> print ([10] @ bytes ''>>> Registerschnappschuss (aktueller Modus) <<<'' @ [10]) [];
     for_upto 0 8 (print_general_register r) out
   }"

text \<open>
  The loop over the bits, from the highest. \<open>layout\<close> are the parts from the current one on; an
  access behind the last one has no defined result. The part without a mnemonic moves
  \<open>bit_offset\<close> to its end.
\<close>

function print_layout_from :: "u32 \<Rightarrow> register_layout_part list \<Rightarrow> nat \<Rightarrow> u8 list option" where
  "print_layout_from reg layout bit_offset =
     (if bit_offset < REGISTER_BIT_WIDTH
      then case layout of
        [] \<Rightarrow> None
      | part # rest \<Rightarrow>
          let moved = bit_offset > unat (last_member_bit_offset part);
              space = (if moved then [32] else []);
              layout = (if moved then rest else layout)
          in case layout of
               [] \<Rightarrow> None
             | part # rest \<Rightarrow>
                 (case mnemonic part of
                    None \<Rightarrow>
                      map_option ((@) space)
                        (print_layout_from reg rest (unat (last_member_bit_offset part + 1)))
                  | Some m \<Rightarrow>
                      (case k_strlen (m @ [0]) of
                         None \<Rightarrow> None
                       | Some n \<Rightarrow>
                           let flag_index = of_nat n - (last_member_bit_offset part - of_nat bit_offset) - 1 :: u32
                           in if reg AND drop_bit bit_offset BIT_NEEDLE \<noteq> 0
                              then if unat flag_index < n
                                then map_option (\<lambda>out. space @ [m ! unat flag_index] @ out)
                                  (print_layout_from reg layout (Suc bit_offset))
                                else None
                              else map_option (\<lambda>out. space @ [95] @ out)
                                (print_layout_from reg layout (Suc bit_offset))))
      else Some [])"
  by pat_completeness auto
termination
  by (relation "measures [\<lambda>(reg, layout, bit_offset). length layout,
      \<lambda>(reg, layout, bit_offset). REGISTER_BIT_WIDTH - bit_offset]") (auto split: if_splits)

declare print_layout_from.simps [simp del]

definition print_register_using_layout :: "u32 \<Rightarrow> register_layout_part list \<Rightarrow> u8 list option" where
  "print_register_using_layout reg layout = print_layout_from reg layout 0"

text \<open>\<open>" %s (%#010x)"\<close> with a mode and the register it comes from.\<close>

definition print_mode :: "u32 \<Rightarrow> u8 list \<Rightarrow> u8 list option" where
  "print_mode psr ending = do {
     name \<leftarrow> get_mode_name psr;
     print (bytes '' %s (%#010x)'' @ ending) [String (bytes name), Number psr]
   }"

definition print_current_mode_status_registers :: "status \<Rightarrow> register_layout_part list \<Rightarrow> u8 list option" where
  "print_current_mode_status_registers st layout = do {
     a \<leftarrow> print ([10] @ bytes ''>>> Aktuelle Statusregister (SPSR des aktuellen Modus) <<<'' @ [10]) [];
     b \<leftarrow> print (bytes ''CPSR: '') [];
     c \<leftarrow> print_register_using_layout (st_cpsr st) layout;
     d \<leftarrow> print_mode (st_cpsr st) [10];
     f \<leftarrow> print (bytes ''SPSR: '') [];
     g \<leftarrow> print_register_using_layout (st_spsr st) layout;
     h \<leftarrow> print_mode (st_spsr st) [10];
     Some (a @ b @ c @ d @ f @ g @ h)
   }"

definition dump_modes :: "u32 list" where
  "dump_modes = [psr_mode_system, psr_mode_supervisor, psr_mode_abort, psr_mode_IRQ, psr_mode_undefined]"

definition print_mode_registers :: "status \<Rightarrow> register_layout_part list \<Rightarrow> nat \<Rightarrow> u8 list \<Rightarrow> u8 list option" where
  "print_mode_registers st layout mode_index out = do {
     let mode = dump_modes ! mode_index;
     let (m_spsr, m_lr, m_sp) = banked st mode;
     name \<leftarrow> get_mode_name mode;
     a \<leftarrow> print (bytes ''%10s %#010x %#010x '') [String (bytes name), Number m_lr, Number m_sp];
     b \<leftarrow> (if mode \<noteq> psr_mode_system
          then do {
            x \<leftarrow> print_register_using_layout m_spsr layout;
            y \<leftarrow> print_mode m_spsr [];
            Some (x @ y)
          }
          else Some []);
     c \<leftarrow> print [10] [];
     Some (out @ a @ b @ c)
   }"

definition print_various_mode_registers :: "status \<Rightarrow> register_layout_part list \<Rightarrow> u8 list option" where
  "print_various_mode_registers st layout = do {
     a \<leftarrow> print ([10] @ bytes ''>>> Aktuelle modusspezifische Register <<<'' @ [10]) [];
     b \<leftarrow> print (bytes ''           LR         SP         SPSR'' @ [10]) [];
     out \<leftarrow> for_upto 0 5 (print_mode_registers st layout) (a @ b);
     c \<leftarrow> print [10] [];
     Some (out @ c)
   }"

fun get_interrupt_type_name :: "interrupt_type \<Rightarrow> string" where
  "get_interrupt_type_name reset = ''Reset''"
| "get_interrupt_type_name undefined_instruction = ''Undefined Instruction''"
| "get_interrupt_type_name software = ''Software''"
| "get_interrupt_type_name prefetch_abort = ''Prefetch Abort''"
| "get_interrupt_type_name data_abort = ''Data Abort''"
| "get_interrupt_type_name irq = ''IRQ''"

definition psr_layout :: "register_layout_part list" where
  "psr_layout = [
     \<lparr>mnemonic = Some (bytes ''NZCV''), last_member_bit_offset = 3\<rparr>,
     \<lparr>mnemonic = None, last_member_bit_offset = 26\<rparr>,
     \<lparr>mnemonic = Some (bytes ''E''), last_member_bit_offset = 27\<rparr>,
     \<lparr>mnemonic = None, last_member_bit_offset = 28\<rparr>,
     \<lparr>mnemonic = Some (bytes ''IFT''), last_member_bit_offset = 31\<rparr>]"

text \<open>The two bytes between the strings are the letter \<^verbatim>\<open>ue\<close> (umlaut) in UTF-8.\<close>

definition dump_cause :: "interrupt_type \<Rightarrow> status \<Rightarrow> u8 list option" where
  "dump_cause type st =
     (if type = prefetch_abort
      then do {
        a \<leftarrow> print (bytes ''Zugriff: Ausf'' @ [195, 188] @ bytes ''hrung von Instruktion an Adresse %#010x'' @ [10]) [Number (ifar st)];
        name \<leftarrow> get_prefetch_abort_error_type (ifsr st);
        b \<leftarrow> print (bytes ''Fehler: %s'' @ [10]) [String (bytes name)];
        Some (a @ b)
      }
      else if type = data_abort
      then do {
        a \<leftarrow> print (bytes ''Zugriff: %s auf Adresse %#010x'' @ [10]) [String (bytes ''lesend''), Number (dfar st)];
        name \<leftarrow> get_data_abort_error_type (dfsr st);
        b \<leftarrow> print (bytes ''Fehler: %s'' @ [10]) [String (bytes name)];
        Some (a @ b)
      }
      else Some [])"

definition dump_output :: "interrupt_type \<Rightarrow> registers \<Rightarrow> status \<Rightarrow> u8 list option" where
  "dump_output type r st = do {
     a \<leftarrow> print (replicate 75 35 @ [10]) [];
     b \<leftarrow> print (bytes ''%s Interrupt an Adresse %#010x'' @ [10]) [String (bytes (get_interrupt_type_name type)), Number (lr r)];
     c \<leftarrow> dump_cause type st;
     d \<leftarrow> print_general_registers r;
     f \<leftarrow> print_current_mode_status_registers st psr_layout;
     g \<leftarrow> print_various_mode_registers st psr_layout;
     Some (a @ b @ c @ d @ f @ g)
   }"

definition dump_registers :: "env \<Rightarrow> interrupt_type \<Rightarrow> registers \<Rightarrow> status \<Rightarrow> io \<Rightarrow> io option" where
  "dump_registers e type r st d = do {
     out \<leftarrow> dump_output type r st;
     send_all e out d
   }"

end
