(* ===== verification/Interrupt.thy ===== *)
theory Interrupt
  imports Syscall Register_Dump
begin

text \<open>
  \<^verbatim>\<open>kernel/interrupt.c\<close>, \<^verbatim>\<open>arch/bsp/peripherals.c\<close> and \<^verbatim>\<open>kernel/start.c\<close>: the handlers the
  vectors of \<^verbatim>\<open>arch/cpu/interrupt_vector_table.S\<close> call with the saved frame, and the start of the
  kernel. \<open>st\<close> holds the registers a report reads besides the frame; its \<^verbatim>\<open>SPSR\<close> is the one of
  the state.
\<close>

section \<open>Peripherals\<close>

datatype peripherals_register_offsets = IRQ_basic_pending | IRQ_pending_1 | IRQ_pending_2
  | FIQ_control | enable_IRQs_1 | enable_IRQs_2 | enable_basic_IRQs | disable_IRQs_1
  | disable_IRQs_2 | disable_basic_IRQs

fun peripherals_register_offset :: "peripherals_register_offsets \<Rightarrow> u32" where
  "peripherals_register_offset IRQ_basic_pending = 0x200"
| "peripherals_register_offset IRQ_pending_1 = 0x204"
| "peripherals_register_offset IRQ_pending_2 = 0x208"
| "peripherals_register_offset FIQ_control = 0x20C"
| "peripherals_register_offset enable_IRQs_1 = 0x210"
| "peripherals_register_offset enable_IRQs_2 = 0x214"
| "peripherals_register_offset enable_basic_IRQs = 0x218"
| "peripherals_register_offset disable_IRQs_1 = 0x21C"
| "peripherals_register_offset disable_IRQs_2 = 0x220"
| "peripherals_register_offset disable_basic_IRQs = 0x224"

definition INTERRUPT_PERIPHERALS_BASE :: u32 where
  "INTERRUPT_PERIPHERALS_BASE = 0x7E00B000 - 0x3F000000"
definition UART_pending :: u32 where "UART_pending = push_bit 25 1"

definition peripherals_register :: "peripherals_register_offsets \<Rightarrow> u32" where
  "peripherals_register offset = INTERRUPT_PERIPHERALS_BASE + peripherals_register_offset offset"

section \<open>Handlers\<close>

definition get_spsr :: "kernel \<Rightarrow> u32" where
  "get_spsr s = spsr (cpu_regs s)"

definition dump :: "env \<Rightarrow> interrupt_type \<Rightarrow> status \<Rightarrow> kernel \<Rightarrow> kernel option" where
  "dump e type st s = do {
     d \<leftarrow> dump_registers e type (frame s) (st\<lparr>st_spsr := get_spsr s\<rparr>) (io_regs s);
     Some (s\<lparr>io_regs := d\<rparr>)
   }"

text \<open>\<open>VERIFY(dispatch_syscall(regs, SYSCALL_EXIT_THREAD_NO) >= 0)\<close>\<close>

definition exit_thread :: "env \<Rightarrow> kernel \<Rightarrow> kernel option" where
  "exit_thread e s = do {
     (r, s) \<leftarrow> dispatch_syscall e SYSCALL_EXIT_THREAD_NO s;
     verify (r \<ge> 0);
     Some s
   }"

definition reset_interrupt_handler :: "env \<Rightarrow> status \<Rightarrow> kernel \<Rightarrow> kernel option" where
  "reset_interrupt_handler e st s = do {
     s \<leftarrow> dump e reset st s;
     if get_spsr s AND psr_mode = psr_mode_user then exit_thread e s else None
   }"

definition undefined_instruction_interrupt_handler :: "env \<Rightarrow> status \<Rightarrow> kernel \<Rightarrow> kernel option" where
  "undefined_instruction_interrupt_handler e st s = do {
     s \<leftarrow> dump e undefined_instruction st s;
     if get_spsr s AND psr_mode = psr_mode_user then exit_thread e s else None
   }"

definition software_interrupt_handler :: "env \<Rightarrow> status \<Rightarrow> kernel \<Rightarrow> kernel option" where
  "software_interrupt_handler e st s = do {
     (handled, s) \<leftarrow>
       (if get_spsr s AND psr_mode = psr_mode_user
        then do {
          let svc_address = lr (frame s) - 4;
          if is_valid_syscall e svc_address s
          then do {
            (r, s) \<leftarrow> dispatch_syscall e (get_syscall_no e svc_address s) s;
            Some (r \<ge> 0, s)
          }
          else Some (False, s)
        }
        else Some (False, s));
     if handled then Some s
     else do {
       s \<leftarrow> dump e software st s;
       if get_spsr s AND psr_mode \<noteq> psr_mode_user then None else exit_thread e s
     }
   }"

definition prefetch_abort_interrupt_handler :: "env \<Rightarrow> status \<Rightarrow> kernel \<Rightarrow> kernel option" where
  "prefetch_abort_interrupt_handler e st s = do {
     s \<leftarrow> dump e prefetch_abort st s;
     if get_spsr s AND psr_mode = psr_mode_user then exit_thread e s else None
   }"

definition data_abort_interrupt_handler :: "env \<Rightarrow> status \<Rightarrow> kernel \<Rightarrow> kernel option" where
  "data_abort_interrupt_handler e st s = do {
     s \<leftarrow> dump e data_abort st s;
     if get_spsr s AND psr_mode = psr_mode_user then exit_thread e s else None
   }"

text \<open>The loop that hands cached characters to waiting threads.\<close>

partial_function (option) deliver_input :: "kernel \<Rightarrow> kernel option" where
  "deliver_input s = do {
     waiting \<leftarrow> scheduler_exists_input_waiting_thread s;
     if waiting \<and> pl001_has_unread_character (cache s)
     then do {
       (ch, c) \<leftarrow> pl001_read (cache s);
       s \<leftarrow> scheduler_unblock_first_input_waiting_thread ch (s\<lparr>cache := c\<rparr>);
       deliver_input s
     }
     else Some s
   }"

declare deliver_input.simps [code]

definition irq_interrupt_handler :: "env \<Rightarrow> kernel \<Rightarrow> kernel option" where
  "irq_interrupt_handler e s = do {
     let (pending, d) = stalltimer_pending e (io_regs s);
     let s = s\<lparr>io_regs := d\<rparr>;
     s \<leftarrow> (if pending then scheduler_unblock_overdue_waiting_threads e s else Some s);
     let (pending, d) = systimer_pending e (io_regs s);
     let s = s\<lparr>io_regs := d\<rparr>;
     s \<leftarrow> (if pending
           then do {
             s \<leftarrow> scheduler_round_robin e normal s;
             Some (reset_systimer e s)
           }
           else Some s);
     let (v, d) = volatile_read e (peripherals_register IRQ_pending_2) (io_regs s);
     let s = s\<lparr>io_regs := d\<rparr>;
     s \<leftarrow> (if v AND UART_pending \<noteq> 0
           then do {
             (c, d) \<leftarrow> pl001_receive e (cache s) (io_regs s);
             Some (s\<lparr>cache := c, io_regs := d\<rparr>)
           }
           else Some s);
     deliver_input s
   }"

end
