(* ===== verification/Scheduler_Spec.thy ===== *)
theory Scheduler_Spec
  imports Scheduler
begin

text \<open>
  The abstract scheduler: every list of the scheduler is a list of thread indices. \<open>lists h A\<close>
  says that the heap \<open>h\<close> represents it. For each operation of \<^theory_text>\<open>Scheduler\<close> that moves nodes
  there is the list operation it implements and a lemma that it returns and implements it, proved
  from the lemmas about families of lists (\<^theory_text>\<open>Node_Lists\<close>) at their instance for the intrusive
  lists.
\<close>

section \<open>The abstract state\<close>

record sched =
  ready :: "nat list"
  stalled :: "nat list"
  waiting :: "nat list"
  running :: "nat list"
  finished :: "nat list"
  space :: "nat \<Rightarrow> nat list"

fun lists_of :: "sched \<Rightarrow> naddr \<Rightarrow> naddr list" where
  "lists_of A Ready_list = map Scheduler_node (ready A)"
| "lists_of A Stall_waiting_list = map Scheduler_node (stalled A)"
| "lists_of A Input_waiting_list = map Scheduler_node (waiting A)"
| "lists_of A Running_list = map Scheduler_node (running A)"
| "lists_of A Finished_list = map Scheduler_node (finished A)"
| "lists_of A (Address_space p) = map Addrspace_node (space A p)"
| "lists_of A (Scheduler_node t) = []"
| "lists_of A (Addrspace_node t) = []"

definition heads :: "naddr set" where
  "heads = {Ready_list, Stall_waiting_list, Input_waiting_list, Running_list, Finished_list} \<union>
     Address_space ` {..<ADDRESS_SPACE_COUNT}"

definition thread_nodes :: "naddr set" where
  "thread_nodes = Scheduler_node ` {..<THREAD_COUNT} \<union> Addrspace_node ` {..<THREAD_COUNT}"

definition lists :: "naddr heap \<Rightarrow> sched \<Rightarrow> bool" where
  "lists h A \<longleftrightarrow> family klist lone heads thread_nodes h (lists_of A)"

lemma heads_simps [simp]:
  "Ready_list \<in> heads" "Stall_waiting_list \<in> heads" "Input_waiting_list \<in> heads"
  "Running_list \<in> heads" "Finished_list \<in> heads"
  "Address_space p \<in> heads \<longleftrightarrow> p < ADDRESS_SPACE_COUNT"
  "Scheduler_node t \<notin> heads" "Addrspace_node t \<notin> heads"
  by (auto simp: heads_def)

lemma thread_nodes_simps [simp]:
  "Scheduler_node t \<in> thread_nodes \<longleftrightarrow> t < THREAD_COUNT"
  "Addrspace_node t \<in> thread_nodes \<longleftrightarrow> t < THREAD_COUNT"
  by (auto simp: thread_nodes_def)

lemma lists_of_update [simp]:
  "lists_of (A\<lparr>ready := xs\<rparr>) = (lists_of A)(Ready_list := map Scheduler_node xs)"
  "lists_of (A\<lparr>stalled := xs\<rparr>) = (lists_of A)(Stall_waiting_list := map Scheduler_node xs)"
  "lists_of (A\<lparr>waiting := xs\<rparr>) = (lists_of A)(Input_waiting_list := map Scheduler_node xs)"
  "lists_of (A\<lparr>running := xs\<rparr>) = (lists_of A)(Running_list := map Scheduler_node xs)"
  "lists_of (A\<lparr>finished := xs\<rparr>) = (lists_of A)(Finished_list := map Scheduler_node xs)"
  "lists_of (A\<lparr>space := (space A)(p := xs)\<rparr>) = (lists_of A)(Address_space p := map Addrspace_node xs)"
  by (rule ext, rename_tac l, case_tac l; simp)+

lemma remove1_map_Scheduler_node [simp]:
  "remove1 (Scheduler_node t) (map Scheduler_node xs) = map Scheduler_node (remove1 t xs)"
  by (induction xs) auto

lemma remove1_map_Addrspace_node [simp]:
  "remove1 (Addrspace_node t) (map Addrspace_node xs) = map Addrspace_node (remove1 t xs)"
  by (induction xs) auto

section \<open>Reading the lists\<close>

lemma lists_klist: "lists h A \<Longrightarrow> l \<in> heads \<Longrightarrow> klist h l (lists_of A l)"
  unfolding lists_def by (rule kl.fam_list)

lemma lists_empty: "lists h A \<Longrightarrow> l \<in> heads \<Longrightarrow> k_is_list_empty h (Some l) = Some (lists_of A l = [])"
  by (rule list_empty_klist [OF lists_klist])

lemma lists_first:
  "lists h A \<Longrightarrow> l \<in> heads \<Longrightarrow> lists_of A l \<noteq> [] \<Longrightarrow>
    k_get_first_node h (Some l) = Some (Some (hd (lists_of A l)))"
  by (rule get_first_klist [OF lists_klist])

lemma lists_last:
  "lists h A \<Longrightarrow> l \<in> heads \<Longrightarrow> lists_of A l \<noteq> [] \<Longrightarrow>
    k_get_last_node h (Some l) = Some (Some (last (lists_of A l)))"
  by (rule get_last_klist [OF lists_klist])

lemma lists_distinct: "lists h A \<Longrightarrow> l \<in> heads \<Longrightarrow> distinct (lists_of A l)"
  unfolding lists_def by (rule kl.fam_distinct)

lemma lists_disjoint:
  "lists h A \<Longrightarrow> l \<in> heads \<Longrightarrow> m \<in> heads \<Longrightarrow> l \<noteq> m \<Longrightarrow> set (lists_of A l) \<inter> set (lists_of A m) = {}"
  unfolding lists_def by (rule kl.fam_disjoint)

lemma lists_bound: "lists h A \<Longrightarrow> l \<in> heads \<Longrightarrow> n \<in> set (lists_of A l) \<Longrightarrow> n \<in> thread_nodes"
  unfolding lists_def by (rule kl.fam_node)

section \<open>Moving nodes\<close>

lemma lists_remove:
  assumes "lists h A" "l \<in> heads" "n \<in> set (lists_of A l)"
    and "lists_of B = (lists_of A)(l := remove1 n (lists_of A l))"
  obtains h' where "k_remove_node_from_list (Some l) (Some n) h = Some h'" "lists h' B"
    "in_no_list heads (lists_of B) n"
  using kl.fam_remove [OF assms(1) [unfolded lists_def] assms(2,3)] assms(4) that
  unfolding lists_def by metis

lemma lists_push_front:
  assumes "lists h A" "l \<in> heads" "n \<in> thread_nodes" "in_no_list heads (lists_of A) n"
    and "lists_of B = (lists_of A)(l := n # lists_of A l)"
  obtains h' where "k_append_node_to_list (Some l) (Some n) h = Some h'" "lists h' B"
  using kl.fam_push_front [OF assms(1) [unfolded lists_def] assms(2-4)] assms(5) that
  unfolding lists_def by metis

lemma lists_push_back:
  assumes "lists h A" "l \<in> heads" "n \<in> thread_nodes" "in_no_list heads (lists_of A) n" "lists_of A l \<noteq> []"
    and "lists_of B = (lists_of A)(l := lists_of A l @ [n])"
  obtains h' where "k_append_node_to_list (Some (last (lists_of A l))) (Some n) h = Some h'" "lists h' B"
  using kl.fam_push_back [OF assms(1) [unfolded lists_def] assms(2-5)] assms(6) that
  unfolding lists_def by metis

lemma lists_insert_by:
  assumes "lists h A" "l \<in> heads" "n \<in> thread_nodes" "in_no_list heads (lists_of A) n"
    and "\<And>a. a \<in> set (lists_of A l) \<Longrightarrow> cmp (Some a) (Some n) = Some (P a)"
    and "lists_of B = (lists_of A)(l := insert_sorted_list P n (lists_of A l))"
  obtains h' where "k_insert_sorted (Some l) (Some n) cmp h = Some h'" "lists h' B"
proof -
  from kl.fam_insert_by [where cmp = cmp and P = P, OF assms(1) [unfolded lists_def] assms(2-5)]
  obtain h' where "k_insert_sorted (Some l) (Some n) cmp h = Some h'"
    "family klist lone heads thread_nodes h' ((lists_of A)(l := insert_sorted_list P n (lists_of A l)))"
    by metis
  then show ?thesis using that assms(6) by (simp add: lists_def)
qed

lemma lists_transfer_front:
  assumes "lists h A" "a \<in> heads" "b \<in> heads" "a \<noteq> b" "n \<in> set (lists_of A a)"
    and "lists_of B = (lists_of A)(a := remove1 n (lists_of A a), b := n # lists_of A b)"
  obtains h' where "k_transfer_list_node (Some a) (Some b) (Some n) h = Some h'" "lists h' B"
  using kl.fam_move_front [OF assms(1) [unfolded lists_def] assms(2-5)] assms(6) that
  unfolding lists_def k_transfer_list_node_def by metis

lemma lists_transfer_back:
  assumes "lists h A" "a \<in> heads" "b \<in> heads" "a \<noteq> b" "n \<in> set (lists_of A a)"
    and "lists_of B = (lists_of A)(a := remove1 n (lists_of A a), b := lists_of A b @ [n])"
  obtains h' where "k_transfer_to_back (Some a) (Some b) (Some n) h = Some h'" "lists h' B"
proof (cases "lists_of A b = []")
  case True
  then have "lists_of B = (lists_of A)(a := remove1 n (lists_of A a), b := n # lists_of A b)"
    using assms(6) by simp
  from lists_transfer_front [OF assms(1-5) this] show ?thesis
    using that lists_empty [OF assms(1,3)] True by (auto simp: k_transfer_to_back_def)
next
  case False
  from kl.fam_move_back [OF assms(1) [unfolded lists_def] assms(2-5) False]
  obtain h' where "k_transfer_list_node (Some a) (Some (last (lists_of A b))) (Some n) h = Some h'"
      "lists h' B"
    unfolding k_transfer_list_node_def lists_def assms(6) by metis
  then show ?thesis
    using that lists_empty [OF assms(1,3)] lists_last [OF assms(1,3) False] False
    by (simp add: k_transfer_to_back_def)
qed

section \<open>Waiting for input\<close>

lemma in_lists_of:
  "t \<in> set (ready A) \<Longrightarrow> Scheduler_node t \<in> set (lists_of A Ready_list)"
  "t \<in> set (stalled A) \<Longrightarrow> Scheduler_node t \<in> set (lists_of A Stall_waiting_list)"
  "t \<in> set (waiting A) \<Longrightarrow> Scheduler_node t \<in> set (lists_of A Input_waiting_list)"
  "t \<in> set (running A) \<Longrightarrow> Scheduler_node t \<in> set (lists_of A Running_list)"
  "t \<in> set (finished A) \<Longrightarrow> Scheduler_node t \<in> set (lists_of A Finished_list)"
  by auto

lemma ignore_input_refines:
  assumes "lists (nodes s) A" "t \<in> set (ready A)"
  obtains h where "scheduler_ignore_thread_until_character_input t s = Some (s\<lparr>nodes := h\<rparr>)"
    "lists h (A\<lparr>ready := remove1 t (ready A), waiting := waiting A @ [t]\<rparr>)"
proof -
  obtain h where "k_transfer_to_back (Some Ready_list) (Some Input_waiting_list) (Some (Scheduler_node t)) (nodes s) = Some h"
      "lists h (A\<lparr>ready := remove1 t (ready A), waiting := waiting A @ [t]\<rparr>)"
    by (rule lists_transfer_back [OF assms(1), of Ready_list Input_waiting_list "Scheduler_node t"
          "A\<lparr>ready := remove1 t (ready A), waiting := waiting A @ [t]\<rparr>"]) (use assms(2) in auto)
  then show ?thesis
    by (intro that) (simp_all add: scheduler_ignore_thread_until_character_input_def on_nodes_def)
qed

lemma exists_waiting_eq:
  "lists (nodes s) A \<Longrightarrow> scheduler_exists_input_waiting_thread s = Some (waiting A \<noteq> [])"
  using lists_empty [of "nodes s" A Input_waiting_list]
  by (simp add: scheduler_exists_input_waiting_thread_def)

lemma unblock_input_refines:
  assumes "lists (nodes s) A" "waiting A = t # ts"
  obtains h where "scheduler_unblock_first_input_waiting_thread ch s =
      Some (set_thread t (\<lambda>t. t\<lparr>regs := (regs t)\<lparr>general := (general (regs t))(0 := ucast ch)\<rparr>\<rparr>) s\<lparr>nodes := h\<rparr>)"
    "lists h (A\<lparr>waiting := ts, ready := ready A @ [t]\<rparr>)"
proof -
  obtain h where "k_transfer_to_back (Some Input_waiting_list) (Some Ready_list) (Some (Scheduler_node t)) (nodes s) = Some h"
      "lists h (A\<lparr>waiting := ts, ready := ready A @ [t]\<rparr>)"
    by (rule lists_transfer_back [OF assms(1), of Input_waiting_list Ready_list "Scheduler_node t"
          "A\<lparr>waiting := ts, ready := ready A @ [t]\<rparr>"]) (use assms(2) in auto)
  moreover have "k_get_first_node (nodes s) (Some Input_waiting_list) = Some (Some (Scheduler_node t))"
    using lists_first [OF assms(1), of Input_waiting_list] assms(2) by simp
  ultimately show ?thesis
    by (intro that) (simp_all add: scheduler_unblock_first_input_waiting_thread_def on_nodes_def set_thread_def)
qed

section \<open>Ending a thread\<close>

definition retire :: "nat \<Rightarrow> nat \<Rightarrow> sched \<Rightarrow> sched" where
  "retire t p A = A\<lparr>space := (space A)(p := remove1 t (space A p)), running := [], finished := t # finished A\<rparr>"

lemma cleanup_refines:
  assumes "lists (nodes s) A" "running A = [t]" "pid (blocks s t) < ADDRESS_SPACE_COUNT"
    and "t \<in> set (space A (pid (blocks s t)))"
  defines "p \<equiv> pid (blocks s t)"
  obtains h where "scheduler_cleanup_thread s =
      Some (s\<lparr>slots_used := (slots_used s)(p := (slots_used s p)(pid_slot (blocks s t) := False)), nodes := h\<rparr>)"
    "lists h (retire t p A)"
proof -
  let ?A = "A\<lparr>space := (space A)(p := remove1 t (space A p))\<rparr>"
  obtain h1 where h1: "k_remove_node_from_list (Some (Address_space p)) (Some (Addrspace_node t)) (nodes s) = Some h1"
      "lists h1 ?A"
    by (rule lists_remove [OF assms(1), of "Address_space p" "Addrspace_node t" ?A])
      (use assms(3,4) in \<open>auto simp: p_def\<close>)
  obtain h2 where h2: "k_transfer_list_node (Some Running_list) (Some Finished_list) (Some (Scheduler_node t)) h1 = Some h2"
      "lists h2 (?A\<lparr>running := [], finished := t # finished A\<rparr>)"
    by (rule lists_transfer_front [OF h1(2), of Running_list Finished_list "Scheduler_node t"
          "?A\<lparr>running := [], finished := t # finished A\<rparr>"]) (use assms(2) in auto)
  have "k_get_first_node (nodes s) (Some Running_list) = Some (Some (Scheduler_node t))"
    using lists_first [OF assms(1), of Running_list] assms(2) by simp
  then have "scheduler_cleanup_thread s =
      Some (s\<lparr>slots_used := (slots_used s)(p := (slots_used s p)(pid_slot (blocks s t) := False)), nodes := h2\<rparr>)"
    using h1(1) h2(1) assms(3)
    by (simp add: scheduler_cleanup_thread_def scheduler_get_address_space_list_def on_nodes_def p_def Let_def)
  with h2(2) show ?thesis by (intro that) (simp_all add: retire_def)
qed

section \<open>Creating a thread\<close>

text \<open>The control block of a thread that starts in slot \<open>i\<close> of process \<open>p\<close> with \<open>sz\<close> bytes of
  arguments on its stack.\<close>

definition started :: "env \<Rightarrow> nat \<Rightarrow> nat \<Rightarrow> u32 \<Rightarrow> u32 \<Rightarrow> tcb \<Rightarrow> tcb" where
  "started e p i func sz b =
     (let stack = VIRTUAL_PROCESS_STACKS_TOP_ADDRESS - of_nat i * STACK_SIZE - sz in
      b\<lparr>pid := p, pid_slot := i, cpsr := psr_mode_user,
        regs := (regs b)\<lparr>sp := stack, general := (general (regs b))(0 := stack),
          lr := sys_exit_thread e, pc := func\<rparr>\<rparr>)"

text \<open>The start of the arguments as the kernel sees the stack of thread \<open>t\<close>.\<close>

definition kernel_stack_pointer :: "nat \<Rightarrow> u32 \<Rightarrow> u32" where
  "kernel_stack_pointer t sz =
     USER_STACK_KERNEL_ONLY_MAPPING_START_ADDRESS + (of_nat t + 1) * MiB - sz"

definition with_slot :: "nat \<Rightarrow> nat \<Rightarrow> l2_handle \<Rightarrow> kernel \<Rightarrow> kernel" where
  "with_slot p i stack s = s\<lparr>
     process_stack_handles := (process_stack_handles s)(p := (process_stack_handles s p)(i := stack)),
     slots_used := (slots_used s)(p := (slots_used s p)(i := True))\<rparr>"

definition spawn :: "nat \<Rightarrow> nat \<Rightarrow> sched \<Rightarrow> sched" where
  "spawn t p A = A\<lparr>finished := tl (finished A), ready := ready A @ [t], space := (space A)(p := t # space A p)\<rparr>"

lemma spawn_refines:
  assumes "lists h A" "finished A = t # ts" "p < ADDRESS_SPACE_COUNT" "t < THREAD_COUNT"
    and "\<forall>q < ADDRESS_SPACE_COUNT. t \<notin> set (space A q)"
  obtains h1 h2 where
    "k_append_node_to_list (Some (Address_space p)) (Some (Addrspace_node t)) h = Some h1"
    "k_transfer_to_back (Some Finished_list) (Some Ready_list) (Some (Scheduler_node t)) h1 = Some h2"
    "lists h2 (spawn t p A)"
proof -
  let ?A = "A\<lparr>space := (space A)(p := t # space A p)\<rparr>"
  have "in_no_list heads (lists_of A) (Addrspace_node t)"
    using assms(5) by (auto simp: in_no_list_def heads_def)
  then obtain h1 where h1: "k_append_node_to_list (Some (Address_space p)) (Some (Addrspace_node t)) h = Some h1"
      "lists h1 ?A"
    by (rule lists_push_front [OF assms(1), of "Address_space p" "Addrspace_node t" ?A, rotated 2])
      (use assms(3,4) in auto)
  obtain h2 where h2: "k_transfer_to_back (Some Finished_list) (Some Ready_list) (Some (Scheduler_node t)) h1 = Some h2"
      "lists h2 (?A\<lparr>finished := ts, ready := ready A @ [t]\<rparr>)"
    by (rule lists_transfer_back [OF h1(2), of Finished_list Ready_list "Scheduler_node t"
          "?A\<lparr>finished := ts, ready := ready A @ [t]\<rparr>"]) (use assms(2) in auto)
  have "?A\<lparr>finished := ts, ready := ready A @ [t]\<rparr> = spawn t p A"
    using assms(2) by (simp add: spawn_def)
  with h1 h2 show ?thesis by (intro that) simp_all
qed

lemma copy_to_eq:
  "n = 0 \<or> src \<noteq> 0 \<and> dst \<noteq> 0 \<Longrightarrow>
    copy_to e dst src n s = Some (s\<lparr>mem := copy_bytes (translate e (l1_table s)) dst src (unat n) (mem s)\<rparr>)"
  by (auto simp: copy_to_def k_memcpy_mem_def)

lemma create_thread_refines:
  assumes "lists (nodes s) A" "finished A = t # ts" "p = pid (blocks s caller)" "p < ADDRESS_SPACE_COUNT"
    and "t < THREAD_COUNT" "tid (blocks s t) = t" "\<forall>q < ADDRESS_SPACE_COUNT. t \<notin> set (space A q)"
    and "k_align8 args_size = Some sz" "args_size = 0 \<or> args \<noteq> 0 \<and> kernel_stack_pointer t sz \<noteq> 0"
  obtains h where "scheduler_create_thread e caller i func args args_size s =
      Some ((with_slot p i (stack_handle (blocks s t)) s)
        \<lparr>blocks := (blocks s)(t := started e p i func sz (blocks s t)),
         mem := copy_bytes (translate e (l1_table s)) (kernel_stack_pointer t sz) args (unat args_size) (mem s),
         nodes := h\<rparr>)"
    "lists h (spawn t p A)"
proof -
  have ne: "k_is_list_empty (nodes s) (Some Finished_list) = Some False"
    using lists_empty [OF assms(1), of Finished_list] assms(2) by simp
  have first: "k_get_first_node (nodes s) (Some Finished_list) = Some (Some (Scheduler_node t))"
    using lists_first [OF assms(1), of Finished_list] assms(2) by simp
  obtain h1 h2 where h: "k_append_node_to_list (Some (Address_space p)) (Some (Addrspace_node t)) (nodes s) = Some h1"
      "k_transfer_to_back (Some Finished_list) (Some Ready_list) (Some (Scheduler_node t)) h1 = Some h2"
      "lists h2 (spawn t p A)"
    using spawn_refines [OF assms(1,2,4,5,7)] .
  have tid: "tid (started e p i func sz (blocks s t)) = t"
    using assms(6) by (simp add: started_def Let_def)
  have "scheduler_create_thread e caller i func args args_size s =
      Some ((with_slot p i (stack_handle (blocks s t)) s)
        \<lparr>blocks := (blocks s)(t := started e p i func sz (blocks s t)),
         mem := copy_bytes (translate e (l1_table s)) (kernel_stack_pointer t sz) args (unat args_size) (mem s),
         nodes := h2\<rparr>)"
    using h(1,2) assms(4,6,8,9) unfolding assms(3)
    by (simp add: scheduler_create_thread_def ne first scheduler_get_address_space_list_def on_nodes_def
        set_thread_def copy_to_eq Let_def with_slot_def started_def kernel_stack_pointer_def)
  with h(3) show ?thesis by (intro that)
qed

lemma create_process_refines:
  fixes e :: env
  assumes "lists (nodes s) A" "finished A = t # ts" "p < ADDRESS_SPACE_COUNT"
    and "t < THREAD_COUNT" "tid (blocks s t) = t" "\<forall>q < ADDRESS_SPACE_COUNT. t \<notin> set (space A q)"
    and "k_align8 args_size = Some sz" "args_size = 0 \<or> args \<noteq> 0 \<and> kernel_stack_pointer t sz \<noteq> 0"
  defines "m \<equiv> copy_bytes (translate e (l1_table s)) (UBSS_UDATA_SECTION_START_ADDRESS + (of_nat p + 1) * MiB)
      UBSS_UDATA_KERNEL_ORIGINAL_MAP_START_ADDRESS (unat MiB) (mem s)"
  obtains h where "scheduler_create_process e p func args args_size s =
      Some ((with_slot p 0 (stack_handle (blocks s t)) s)
        \<lparr>blocks := (blocks s)(t := started e p 0 func sz (blocks s t)),
         mem := copy_bytes (translate e (l1_table s)) (kernel_stack_pointer t sz) args (unat args_size) m,
         nodes := h\<rparr>)"
    "lists h (spawn t p A)"
proof -
  have ne: "k_is_list_empty (nodes s) (Some Finished_list) = Some False"
    using lists_empty [OF assms(1), of Finished_list] assms(2) by simp
  have first: "k_get_first_node (nodes s) (Some Finished_list) = Some (Some (Scheduler_node t))"
    using lists_first [OF assms(1), of Finished_list] assms(2) by simp
  obtain h1 h2 where h: "k_append_node_to_list (Some (Address_space p)) (Some (Addrspace_node t)) (nodes s) = Some h1"
      "k_transfer_to_back (Some Finished_list) (Some Ready_list) (Some (Scheduler_node t)) h1 = Some h2"
      "lists h2 (spawn t p A)"
    using spawn_refines [OF assms(1,2,3,4,6)] .
  have "p \<in> {0, 1, 2, 3, 4, 5, 6, 7}" using assms(3) by (auto simp: ADDRESS_SPACE_COUNT_def)
  then have "UBSS_UDATA_SECTION_START_ADDRESS + (of_nat p + 1) * MiB \<noteq> 0"
    by (auto simp: memory_map_defs)
  moreover have "UBSS_UDATA_KERNEL_ORIGINAL_MAP_START_ADDRESS \<noteq> 0" by (simp add: memory_map_defs)
  ultimately have c: "1 * MiB = 0 \<or> UBSS_UDATA_KERNEL_ORIGINAL_MAP_START_ADDRESS \<noteq> 0 \<and>
      UBSS_UDATA_SECTION_START_ADDRESS + (of_nat p + 1) * MiB \<noteq> 0" by simp
  have "scheduler_create_process e p func args args_size s =
      Some ((with_slot p 0 (stack_handle (blocks s t)) s)
        \<lparr>blocks := (blocks s)(t := started e p 0 func sz (blocks s t)),
         mem := copy_bytes (translate e (l1_table s)) (kernel_stack_pointer t sz) args (unat args_size) m,
         nodes := h2\<rparr>)"
    using h(1,2) assms(3,5,7,8) unfolding m_def
    by (simp add: scheduler_create_process_def ne first scheduler_get_address_space_list_def on_nodes_def
        set_thread_def Let_def copy_to_eq [OF c] del: mult_1 mult.left_neutral)
      (simp add: copy_to_eq with_slot_def started_def kernel_stack_pointer_def Let_def)
  with h(3) show ?thesis by (intro that)
qed

section \<open>Stalling\<close>

lemma insert_sorted_map_Scheduler_node:
  "insert_sorted_list P (Scheduler_node t) (map Scheduler_node xs) =
    map Scheduler_node (insert_sorted_list (\<lambda>x. P (Scheduler_node x)) t xs)"
  by (simp add: insert_sorted_list_def takeWhile_map dropWhile_map comp_def)

text \<open>
  How many threads wake up: the \<open>i\<close>-th of them is looked at with the value the counter has at the
  \<open>i\<close>-th read from now on, and the first one whose deadline is far enough ahead stays.
\<close>

primrec wake_count :: "env \<Rightarrow> nat \<Rightarrow> u32 list \<Rightarrow> nat" where
  "wake_count e n [] = 0"
| "wake_count e n (deadline # ds) =
     (if volatile e n (systimer_register CLO) + TOCTOU_PAD < deadline then 0
      else Suc (wake_count e (Suc n) ds))"

definition wake :: "nat \<Rightarrow> sched \<Rightarrow> sched" where
  "wake k A = A\<lparr>stalled := drop k (stalled A), ready := ready A @ take k (stalled A)\<rparr>"

lemma wake_0 [simp]: "wake 0 A = A"
  by (simp add: wake_def)

lemma interrupt_at_eq:
  "stalltimer_interrupt_at e hz d =
    (if volatile e (reads d) (systimer_register CLO) + TOCTOU_PAD < hz
     then (0, d\<lparr>reads := Suc (reads d), writes := writes d @ [(systimer_register CS, M3), (systimer_register C3, hz)]\<rparr>)
     else (- K_EINVAL, d\<lparr>reads := Suc (reads d), writes := writes d @ [(systimer_register CS, M3)]\<rparr>))"
  by (simp add: stalltimer_interrupt_at_def systimer_value_def volatile_read_def volatile_write_def Let_def)

lemma adjust_stall_timer_eq:
  assumes "lists (nodes s) A"
  shows "scheduler_adjust_stall_timer e s =
    (case stalled A of
       [] \<Rightarrow> Some (0, s\<lparr>io_regs := stalltimer_reset_pending_interrupt (io_regs s)\<rparr>)
     | t # ts \<Rightarrow> (case stalltimer_interrupt_at e (stall_until (blocks s t)) (io_regs s) of
         (r, d) \<Rightarrow> Some (r, s\<lparr>io_regs := d\<rparr>)))"
  using lists_empty [OF assms, of Stall_waiting_list] lists_first [OF assms, of Stall_waiting_list]
  by (simp add: scheduler_adjust_stall_timer_def split: list.splits)

text \<open>After the loop the compare register holds the first deadline that is left.\<close>

lemma unblock_overdue_refines:
  fixes e :: env
  assumes "lists (nodes s) A"
  defines "k \<equiv> wake_count e (reads (io_regs s)) (map (\<lambda>t. stall_until (blocks s t)) (stalled A))"
  shows "\<exists>h d. scheduler_unblock_overdue_waiting_threads e s = Some (s\<lparr>nodes := h, io_regs := d\<rparr>) \<and>
    lists h (wake k A) \<and> k \<le> length (stalled A) \<and>
    (k < length (stalled A) \<longrightarrow>
      last (writes d) = (systimer_register C3, stall_until (blocks s (stalled A ! k))))"
  using assms(1) unfolding k_def
proof (induction "stalled A" arbitrary: s A)
  case Nil
  then show ?case
    by (subst scheduler_unblock_overdue_waiting_threads.simps)
      (auto simp: adjust_stall_timer_eq intro!: exI [of _ "nodes s"])
next
  case (Cons t ts)
  note A = Cons.hyps(2) [symmetric]
  let ?hz = "stall_until (blocks s t)"
  show ?case
  proof (cases "volatile e (reads (io_regs s)) (systimer_register CLO) + TOCTOU_PAD < ?hz")
    case True
    then show ?thesis
      using Cons.prems A
      by (subst scheduler_unblock_overdue_waiting_threads.simps)
        (auto simp: adjust_stall_timer_eq interrupt_at_eq intro!: exI [of _ "nodes s"])
  next
    case False
    define d where "d = (io_regs s)\<lparr>reads := Suc (reads (io_regs s)), writes := writes (io_regs s) @ [(systimer_register CS, M3)]\<rparr>"
    have adj: "scheduler_adjust_stall_timer e s = Some (- K_EINVAL, s\<lparr>io_regs := d\<rparr>)"
      using False A by (simp add: adjust_stall_timer_eq [OF Cons.prems] interrupt_at_eq d_def)
    have first: "k_get_first_node (nodes s) (Some Stall_waiting_list) = Some (Some (Scheduler_node t))"
      using lists_first [OF Cons.prems, of Stall_waiting_list] A by simp
    let ?A = "A\<lparr>stalled := ts, ready := ready A @ [t]\<rparr>"
    obtain h where h: "k_transfer_to_back (Some Stall_waiting_list) (Some Ready_list) (Some (Scheduler_node t)) (nodes s) = Some h"
        "lists h ?A"
      by (rule lists_transfer_back [OF Cons.prems, of Stall_waiting_list Ready_list "Scheduler_node t" ?A])
        (use A in auto)
    let ?s = "s\<lparr>io_regs := d, nodes := h\<rparr>"
    have unf: "scheduler_unblock_overdue_waiting_threads e s = scheduler_unblock_overdue_waiting_threads e ?s"
      using adj first h(1)
      by (subst scheduler_unblock_overdue_waiting_threads.simps) (simp add: on_nodes_def K_EINVAL_def)
    let ?k = "wake_count e (Suc (reads (io_regs s))) (map (\<lambda>t. stall_until (blocks s t)) ts)"
    have k: "wake_count e (reads (io_regs s)) (map (\<lambda>t. stall_until (blocks s t)) (stalled A)) = Suc ?k"
      using False A by simp
    have w: "wake (Suc ?k) A = wake ?k ?A" using A by (simp add: wake_def)
    have "\<exists>h' d'. scheduler_unblock_overdue_waiting_threads e ?s = Some (?s\<lparr>nodes := h', io_regs := d'\<rparr>) \<and>
        lists h' (wake ?k ?A) \<and> ?k \<le> length ts \<and>
        (?k < length ts \<longrightarrow> last (writes d') = (systimer_register C3, stall_until (blocks s (ts ! ?k))))"
      using Cons.hyps(1) [of ?A ?s] h(2) by (simp add: d_def)
    then show ?thesis unfolding unf k w using A by auto
  qed
qed

lemma ignore_timer_refines:
  fixes e :: env and match :: u32
  assumes "lists (nodes s) A" "t \<in> set (ready A)" "t < THREAD_COUNT"
  defines "deadline \<equiv> volatile e (reads (io_regs s)) (systimer_register CLO) + match"
  defines "B \<equiv> A\<lparr>ready := remove1 t (ready A),
      stalled := insert_sorted_list (\<lambda>x. stall_until (blocks s x) \<le> deadline) t (stalled A)\<rparr>"
  shows "\<exists>h d k. scheduler_ignore_thread_until_timer_match e t match s =
      Some (set_thread t (\<lambda>b. b\<lparr>stall_until := deadline\<rparr>) s\<lparr>nodes := h, io_regs := d\<rparr>) \<and>
    lists h (wake k B) \<and> k \<le> length (stalled B) \<and>
    (hd (stalled B) \<noteq> t \<or> (\<forall>n. volatile e n (systimer_register CLO) + TOCTOU_PAD < deadline) \<longrightarrow> k = 0)"
proof -
  let ?A1 = "A\<lparr>ready := remove1 t (ready A)\<rparr>"
  obtain h1 where h1: "k_remove_node_from_list (Some Ready_list) (Some (Scheduler_node t)) (nodes s) = Some h1"
      "lists h1 ?A1" "in_no_list heads (lists_of ?A1) (Scheduler_node t)"
    by (rule lists_remove [OF assms(1), of Ready_list "Scheduler_node t" ?A1]) (use assms(2) in auto)
  define d1 where "d1 = (io_regs s)\<lparr>reads := Suc (reads (io_regs s))\<rparr>"
  define s1 where "s1 = set_thread t (\<lambda>b. b\<lparr>stall_until := deadline\<rparr>) (s\<lparr>nodes := h1, io_regs := d1\<rparr>)"
  have nt: "t \<notin> set (stalled A)"
    using h1(3) by (auto simp: in_no_list_def dest: bspec [of _ _ Stall_waiting_list])
  have cmp: "scheduler_stall_cmp s1 (Some a) (Some (Scheduler_node t)) =
      Some (case a of Scheduler_node x \<Rightarrow> stall_until (blocks s x) \<le> deadline | _ \<Rightarrow> False)"
    if "a \<in> set (lists_of ?A1 Stall_waiting_list)" for a
    using that nt by (auto simp: scheduler_stall_cmp_def s1_def set_thread_def)
  obtain h2 where h2: "k_insert_sorted (Some Stall_waiting_list) (Some (Scheduler_node t)) (scheduler_stall_cmp s1) h1 = Some h2"
      "lists h2 B"
    by (rule lists_insert_by [where cmp = "scheduler_stall_cmp s1" and B = B and l = Stall_waiting_list
          and P = "\<lambda>a. case a of Scheduler_node x \<Rightarrow> stall_until (blocks s x) \<le> deadline | _ \<Rightarrow> False",
          OF h1(2) _ _ h1(3) cmp])
      (use assms(3) in \<open>auto simp: B_def insert_sorted_map_Scheduler_node\<close>)
  have ne: "stalled B \<noteq> []" by (auto simp: B_def insert_sorted_list_def)
  then have first: "k_get_first_node h2 (Some Stall_waiting_list) = Some (Some (Scheduler_node (hd (stalled B))))"
    using lists_first [OF h2(2), of Stall_waiting_list] by (simp add: hd_map)
  let ?s2 = "s1\<lparr>nodes := h2\<rparr>"
  have l2: "lists (nodes ?s2) B" using h2(2) by simp
  have ig: "scheduler_ignore_thread_until_timer_match e t match s =
      (if hd (stalled B) = t
       then scheduler_adjust_stall_timer e ?s2 \<bind>
         (\<lambda>(r, s). if r < 0 then scheduler_unblock_overdue_waiting_threads e s else Some s)
       else Some ?s2)"
    using h1(1) h2(1) first
    by (simp add: scheduler_ignore_thread_until_timer_match_def on_nodes_def systimer_value_def
        volatile_read_def deadline_def [symmetric] d1_def [symmetric] s1_def [symmetric])
      (simp add: s1_def set_thread_def)
  show ?thesis
  proof (cases "hd (stalled B) = t")
    case False
    then show ?thesis
      using ig l2 by (intro exI [of _ h2] exI [of _ d1] exI [of _ 0]) (simp add: s1_def set_thread_def wake_def)
  next
    case True
    obtain r d2 where adj: "scheduler_adjust_stall_timer e ?s2 = Some (r, ?s2\<lparr>io_regs := d2\<rparr>)"
        "r < 0 \<longrightarrow> \<not> (\<forall>n. volatile e n (systimer_register CLO) + TOCTOU_PAD < deadline)"
      using adjust_stall_timer_eq [OF l2, of e] ne True
      by (cases "stalled B") (auto simp: interrupt_at_eq s1_def set_thread_def K_EINVAL_def split: if_splits)
    show ?thesis
    proof (cases "r < 0")
      case r: True
      from l2 have "lists (nodes (?s2\<lparr>io_regs := d2\<rparr>)) B" by simp
      from unblock_overdue_refines [OF this, of e] obtain h3 d3 k where
        "scheduler_unblock_overdue_waiting_threads e (?s2\<lparr>io_regs := d2\<rparr>) =
          Some (?s2\<lparr>io_regs := d2\<rparr>\<lparr>nodes := h3, io_regs := d3\<rparr>)" "lists h3 (wake k B)" "k \<le> length (stalled B)"
        by blast
      then show ?thesis
        using ig True adj r
        by (intro exI [of _ h3] exI [of _ d3] exI [of _ k]) (simp add: s1_def set_thread_def del: not_all)
    next
      case r: False
      then show ?thesis
        using ig True adj l2
        by (intro exI [of _ h2] exI [of _ d2] exI [of _ 0]) (simp add: s1_def set_thread_def wake_def)
    qed
  qed
qed

end
