(* ===== verification/Scheduler_Integrity.thy ===== *)
theory Scheduler_Integrity
  imports Scheduler_Spec
begin

text \<open>
  The check the scheduler runs after every context switch
  (\<^verbatim>\<open>scheduler_verify_thread_list_integrity\<close>): on lists that represent an abstract state with
  correct thread ids it passes exactly when the list of stalled threads is sorted by deadline.
\<close>

section \<open>Walking around a ring\<close>

lemma ring_links:
  assumes "ring h (as @ c # bs)"
  shows "link h (last (c # bs @ as)) c" "link h c (hd (bs @ as @ [c]))"
proof -
  have R: "ring h (c # bs @ as)" using assms ring_rotate [of h as "c # bs"] by simp
  then show "link h (last (c # bs @ as)) c" by simp
  show "link h c (hd (bs @ as @ [c]))"
  proof (cases "bs @ as")
    case Nil
    with R show ?thesis by simp
  next
    case (Cons y ys)
    with R have "link h c y" by simp
    moreover have "hd (bs @ as @ [c]) = y" using Cons by (metis append_assoc append_Cons list.sel(1))
    ultimately show ?thesis by simp
  qed
qed

definition tids_ok :: "kernel \<Rightarrow> bool" where
  "tids_ok s \<longleftrightarrow> (\<forall>t < THREAD_COUNT. tid (blocks s t) = t)"

lemma verify_nodes_eq:
  assumes "ring (nodes s) (map Scheduler_node (as @ c # bs))" "distinct (as @ c # bs)"
    and "tids_ok s" "\<forall>t \<in> set (c # bs). t < THREAD_COUNT \<and> \<not> checked t"
  shows "verify_nodes_from s (Some (Scheduler_node (hd (as @ [c])))) (Some (Scheduler_node c)) checked =
    Some (\<lambda>t. checked t \<or> t \<in> set (c # bs))"
  using assms
proof (induction bs arbitrary: as c checked)
  case Nil
  have R: "ring (nodes s) (map Scheduler_node as @ Scheduler_node c # [])" using Nil.prems(1) by simp
  have n: "nxt (nodes s (Scheduler_node c)) = Some (Scheduler_node (hd (as @ [c])))"
    using ring_neighbours(2) [OF R] by (cases as) auto
  have "k_is_list_node (nodes s) (Some (Scheduler_node c)) = Some True"
    using ring_members [OF R] by (simp add: is_list_node_Some)
  moreover obtain p where "previous (nodes s (Scheduler_node c)) = Some p" "nxt (nodes s p) = Some (Scheduler_node c)"
    using ring_links(1) [OF R] by (auto simp: link_def)
  moreover have "previous (nodes s (Scheduler_node (hd (as @ [c])))) = Some (Scheduler_node c)"
    using ring_links(2) [OF R] n by (auto simp: link_def)
  ultimately show ?case
    using n Nil.prems(3,4)
    by (subst verify_nodes_from.simps) (auto simp: load_def tids_ok_def)
next
  case (Cons b bs)
  have R: "ring (nodes s) (map Scheduler_node as @ Scheduler_node c # map Scheduler_node (b # bs))"
    using Cons.prems(1) by simp
  have n: "nxt (nodes s (Scheduler_node c)) = Some (Scheduler_node b)"
    using ring_neighbours(2) [OF R] by simp
  have v: "k_is_list_node (nodes s) (Some (Scheduler_node c)) = Some True"
    using ring_members [OF R] by (simp add: is_list_node_Some)
  obtain p where p: "previous (nodes s (Scheduler_node c)) = Some p" "nxt (nodes s p) = Some (Scheduler_node c)"
    using ring_links(1) [OF R] by (auto simp: link_def)
  have q: "previous (nodes s (Scheduler_node b)) = Some (Scheduler_node c)"
    using ring_links(2) [OF R] by (simp add: link_def)
  have ne: "b \<noteq> hd (as @ [c])" using Cons.prems(2) by (cases as) auto
  have hd_eq: "hd ((as @ [c]) @ [b]) = hd (as @ [c])" by (cases as) auto
  have "verify_nodes_from s (Some (Scheduler_node (hd ((as @ [c]) @ [b])))) (Some (Scheduler_node b)) (checked(c := True)) =
      Some (\<lambda>t. (checked(c := True)) t \<or> t \<in> set (b # bs))"
    using Cons.prems by (intro Cons.IH) auto
  moreover have "(\<lambda>t. (checked(c := True)) t \<or> t \<in> set (b # bs)) = (\<lambda>t. checked t \<or> t \<in> set (c # b # bs))"
    by auto
  moreover have "tid (blocks s c) = c" "c < THREAD_COUNT" "\<not> checked c"
    using Cons.prems(3,4) by (simp_all add: tids_ok_def)
  ultimately show ?case
    using n v p q ne unfolding hd_eq
    by (subst verify_nodes_from.simps) (simp add: load_def)
qed

lemma verify_sorted_eq:
  assumes "ring (nodes s) (map Scheduler_node (as @ c # bs))" "distinct (as @ c # bs)"
  shows "verify_sorted_from s (Some (Scheduler_node (last (c # bs)))) (Some (Scheduler_node c)) =
    (if sorted (map (\<lambda>t. stall_until (blocks s t)) (c # bs)) then Some () else None)"
  using assms
proof (induction bs arbitrary: as c)
  case Nil
  then show ?case by (subst verify_sorted_from.simps) simp
next
  case (Cons b bs)
  have R: "ring (nodes s) (map Scheduler_node as @ Scheduler_node c # map Scheduler_node (b # bs))"
    using Cons.prems(1) by simp
  have n: "nxt (nodes s (Scheduler_node c)) = Some (Scheduler_node b)"
    using ring_neighbours(2) [OF R] by simp
  have ne: "c \<noteq> last (b # bs)" using Cons.prems(2) last_in_set [of "b # bs"] by auto
  have IH: "verify_sorted_from s (Some (Scheduler_node (last (b # bs)))) (Some (Scheduler_node b)) =
      (if sorted (map (\<lambda>t. stall_until (blocks s t)) (b # bs)) then Some () else None)"
    using Cons.prems by (intro Cons.IH [of "as @ [c]"]) simp_all
  have "sorted (map (\<lambda>t. stall_until (blocks s t)) (c # b # bs)) \<longleftrightarrow>
      stall_until (blocks s c) \<le> stall_until (blocks s b) \<and>
      sorted (map (\<lambda>t. stall_until (blocks s t)) (b # bs))"
    by (auto intro: order_trans)
  then show ?case
    using n ne IH
    by (subst verify_sorted_from.simps) (simp add: load_def scheduler_stall_cmp_def)
qed

section \<open>The whole check\<close>

fun threads :: "sched \<Rightarrow> naddr \<Rightarrow> nat list" where
  "threads A Ready_list = ready A"
| "threads A Stall_waiting_list = stalled A"
| "threads A Input_waiting_list = waiting A"
| "threads A Running_list = running A"
| "threads A Finished_list = finished A"
| "threads A _ = []"

lemma lists_of_threads: "l \<in> set thread_lists \<Longrightarrow> lists_of A l = map Scheduler_node (threads A l)"
  by (auto simp: thread_lists_def)

lemma thread_lists_heads: "l \<in> set thread_lists \<Longrightarrow> l \<in> heads"
  by (auto simp: thread_lists_def)

definition stall_sorted :: "kernel \<Rightarrow> sched \<Rightarrow> bool" where
  "stall_sorted s A \<longleftrightarrow> sorted (map (\<lambda>t. stall_until (blocks s t)) (stalled A))"

lemma threads_distinct:
  assumes "lists h A" "l \<in> set thread_lists"
  shows "distinct (threads A l)" "\<forall>t \<in> set (threads A l). t < THREAD_COUNT"
  using lists_distinct [OF assms(1) thread_lists_heads [OF assms(2)]]
    lists_bound [OF assms(1) thread_lists_heads [OF assms(2)], of "Scheduler_node _"]
  by (auto simp: lists_of_threads [OF assms(2)] distinct_map)

lemma threads_disjoint:
  assumes "lists h A" "l \<in> set thread_lists" "m \<in> set thread_lists" "l \<noteq> m"
  shows "set (threads A l) \<inter> set (threads A m) = {}"
  using lists_disjoint [OF assms(1) thread_lists_heads [OF assms(2)] thread_lists_heads [OF assms(3)] assms(4)]
  by (auto simp: lists_of_threads [OF assms(2)] lists_of_threads [OF assms(3)])

lemma verify_list_eq:
  assumes "lists (nodes s) A" "tids_ok s" "l \<in> set thread_lists" "\<forall>t \<in> set (threads A l). \<not> checked t"
  shows "verify_list s l checked =
    (if l = Stall_waiting_list \<and> \<not> stall_sorted s A then None
     else Some (\<lambda>t. checked t \<or> t \<in> set (threads A l)))"
proof (cases "threads A l")
  case Nil
  then have "lists_of A l = []" using lists_of_threads [OF assms(3)] by simp
  then have "k_is_list_empty (nodes s) (Some l) = Some True"
    using lists_empty [OF assms(1) thread_lists_heads [OF assms(3)]] by simp
  moreover have "l = Stall_waiting_list \<Longrightarrow> stall_sorted s A" using Nil by (simp add: stall_sorted_def)
  ultimately show ?thesis using Nil by (simp add: verify_list_def)
next
  case (Cons c cs)
  have h: "l \<in> heads" using thread_lists_heads [OF assms(3)] .
  have L: "lists_of A l = map Scheduler_node (c # cs)" using lists_of_threads [OF assms(3)] Cons by simp
  have K: "klist (nodes s) l (map Scheduler_node (c # cs))" using lists_klist [OF assms(1) h] L by simp
  then have R: "ring (nodes s) (map Scheduler_node ([] @ c # cs))" by (simp only: klist_def append_Nil)
  have d: "distinct ([] @ c # cs)" using threads_distinct(1) [OF assms(1,3)] Cons by simp
  have e: "k_is_list_empty (nodes s) (Some l) = Some False" using list_empty_klist [OF K] by simp
  have f: "k_get_first_node (nodes s) (Some l) = Some (Some (Scheduler_node c))"
    using get_first_klist [OF K] by simp
  have g: "k_get_last_node (nodes s) (Some l) = Some (Some (Scheduler_node (last (c # cs))))"
    using get_last_klist [OF K] by (simp add: last_map)
  have v: "verify_nodes_from s (Some (Scheduler_node c)) (Some (Scheduler_node c)) checked =
      Some (\<lambda>t. checked t \<or> t \<in> set (c # cs))"
    using verify_nodes_eq [OF R d assms(2), of checked] threads_distinct(2) [OF assms(1,3)] assms(4) Cons by simp
  show ?thesis
  proof (cases "l = Stall_waiting_list")
    case False
    with e f v Cons show ?thesis by (simp add: verify_list_def)
  next
    case True
    with Cons have "stalled A = c # cs" by simp
    then show ?thesis
      using True e f g v verify_sorted_eq [OF R d] Cons
      by (simp add: verify_list_def stall_sorted_def del: last.simps)
  qed
qed

lemma integrity_eq:
  assumes "lists (nodes s) A" "tids_ok s"
  shows "scheduler_verify_thread_list_integrity s = (if stall_sorted s A then Some () else None)"
proof -
  have mem: "Running_list \<in> set thread_lists" "Ready_list \<in> set thread_lists" "Input_waiting_list \<in> set thread_lists"
    "Stall_waiting_list \<in> set thread_lists" "Finished_list \<in> set thread_lists" "distinct thread_lists"
    by (simp_all add: thread_lists_def)
  note d = threads_disjoint [OF assms(1)]
  have v: "l \<in> set thread_lists \<Longrightarrow> \<forall>t \<in> set (threads A l). \<not> checked t \<Longrightarrow>
    verify_list s l checked = (if l = Stall_waiting_list \<and> \<not> stall_sorted s A then None
     else Some (\<lambda>t. checked t \<or> t \<in> set (threads A l)))" for l checked
    by (rule verify_list_eq [OF assms])
  have "for_upto 0 5 (\<lambda>i checked. verify_list s (thread_lists ! i) checked) (\<lambda>_. False) =
      verify_list s Running_list (\<lambda>_. False) \<bind> verify_list s Ready_list \<bind>
      verify_list s Input_waiting_list \<bind> verify_list s Stall_waiting_list \<bind> verify_list s Finished_list"
    by (simp add: for_upto.simps thread_lists_def bind_assoc cong: Option.bind_cong)
  also have "\<dots> = (if stall_sorted s A then Some (\<lambda>t. \<exists>l \<in> set thread_lists. t \<in> set (threads A l)) else None)"
  proof -
    let ?c1 = "\<lambda>t. False \<or> t \<in> set (threads A Running_list)"
    let ?c2 = "\<lambda>t. ?c1 t \<or> t \<in> set (threads A Ready_list)"
    let ?c3 = "\<lambda>t. ?c2 t \<or> t \<in> set (threads A Input_waiting_list)"
    let ?c4 = "\<lambda>t. ?c3 t \<or> t \<in> set (threads A Stall_waiting_list)"
    have "verify_list s Running_list (\<lambda>_. False) = Some ?c1"
      by (subst v) (simp_all add: mem)
    moreover have "verify_list s Ready_list ?c1 = Some ?c2"
      by (subst v) (use d [OF mem(1,2)] in \<open>auto simp: mem\<close>)
    moreover have "verify_list s Input_waiting_list ?c2 = Some ?c3"
      by (subst v) (use d [OF mem(1,3)] d [OF mem(2,3)] in \<open>auto simp: mem\<close>)
    moreover have "verify_list s Stall_waiting_list ?c3 = (if stall_sorted s A then Some ?c4 else None)"
      by (subst v) (use d [OF mem(1,4)] d [OF mem(2,4)] d [OF mem(3,4)] in \<open>auto simp: mem\<close>)
    moreover have "verify_list s Finished_list ?c4 = Some (\<lambda>t. ?c4 t \<or> t \<in> set (threads A Finished_list))"
      by (subst v) (use d [OF mem(1,5)] d [OF mem(2,5)] d [OF mem(3,5)] d [OF mem(4,5)] in \<open>auto simp: mem\<close>)
    moreover have "(\<lambda>t. ?c4 t \<or> t \<in> set (threads A Finished_list)) = (\<lambda>t. \<exists>l \<in> set thread_lists. t \<in> set (threads A l))"
      by (auto simp: thread_lists_def)
    ultimately show ?thesis by (simp del: threads.simps)
  qed
  finally show ?thesis using mem(6) by (simp add: scheduler_verify_thread_list_integrity_def)
qed

end
