(* ===== verification/Scheduler_Switch.thy ===== *)
theory Scheduler_Switch
  imports Scheduler_Integrity
begin

text \<open>
  The round robin: which thread runs next, what happens to the lists, and what the context switch
  does to the saved registers, the exception frame and the translation table.
\<close>

section \<open>The address space of a process\<close>

text \<open>Entry 6 is the data section of the running process, 86 to 89 are its four stacks.\<close>

definition process_table :: "nat \<Rightarrow> kernel \<Rightarrow> nat \<Rightarrow> l1_entry" where
  "process_table p s =
     (l1_table s)(
       6 := pack_l1_section ((unpack_l1_section (l1_table s 6))\<lparr>s_base_address :=
         ucast ((UBSS_UDATA_SECTION_START_ADDRESS + (of_nat p + 1) * MiB) div MiB)\<rparr>),
       89 := pack_l2_handle (process_stack_handles s p 0),
       88 := pack_l2_handle (process_stack_handles s p 1),
       87 := pack_l2_handle (process_stack_handles s p 2),
       86 := pack_l2_handle (process_stack_handles s p 3))"

lemma base_aligned: "(UBSS_UDATA_SECTION_START_ADDRESS + (of_nat p + 1) * MiB) mod MiB = 0"
proof -
  have "UBSS_UDATA_SECTION_START_ADDRESS + (of_nat p + 1) * MiB = (of_nat p + 7) * MiB"
    by (simp add: memory_map_defs algebra_simps)
  moreover have "(x * MiB) mod MiB = 0" for x :: u32
  proof -
    have "MiB = push_bit 20 1" by (simp add: memory_map_defs)
    then have "x * MiB = push_bit 20 x" "MiB = 2 ^ 20" by (simp_all add: push_bit_eq_mult)
    moreover have "push_bit 20 x mod 2 ^ 20 = take_bit 20 (push_bit 20 x)" by (simp add: take_bit_eq_mod)
    ultimately show ?thesis by (simp add: take_bit_push_bit)
  qed
  ultimately show ?thesis by simp
qed

lemma ucast_of_nat_12: "(ucast (of_nat m :: u32) :: 12 word) = of_nat m"
proof -
  have "(4096 :: nat) dvd 4294967296" by simp
  then have "m mod 4294967296 mod 4096 = m mod 4096" by (rule mod_mod_cancel)
  then show ?thesis
    by (simp add: word_unat_eq_iff unsigned_ucast_eq unsigned_of_nat take_bit_eq_mod)
qed

lemma data_section_base:
  "(ucast ((UBSS_UDATA_SECTION_START_ADDRESS + (of_nat p + 1) * MiB) div MiB) :: 12 word) = of_nat p + 7"
proof -
  have a: "UBSS_UDATA_SECTION_START_ADDRESS + (of_nat p + 1) * MiB = push_bit 20 (of_nat p + 7)"
    by (simp add: memory_map_defs push_bit_eq_mult algebra_simps)
  have d: "x div MiB = drop_bit 20 x" for x :: u32
    by (simp add: KiB_def MiB_def drop_bit_eq_div)
  from ucast_of_nat_12 [of "p + 7"] have "(ucast (of_nat p + 7 :: u32) :: 12 word) = of_nat p + 7" by simp
  moreover have "(ucast (drop_bit 20 (push_bit 20 x)) :: 12 word) = ucast x" for x :: u32
    by (rule bit_word_eqI) (auto simp: bit_simps)
  ultimately show ?thesis unfolding a d by simp
qed

lemma less_4_cases: "i < 4 \<longleftrightarrow> i = 0 \<or> i = 1 \<or> i = 2 \<or> i = (3 :: nat)"
  by auto

lemma map_address_space_eq: "map_address_space p s = Some (s\<lparr>l1_table := process_table p s\<rparr>)"
proof -
  have idx: "unat (UBSS_UDATA_SECTION_START_ADDRESS div MiB) = 6"
    "unat (VIRTUAL_PROCESS_STACKS_TOP_ADDRESS div MiB) = 90"
    by (simp_all add: memory_map_defs)
  show ?thesis
    by (simp add: map_address_space_def idx get_l1_entry_def L1_TABLE_SIZE_def l1_section_set_base_address_def
        base_aligned THREADS_PER_ADDRESS_SPACE_def for_upto.simps map_stack_slot_def set_l1_table_entry_def
        process_table_def Let_def numeral_3_eq_3 numeral_2_eq_2)
qed

section \<open>The effect of a switch\<close>

definition switch_lists :: "sched \<Rightarrow> sched" where
  "switch_lists A =
     (let r = (if ready A = [] then [IDLE_THREAD_INDEX] else ready A)
      in A\<lparr>ready := tl r @ filter (\<lambda>t. t \<noteq> IDLE_THREAD_INDEX) (running A), running := [hd r]\<rparr>)"

definition next_thread :: "sched \<Rightarrow> nat" where
  "next_thread A = (if ready A = [] then IDLE_THREAD_INDEX else hd (ready A))"

definition save_previous :: "sched \<Rightarrow> kernel \<Rightarrow> kernel" where
  "save_previous A s = (case running A of
       r # _ \<Rightarrow> if r \<noteq> IDLE_THREAD_INDEX then scheduler_save_thread_context r s else s
     | [] \<Rightarrow> s)"

definition enter_process :: "sched \<Rightarrow> kernel \<Rightarrow> kernel" where
  "enter_process A s =
     (case running A of
        r # _ \<Rightarrow> if pid (blocks s r) = pid (blocks s (next_thread A)) then s
          else s\<lparr>l1_table := process_table (pid (blocks s (next_thread A))) s\<rparr>
      | [] \<Rightarrow> s\<lparr>l1_table := process_table (pid (blocks s (next_thread A))) s\<rparr>)"

definition switch_effect :: "sched \<Rightarrow> kernel \<Rightarrow> kernel" where
  "switch_effect A s = scheduler_switch_thread (next_thread A) (enter_process A (save_previous A s))"

lemma save_simps [simp]:
  "nodes (scheduler_save_thread_context t s) = nodes s"
  "pid (blocks (scheduler_save_thread_context t s) x) = pid (blocks s x)"
  "tid (blocks (scheduler_save_thread_context t s) x) = tid (blocks s x)"
  "stall_until (blocks (scheduler_save_thread_context t s) x) = stall_until (blocks s x)"
  "scheduler_save_thread_context t (s\<lparr>nodes := h\<rparr>) = scheduler_save_thread_context t s\<lparr>nodes := h\<rparr>"
  by (simp_all add: scheduler_save_thread_context_def set_thread_def)

lemma save_previous_nodes [simp]: "save_previous A (s\<lparr>nodes := h\<rparr>) = save_previous A s\<lparr>nodes := h\<rparr>"
  by (simp add: save_previous_def split: list.splits)

lemma save_previous_ready [simp]: "save_previous (A\<lparr>ready := r\<rparr>) s = save_previous A s"
  by (simp add: save_previous_def)

lemma save_previous_blocks [simp]:
  "pid (blocks (save_previous A s) x) = pid (blocks s x)"
  "tid (blocks (save_previous A s) x) = tid (blocks s x)"
  "stall_until (blocks (save_previous A s) x) = stall_until (blocks s x)"
  by (simp_all add: save_previous_def split: list.splits)

lemma enter_process_simps [simp]:
  "blocks (enter_process A s) = blocks s"
  "enter_process A (s\<lparr>nodes := h\<rparr>) = enter_process A s\<lparr>nodes := h\<rparr>"
  "process_stack_handles (enter_process A s) = process_stack_handles s"
  "frame (enter_process A s) = frame s"
  by (simp_all add: enter_process_def process_table_def split: list.splits)

lemma switch_thread_simps [simp]:
  "nodes (scheduler_switch_thread t s) = nodes s"
  "blocks (scheduler_switch_thread t s) = blocks s"
  "scheduler_switch_thread t (s\<lparr>nodes := h\<rparr>) = scheduler_switch_thread t s\<lparr>nodes := h\<rparr>"
  by (simp_all add: scheduler_switch_thread_def Let_def)

lemma switch_effect_blocks [simp]:
  "pid (blocks (switch_effect A s) x) = pid (blocks s x)"
  "tid (blocks (switch_effect A s) x) = tid (blocks s x)"
  "stall_until (blocks (switch_effect A s) x) = stall_until (blocks s x)"
  by (simp_all add: switch_effect_def)

section \<open>The steps of the round robin\<close>

lemma fill_ready:
  assumes "lists (nodes s) A" "IDLE_THREAD_INDEX \<notin> set (stalled A) \<union> set (waiting A) \<union> set (finished A)"
    and "ready A = [] \<Longrightarrow> IDLE_THREAD_INDEX \<notin> set (running A)"
  obtains h where
    "(if ready A = []
      then on_nodes (k_append_node_to_list (Some Ready_list) (Some (Scheduler_node scheduler_get_idle_thread))) s
      else Some s) = Some (s\<lparr>nodes := h\<rparr>)"
    "lists h (A\<lparr>ready := if ready A = [] then [IDLE_THREAD_INDEX] else ready A\<rparr>)"
proof (cases "ready A = []")
  case True
  let ?A = "A\<lparr>ready := [IDLE_THREAD_INDEX]\<rparr>"
  have "in_no_list heads (lists_of A) (Scheduler_node IDLE_THREAD_INDEX)"
    using assms(2) assms(3) [OF True] True by (auto simp: in_no_list_def heads_def)
  then obtain h where "k_append_node_to_list (Some Ready_list) (Some (Scheduler_node IDLE_THREAD_INDEX)) (nodes s) = Some h"
      "lists h ?A"
    by (rule lists_push_front [OF assms(1), of Ready_list "Scheduler_node IDLE_THREAD_INDEX" ?A, rotated 2])
      (use True in \<open>auto simp: IDLE_THREAD_INDEX_def THREAD_COUNT_def\<close>)
  then show ?thesis using that True by (simp add: on_nodes_def scheduler_get_idle_thread_def)
next
  case False
  then show ?thesis using that [of "nodes s"] assms(1) by simp
qed

lemma leave_running_refines:
  assumes "lists (nodes s) A" "length (running A) \<le> 1" "ready A \<noteq> []" "\<forall>t \<in> set (running A). t < THREAD_COUNT"
  obtains h where "leave_running s =
      Some (case running A of [] \<Rightarrow> None | r # _ \<Rightarrow> Some r, save_previous A s\<lparr>nodes := h\<rparr>)"
    "lists h (A\<lparr>running := [], ready := ready A @ filter (\<lambda>t. t \<noteq> IDLE_THREAD_INDEX) (running A)\<rparr>)"
proof (cases "running A")
  case Nil
  have "A\<lparr>running := []\<rparr> = A" using Nil by simp
  then have "lists (nodes s) (A\<lparr>running := []\<rparr>)" using assms(1) by (simp only:)
  with Nil show ?thesis
    using that [of "nodes s"] lists_empty [OF assms(1), of Running_list]
    by (simp add: leave_running_def save_previous_def)
next
  case (Cons r rs)
  with assms(2) have R: "running A = [r]" by simp
  let ?A = "A\<lparr>running := []\<rparr>"
  obtain h1 where h1: "k_remove_node_from_list (Some Running_list) (Some (Scheduler_node r)) (nodes s) = Some h1"
      "lists h1 ?A" "in_no_list heads (lists_of ?A) (Scheduler_node r)"
    by (rule lists_remove [OF assms(1), of Running_list "Scheduler_node r" ?A]) (use R in auto)
  have e: "k_is_list_empty (nodes s) (Some Running_list) = Some False"
    and f: "k_get_first_node (nodes s) (Some Running_list) = Some (Some (Scheduler_node r))"
    using lists_empty [OF assms(1), of Running_list] lists_first [OF assms(1), of Running_list] R by simp_all
  show ?thesis
  proof (cases "r = IDLE_THREAD_INDEX")
    case True
    then show ?thesis
      using that [of h1] h1(1,2) e f R
      by (simp add: leave_running_def on_nodes_def scheduler_get_idle_thread_def save_previous_def)
  next
    case False
    have rt: "r < THREAD_COUNT" using assms(4) R by simp
    let ?B = "?A\<lparr>ready := ready A @ [r]\<rparr>"
    obtain h2 where h2: "k_append_node_to_list (Some (last (lists_of ?A Ready_list))) (Some (Scheduler_node r)) h1 = Some h2"
        "lists h2 ?B"
      by (rule lists_push_back [OF h1(2) _ _ h1(3), of Ready_list ?B]) (use rt assms(3) in auto)
    have l: "k_get_last_node h1 (Some Ready_list) = Some (Some (last (lists_of ?A Ready_list)))"
      using lists_last [OF h1(2), of Ready_list] assms(3) by simp
    show ?thesis
      using that [of h2] h1(1) h2 e f l False R
      by (simp add: leave_running_def on_nodes_def scheduler_get_idle_thread_def save_previous_def)
  qed
qed

section \<open>The round robin\<close>

lemma hd_ready:
  "hd (if ready A = [] then [IDLE_THREAD_INDEX] else ready A) = next_thread A"
  by (simp add: next_thread_def)

lemma stall_sorted_cong:
  "stalled B = stalled A \<Longrightarrow> (\<And>t. stall_until (blocks s' t) = stall_until (blocks s t)) \<Longrightarrow>
    stall_sorted s' B = stall_sorted s A"
  by (simp add: stall_sorted_def)

text \<open>It passes the check at its end if and only if the stalled threads are in order.\<close>

lemma round_robin_refines:
  assumes "lists (nodes s) A" "length (running A) \<le> 1" "tids_ok s"
    and "IDLE_THREAD_INDEX \<notin> set (stalled A) \<union> set (waiting A) \<union> set (finished A)"
    and "ready A = [] \<Longrightarrow> IDLE_THREAD_INDEX \<notin> set (running A)"
    and "type = forced \<or> ready A \<noteq> [] \<or> running A = []"
  obtains h where "scheduler_round_robin e type s =
      (if stall_sorted s A then Some (switch_effect A s\<lparr>nodes := h\<rparr>) else None)"
    "lists h (switch_lists A)"
proof -
  define r where "r = (if ready A = [] then [IDLE_THREAD_INDEX] else ready A)"
  define bk where "bk = filter (\<lambda>t. t \<noteq> IDLE_THREAD_INDEX) (running A)"
  have r: "r \<noteq> []" "hd r = next_thread A" by (simp_all add: r_def next_thread_def)
  let ?n = "next_thread A"
  have rb: "\<forall>t \<in> set (running A). t < THREAD_COUNT"
    using lists_bound [OF assms(1), of Running_list "Scheduler_node _"] by auto
  have e: "k_is_list_empty (nodes s) (Some Ready_list) = Some (ready A = [])"
    "k_is_list_empty (nodes s) (Some Running_list) = Some (running A = [])"
    using lists_empty [OF assms(1), of Ready_list] lists_empty [OF assms(1), of Running_list] by simp_all
  obtain h1 where h1: "(if ready A = []
      then on_nodes (k_append_node_to_list (Some Ready_list) (Some (Scheduler_node scheduler_get_idle_thread))) s
      else Some s) = Some (s\<lparr>nodes := h1\<rparr>)" "lists h1 (A\<lparr>ready := r\<rparr>)"
    unfolding r_def by (rule fill_ready [OF assms(1,4,5)])
  have f: "k_get_first_node h1 (Some Ready_list) = Some (Some (Scheduler_node ?n))"
    using lists_first [OF h1(2), of Ready_list] r by (simp add: hd_map)
  let ?s1 = "s\<lparr>nodes := h1\<rparr>"
  obtain h2 where h2: "leave_running ?s1 =
      Some (case running A of [] \<Rightarrow> None | x # _ \<Rightarrow> Some x, save_previous A s\<lparr>nodes := h2\<rparr>)"
      "lists h2 (A\<lparr>running := [], ready := r @ bk\<rparr>)"
  proof (rule leave_running_refines [of ?s1 "A\<lparr>ready := r\<rparr>"])
    fix h assume "leave_running ?s1 = Some (case running (A\<lparr>ready := r\<rparr>) of [] \<Rightarrow> None | x # _ \<Rightarrow> Some x,
        save_previous (A\<lparr>ready := r\<rparr>) ?s1\<lparr>nodes := h\<rparr>)"
      and l: "lists h (A\<lparr>ready := r, running := [],
        ready := ready (A\<lparr>ready := r\<rparr>) @ filter (\<lambda>t. t \<noteq> IDLE_THREAD_INDEX) (running (A\<lparr>ready := r\<rparr>))\<rparr>)"
    then show thesis
      by (intro that [of h]) (simp_all add: bk_def)
  qed (use h1(2) assms(2) r rb in auto)
  let ?s2 = "save_previous A s\<lparr>nodes := h2\<rparr>"
  have enter: "(case (case running A of [] \<Rightarrow> None | x # _ \<Rightarrow> Some x) of
        None \<Rightarrow> map_address_space (pid (blocks ?s2 ?n)) ?s2
      | Some x \<Rightarrow> if pid (blocks ?s2 x) \<noteq> pid (blocks ?s2 ?n)
          then map_address_space (pid (blocks ?s2 ?n)) ?s2 else Some ?s2) =
      Some (enter_process A (save_previous A s)\<lparr>nodes := h2\<rparr>)"
    by (simp add: map_address_space_eq enter_process_def process_table_def split: list.splits)
  let ?B = "A\<lparr>ready := tl r @ bk, running := [?n]\<rparr>"
  have sl: "switch_lists A = ?B"
    using r(2) by (simp add: switch_lists_def r_def [symmetric] bk_def Let_def)
  have rm: "remove1 ?n (r @ bk) = tl r @ bk" using r by (cases r) auto
  obtain h3 where h3: "k_transfer_list_node (Some Ready_list) (Some Running_list) (Some (Scheduler_node ?n)) h2 = Some h3"
      "lists h3 ?B"
  proof (rule lists_transfer_front [OF h2(2), of Ready_list Running_list "Scheduler_node ?n" ?B])
    have "?n \<in> set r" using r hd_in_set by metis
    then show "Scheduler_node ?n \<in> set (lists_of (A\<lparr>running := [], ready := r @ bk\<rparr>) Ready_list)" by simp
    have "remove1 (Scheduler_node ?n) (map Scheduler_node (r @ bk)) = map Scheduler_node (tl r @ bk)"
      by (simp only: remove1_map_Scheduler_node rm)
    then show "lists_of ?B = (lists_of (A\<lparr>running := [], ready := r @ bk\<rparr>))
        (Ready_list := remove1 (Scheduler_node ?n) (lists_of (A\<lparr>running := [], ready := r @ bk\<rparr>) Ready_list),
         Running_list := Scheduler_node ?n # lists_of (A\<lparr>running := [], ready := r @ bk\<rparr>) Running_list)"
      by (simp add: fun_upd_twist)
  qed auto
  have check: "scheduler_verify_thread_list_integrity (switch_effect A s\<lparr>nodes := h3\<rparr>) =
      (if stall_sorted s A then Some () else None)"
  proof -
    have "tids_ok (switch_effect A s\<lparr>nodes := h3\<rparr>)" using assms(3) by (simp add: tids_ok_def)
    then have "scheduler_verify_thread_list_integrity (switch_effect A s\<lparr>nodes := h3\<rparr>) =
        (if stall_sorted (switch_effect A s\<lparr>nodes := h3\<rparr>) ?B then Some () else None)"
      using h3(2) by (intro integrity_eq) simp_all
    moreover have "stall_sorted (switch_effect A s\<lparr>nodes := h3\<rparr>) ?B = stall_sorted s A"
      by (rule stall_sorted_cong) simp_all
    ultimately show ?thesis by simp
  qed
  have go: "\<not> (type \<noteq> forced \<and> ready A = [] \<and> running A \<noteq> [])" using assms(6) by auto
  have "scheduler_round_robin e type s =
      (if stall_sorted s A then Some (switch_effect A s\<lparr>nodes := h3\<rparr>) else None)"
    unfolding scheduler_round_robin_def e bind.bind_lunit if_not_P [OF go] h1(1)
    using f h2(1) enter h3(1) check
    by (simp add: on_nodes_def switch_effect_def del: enter_process_simps)
  then show ?thesis using h3(2) sl by (intro that) simp_all
qed

lemma round_robin_continues:
  assumes "lists (nodes s) A" "ready A = []" "running A \<noteq> []"
  shows "scheduler_round_robin e normal s = Some s"
  using lists_empty [OF assms(1), of Ready_list] lists_empty [OF assms(1), of Running_list] assms(2,3)
  by (simp add: scheduler_round_robin_def)

end
