(* ===== verification/Scheduler_Invariant.thy ===== *)
theory Scheduler_Invariant
  imports Scheduler_Switch
begin

text \<open>
  The invariant of the scheduler, with its heap of nodes hidden behind the abstract state, and its
  preservation by every operation. It says that each of the 32 threads is in exactly one list,
  that at most one thread runs, that the idle thread is in no list but the running one, and that
  the process, slot and stack of every thread that is not finished belong to it alone.
\<close>

section \<open>The invariant\<close>

definition live :: "sched \<Rightarrow> nat set" where
  "live A = {..<USER_THREAD_COUNT} - set (finished A)"

definition placed :: "sched \<Rightarrow> bool" where
  "placed A \<longleftrightarrow> length (running A) \<le> 1 \<and>
     set (ready A) \<union> set (stalled A) \<union> set (waiting A) \<union> set (finished A) \<union>
       (set (running A) - {IDLE_THREAD_INDEX}) = {..<USER_THREAD_COUNT}"

definition owned :: "kernel \<Rightarrow> sched \<Rightarrow> bool" where
  "owned s A \<longleftrightarrow>
     (\<forall>t \<in> live A. pid (blocks s t) < ADDRESS_SPACE_COUNT \<and>
        pid_slot (blocks s t) < THREADS_PER_ADDRESS_SPACE \<and> cpsr (blocks s t) = psr_mode_user \<and>
        process_stack_handles s (pid (blocks s t)) (pid_slot (blocks s t)) = stack_handle (blocks s t)) \<and>
     inj_on (\<lambda>t. (pid (blocks s t), pid_slot (blocks s t))) (live A) \<and>
     (\<forall>p < ADDRESS_SPACE_COUNT. set (space A p) = {t \<in> live A. pid (blocks s t) = p}) \<and>
     (\<forall>p < ADDRESS_SPACE_COUNT. \<forall>i < THREADS_PER_ADDRESS_SPACE.
        slots_used s p i \<longleftrightarrow> (\<exists>t \<in> live A. pid (blocks s t) = p \<and> pid_slot (blocks s t) = i))"

definition idle_ok :: "kernel \<Rightarrow> bool" where
  "idle_ok s \<longleftrightarrow> pid (blocks s IDLE_THREAD_INDEX) = ADDRESS_SPACE_COUNT \<and>
     cpsr (blocks s IDLE_THREAD_INDEX) = psr_mode_system"

definition stacks_ok :: "env \<Rightarrow> kernel \<Rightarrow> bool" where
  "stacks_ok e s \<longleftrightarrow>
     (\<forall>t < USER_THREAD_COUNT. get_nth_stack_handle e t = Some (stack_handle (blocks s t)))"

definition scheduler_ok :: "env \<Rightarrow> kernel \<Rightarrow> sched \<Rightarrow> bool" where
  "scheduler_ok e s A \<longleftrightarrow>
     lists (nodes s) A \<and> tids_ok s \<and> placed A \<and> owned s A \<and> idle_ok s \<and> stacks_ok e s"

lemma scheduler_okD:
  assumes "scheduler_ok e s A"
  shows "lists (nodes s) A" "tids_ok s" "placed A" "owned s A" "idle_ok s" "stacks_ok e s"
  using assms by (simp_all add: scheduler_ok_def)

lemma idle_not_user: "IDLE_THREAD_INDEX \<notin> {..<USER_THREAD_COUNT}"
  by (simp add: IDLE_THREAD_INDEX_def)

lemma placed_idle:
  assumes "placed A"
  shows "IDLE_THREAD_INDEX \<notin> set (ready A)" "IDLE_THREAD_INDEX \<notin> set (stalled A)"
    "IDLE_THREAD_INDEX \<notin> set (waiting A)" "IDLE_THREAD_INDEX \<notin> set (finished A)"
  using assms idle_not_user by (auto simp: placed_def)

lemma placed_bound:
  assumes "placed A" "t \<in> set (ready A) \<union> set (stalled A) \<union> set (waiting A) \<union> set (finished A)"
  shows "t < USER_THREAD_COUNT" "t < THREAD_COUNT"
proof -
  have "t \<in> {..<USER_THREAD_COUNT}" using assms unfolding placed_def by blast
  then show "t < USER_THREAD_COUNT" "t < THREAD_COUNT" by (simp_all add: THREAD_COUNT_def)
qed

text \<open>The threads in different lists are different.\<close>

lemma lists_threads_disjoint:
  assumes "lists h A"
  shows "set (ready A) \<inter> set (running A) = {}"
    "set (ready A) \<inter> set (finished A) = {}"
    "set (running A) \<inter> set (finished A) = {}"
    "set (waiting A) \<inter> set (finished A) = {}"
    "set (stalled A) \<inter> set (finished A) = {}"
    "set (ready A) \<inter> set (stalled A) = {}"
    "set (ready A) \<inter> set (waiting A) = {}"
    "set (running A) \<inter> set (stalled A) = {}"
    "set (running A) \<inter> set (waiting A) = {}"
    "set (stalled A) \<inter> set (waiting A) = {}"
proof -
  have d: "l \<in> set thread_lists \<Longrightarrow> m \<in> set thread_lists \<Longrightarrow> l \<noteq> m \<Longrightarrow>
      set (threads A l) \<inter> set (threads A m) = {}" for l m
    by (rule threads_disjoint [OF assms])
  show "set (ready A) \<inter> set (running A) = {}"
    using d [of Ready_list Running_list] by (simp add: thread_lists_def)
  show "set (ready A) \<inter> set (finished A) = {}"
    using d [of Ready_list Finished_list] by (simp add: thread_lists_def)
  show "set (running A) \<inter> set (finished A) = {}"
    using d [of Running_list Finished_list] by (simp add: thread_lists_def)
  show "set (waiting A) \<inter> set (finished A) = {}"
    using d [of Input_waiting_list Finished_list] by (simp add: thread_lists_def)
  show "set (stalled A) \<inter> set (finished A) = {}"
    using d [of Stall_waiting_list Finished_list] by (simp add: thread_lists_def)
  show "set (ready A) \<inter> set (stalled A) = {}"
    using d [of Ready_list Stall_waiting_list] by (simp add: thread_lists_def)
  show "set (ready A) \<inter> set (waiting A) = {}"
    using d [of Ready_list Input_waiting_list] by (simp add: thread_lists_def)
  show "set (running A) \<inter> set (stalled A) = {}"
    using d [of Running_list Stall_waiting_list] by (simp add: thread_lists_def)
  show "set (running A) \<inter> set (waiting A) = {}"
    using d [of Running_list Input_waiting_list] by (simp add: thread_lists_def)
  show "set (stalled A) \<inter> set (waiting A) = {}"
    using d [of Stall_waiting_list Input_waiting_list] by (simp add: thread_lists_def)
qed

lemma lists_threads_distinct:
  assumes "lists h A"
  shows "distinct (ready A)" "distinct (stalled A)" "distinct (waiting A)" "distinct (running A)" "distinct (finished A)"
  using threads_distinct(1) [OF assms, of Ready_list] threads_distinct(1) [OF assms, of Stall_waiting_list]
    threads_distinct(1) [OF assms, of Input_waiting_list] threads_distinct(1) [OF assms, of Running_list]
    threads_distinct(1) [OF assms, of Finished_list]
  by (simp_all add: thread_lists_def)

section \<open>Operations that only move threads\<close>

definition same_owner :: "kernel \<Rightarrow> kernel \<Rightarrow> bool" where
  "same_owner s s' \<longleftrightarrow>
     (\<forall>t. pid (blocks s' t) = pid (blocks s t) \<and> pid_slot (blocks s' t) = pid_slot (blocks s t) \<and>
       cpsr (blocks s' t) = cpsr (blocks s t) \<and> tid (blocks s' t) = tid (blocks s t) \<and>
       stack_handle (blocks s' t) = stack_handle (blocks s t)) \<and>
     process_stack_handles s' = process_stack_handles s \<and> slots_used s' = slots_used s"

lemma same_owner_refl [simp]: "same_owner s s"
  by (simp add: same_owner_def)

lemma same_owner_trans: "same_owner s s' \<Longrightarrow> same_owner s' s'' \<Longrightarrow> same_owner s s''"
  by (simp add: same_owner_def)

lemma scheduler_ok_move:
  assumes "scheduler_ok e s A" "lists (nodes s') B" "same_owner s s'" "placed B"
    and "finished B = finished A" "space B = space A"
  shows "scheduler_ok e s' B"
proof -
  have "live B = live A" using assms(5) by (simp add: live_def)
  then show ?thesis
    using assms by (simp add: scheduler_ok_def owned_def same_owner_def tids_ok_def idle_ok_def stacks_ok_def)
qed

lemma same_owner_simps [simp]:
  "same_owner s (t\<lparr>nodes := h\<rparr>) = same_owner s t"
  "same_owner s (t\<lparr>io_regs := d\<rparr>) = same_owner s t"
  "same_owner s (t\<lparr>frame := f\<rparr>) = same_owner s t"
  "same_owner s (t\<lparr>cpu_regs := c\<rparr>) = same_owner s t"
  "same_owner s (t\<lparr>mem := m\<rparr>) = same_owner s t"
  "same_owner s (t\<lparr>cache := k\<rparr>) = same_owner s t"
  "same_owner s (t\<lparr>l1_table := l\<rparr>) = same_owner s t"
  by (simp_all add: same_owner_def)

lemma scheduler_ok_irrelevant [simp]:
  "scheduler_ok e (s\<lparr>io_regs := d\<rparr>) A = scheduler_ok e s A"
  "scheduler_ok e (s\<lparr>frame := f\<rparr>) A = scheduler_ok e s A"
  "scheduler_ok e (s\<lparr>cpu_regs := c\<rparr>) A = scheduler_ok e s A"
  "scheduler_ok e (s\<lparr>mem := m\<rparr>) A = scheduler_ok e s A"
  "scheduler_ok e (s\<lparr>cache := k\<rparr>) A = scheduler_ok e s A"
  "scheduler_ok e (s\<lparr>l1_table := l\<rparr>) A = scheduler_ok e s A"
  by (simp_all add: scheduler_ok_def tids_ok_def owned_def idle_ok_def stacks_ok_def)

lemma same_owner_set_thread [simp]:
  "same_owner s (set_thread t (\<lambda>b. b\<lparr>stall_until := w\<rparr>) s)"
  "same_owner s (set_thread t (\<lambda>b. b\<lparr>regs := f (regs b)\<rparr>) s)"
  by (simp_all add: same_owner_def set_thread_def)

lemma same_owner_switch [simp]: "same_owner s (switch_effect A s)"
proof -
  have "same_owner s (scheduler_save_thread_context t s)" for t
    by (simp add: same_owner_def scheduler_save_thread_context_def set_thread_def)
  then have "same_owner s (save_previous A s)" by (simp add: save_previous_def split: list.splits)
  moreover have "same_owner s' (enter_process A s')" for s'
    by (simp add: enter_process_def split: list.splits)
  moreover have "same_owner s' (scheduler_switch_thread t s')" for s' t
    by (simp add: same_owner_def scheduler_switch_thread_def Let_def)
  ultimately show ?thesis unfolding switch_effect_def by (meson same_owner_trans)
qed

subsection \<open>Waking and waiting\<close>

lemma placed_wake: "placed A \<Longrightarrow> placed (wake k A)"
proof -
  assume "placed A"
  moreover have "set (take k xs) \<union> set (drop k xs) = set xs" for xs :: "nat list"
    by (metis append_take_drop_id set_append)
  ultimately show ?thesis by (auto simp: placed_def wake_def)
qed

lemma wake_simps [simp]:
  "finished (wake k A) = finished A" "space (wake k A) = space A" "running (wake k A) = running A"
  "waiting (wake k A) = waiting A"
  by (simp_all add: wake_def)

lemma unblock_overdue_ok:
  assumes "scheduler_ok e s A"
  obtains s' k where "scheduler_unblock_overdue_waiting_threads e s = Some s'" "scheduler_ok e s' (wake k A)"
    "blocks s' = blocks s" "cache s' = cache s" "frame s' = frame s" "cpu_regs s' = cpu_regs s"
proof -
  obtain h d k where h: "scheduler_unblock_overdue_waiting_threads e s = Some (s\<lparr>nodes := h, io_regs := d\<rparr>)"
      "lists h (wake k A)"
    using unblock_overdue_refines [OF scheduler_okD(1) [OF assms], of e] by blast
  have "scheduler_ok e (s\<lparr>nodes := h, io_regs := d\<rparr>) (wake k A)"
    by (rule scheduler_ok_move [OF assms]) (use h(2) placed_wake scheduler_okD(3) [OF assms] in simp_all)
  from that [OF h(1) this] show ?thesis by simp
qed

lemma ignore_input_ok:
  assumes "scheduler_ok e s A" "t \<in> set (ready A)"
  obtains s' where "scheduler_ignore_thread_until_character_input t s = Some s'"
    "scheduler_ok e s' (A\<lparr>ready := remove1 t (ready A), waiting := waiting A @ [t]\<rparr>)"
    "blocks s' = blocks s"
proof -
  let ?B = "A\<lparr>ready := remove1 t (ready A), waiting := waiting A @ [t]\<rparr>"
  obtain h where h: "scheduler_ignore_thread_until_character_input t s = Some (s\<lparr>nodes := h\<rparr>)" "lists h ?B"
    using ignore_input_refines [OF scheduler_okD(1) [OF assms(1)] assms(2)] .
  have "placed ?B"
    using scheduler_okD(3) [OF assms(1)] assms(2) lists_threads_distinct(1) [OF scheduler_okD(1) [OF assms(1)]]
    by (auto simp: placed_def)
  then have "scheduler_ok e (s\<lparr>nodes := h\<rparr>) ?B"
    by (intro scheduler_ok_move [OF assms(1)]) (use h(2) in simp_all)
  from that [OF h(1) this] show ?thesis by simp
qed

lemma unblock_input_ok:
  assumes "scheduler_ok e s A" "waiting A = t # ts"
  obtains s' where "scheduler_unblock_first_input_waiting_thread ch s = Some s'"
    "scheduler_ok e s' (A\<lparr>waiting := ts, ready := ready A @ [t]\<rparr>)"
    "\<forall>x. stall_until (blocks s' x) = stall_until (blocks s x)" "cache s' = cache s" "frame s' = frame s" "cpu_regs s' = cpu_regs s"
    "general (regs (blocks s' t)) 0 = ucast ch"
proof -
  let ?B = "A\<lparr>waiting := ts, ready := ready A @ [t]\<rparr>"
  obtain h where h: "scheduler_unblock_first_input_waiting_thread ch s =
      Some (set_thread t (\<lambda>t. t\<lparr>regs := (regs t)\<lparr>general := (general (regs t))(0 := ucast ch)\<rparr>\<rparr>) s\<lparr>nodes := h\<rparr>)"
    "lists h ?B"
    using unblock_input_refines [OF scheduler_okD(1) [OF assms(1)] assms(2)] .
  have "placed ?B" using scheduler_okD(3) [OF assms(1)] assms(2) by (auto simp: placed_def)
  then have "scheduler_ok e (set_thread t (\<lambda>t. t\<lparr>regs := (regs t)\<lparr>general := (general (regs t))(0 := ucast ch)\<rparr>\<rparr>) s\<lparr>nodes := h\<rparr>) ?B"
    by (intro scheduler_ok_move [OF assms(1)])
      (use h(2) in \<open>simp_all add: same_owner_set_thread(2) [where f = "\<lambda>r. r\<lparr>general := (general r)(0 := ucast ch)\<rparr>"]\<close>)
  from that [OF h(1) this] show ?thesis by (auto simp: set_thread_def)
qed

lemma placed_stall:
  assumes "placed A" "t \<in> set (ready A)" "distinct (ready A)"
  shows "placed (A\<lparr>ready := remove1 t (ready A), stalled := insert_sorted_list P t (stalled A)\<rparr>)"
  using assms by (auto simp: placed_def)

text \<open>The new deadline, and who is woken: nobody unless the new thread is the first of its list.\<close>

lemma ignore_timer_ok:
  fixes match :: u32
  assumes "scheduler_ok e s A" "t \<in> set (ready A)"
  defines "deadline \<equiv> volatile e (reads (io_regs s)) (systimer_register CLO) + match"
  defines "B \<equiv> A\<lparr>ready := remove1 t (ready A),
      stalled := insert_sorted_list (\<lambda>x. stall_until (blocks s x) \<le> deadline) t (stalled A)\<rparr>"
  obtains s' k where "scheduler_ignore_thread_until_timer_match e t match s = Some s'"
    "scheduler_ok e s' (wake k B)"
    "hd (stalled B) \<noteq> t \<or> (\<forall>n. volatile e n (systimer_register CLO) + TOCTOU_PAD < deadline) \<Longrightarrow> k = 0"
    "\<And>x. stall_until (blocks s' x) = (if x = t then deadline else stall_until (blocks s x))"
proof -
  have t: "t < THREAD_COUNT" using placed_bound(2) [OF scheduler_okD(3) [OF assms(1)]] assms(2) by blast
  obtain h d k where h: "scheduler_ignore_thread_until_timer_match e t match s =
      Some (set_thread t (\<lambda>b. b\<lparr>stall_until := deadline\<rparr>) s\<lparr>nodes := h, io_regs := d\<rparr>)"
      "lists h (wake k B)"
      "hd (stalled B) \<noteq> t \<or> (\<forall>n. volatile e n (systimer_register CLO) + TOCTOU_PAD < deadline) \<Longrightarrow> k = 0"
    using ignore_timer_refines [OF scheduler_okD(1) [OF assms(1)] assms(2) t, of e match]
    unfolding deadline_def [symmetric] B_def [symmetric] by blast
  have "placed (wake k B)"
    using placed_stall [OF scheduler_okD(3) [OF assms(1)] assms(2)]
      lists_threads_distinct(1) [OF scheduler_okD(1) [OF assms(1)]] by (simp add: B_def placed_wake)
  then have "scheduler_ok e (set_thread t (\<lambda>b. b\<lparr>stall_until := deadline\<rparr>) s\<lparr>nodes := h, io_regs := d\<rparr>) (wake k B)"
    by (intro scheduler_ok_move [OF assms(1)]) (use h(2) in \<open>simp_all add: B_def\<close>)
  from that [OF h(1) this h(3)] show thesis by (simp add: set_thread_def)
qed

subsection \<open>The round robin\<close>

lemma placed_switch:
  assumes "placed A" "ready A = [] \<Longrightarrow> IDLE_THREAD_INDEX \<notin> set (running A)"
  shows "placed (switch_lists A)"
proof -
  define r where "r = (if ready A = [] then [IDLE_THREAD_INDEX] else ready A)"
  have r: "set (tl r) \<union> ({hd r} - {IDLE_THREAD_INDEX}) = set (ready A)"
  proof (cases "ready A")
    case (Cons x xs)
    then have "x \<noteq> IDLE_THREAD_INDEX" using placed_idle(1) [OF assms(1)] by auto
    with Cons show ?thesis by (auto simp: r_def)
  qed (simp add: r_def)
  have f: "set (filter (\<lambda>t. t \<noteq> IDLE_THREAD_INDEX) (running A)) = set (running A) - {IDLE_THREAD_INDEX}" by auto
  show ?thesis
    using assms(1) r f by (simp add: placed_def switch_lists_def r_def [symmetric] Let_def) blast
qed

lemma switch_lists_simps [simp]:
  "finished (switch_lists A) = finished A" "space (switch_lists A) = space A"
  "stalled (switch_lists A) = stalled A" "waiting (switch_lists A) = waiting A"
  "running (switch_lists A) = [next_thread A]"
  by (simp_all add: switch_lists_def Let_def next_thread_def)

lemma round_robin_ok:
  assumes "scheduler_ok e s A" "stall_sorted s A"
    and "ready A = [] \<Longrightarrow> IDLE_THREAD_INDEX \<notin> set (running A)"
    and "type = forced \<or> ready A \<noteq> [] \<or> running A = []"
  obtains s' h where "scheduler_round_robin e type s = Some s'" "s' = switch_effect A s\<lparr>nodes := h\<rparr>"
    "scheduler_ok e s' (switch_lists A)"
proof -
  note D = scheduler_okD [OF assms(1)]
  have idle: "IDLE_THREAD_INDEX \<notin> set (stalled A) \<union> set (waiting A) \<union> set (finished A)"
    using placed_idle [OF D(3)] by blast
  have len: "length (running A) \<le> 1" using D(3) by (simp add: placed_def)
  obtain h where h: "scheduler_round_robin e type s =
      (if stall_sorted s A then Some (switch_effect A s\<lparr>nodes := h\<rparr>) else None)" "lists h (switch_lists A)"
    using round_robin_refines [OF D(1) len D(2) idle assms(3,4)] .
  have "scheduler_ok e (switch_effect A s\<lparr>nodes := h\<rparr>) (switch_lists A)"
    by (rule scheduler_ok_move [OF assms(1)]) (use h(2) placed_switch [OF D(3) assms(3)] in simp_all)
  then show thesis using h(1) assms(2) by (intro that) auto
qed

text \<open>Out of order, it halts.\<close>

lemma round_robin_halts:
  assumes "scheduler_ok e s A" "\<not> stall_sorted s A"
    and "ready A = [] \<Longrightarrow> IDLE_THREAD_INDEX \<notin> set (running A)"
    and "type = forced \<or> ready A \<noteq> [] \<or> running A = []"
  shows "scheduler_round_robin e type s = None"
proof -
  note D = scheduler_okD [OF assms(1)]
  have idle: "IDLE_THREAD_INDEX \<notin> set (stalled A) \<union> set (waiting A) \<union> set (finished A)"
    using placed_idle [OF D(3)] by blast
  have len: "length (running A) \<le> 1" using D(3) by (simp add: placed_def)
  show ?thesis
    using round_robin_refines [OF D(1) len D(2) idle assms(3,4), of e] assms(2) by auto
qed

section \<open>Operations that change the owner\<close>

lemma live_running:
  assumes "scheduler_ok e s A" "running A = [t]" "t \<noteq> IDLE_THREAD_INDEX"
  shows "t \<in> live A" "t < USER_THREAD_COUNT"
proof -
  note D = scheduler_okD [OF assms(1)]
  have "t \<in> {..<USER_THREAD_COUNT}" using D(3) assms(2,3) unfolding placed_def by auto
  moreover have "t \<notin> set (finished A)" using lists_threads_disjoint(3) [OF D(1)] assms(2) by auto
  ultimately show "t \<in> live A" "t < USER_THREAD_COUNT" by (simp_all add: live_def)
qed

lemma owned_retire:
  assumes "owned s A" "t \<in> live A" "p = pid (blocks s t)" "\<forall>p < ADDRESS_SPACE_COUNT. distinct (space A p)"
    and "blocks s' = blocks s" "process_stack_handles s' = process_stack_handles s"
    and "slots_used s' = (slots_used s)(p := (slots_used s p)(pid_slot (blocks s t) := False))"
    and "live B = live A - {t}" "space B = (space A)(p := remove1 t (space A p))"
  shows "owned s' B"
proof -
  have inj: "u = v" if "u \<in> live A" "v \<in> live A" "pid (blocks s u) = pid (blocks s v)"
      "pid_slot (blocks s u) = pid_slot (blocks s v)" for u v
    using assms(1) that by (auto simp: owned_def inj_on_def)
  have sp: "set (space B q) = {u \<in> live B. pid (blocks s' u) = q}" if "q < ADDRESS_SPACE_COUNT" for q
    using assms(1,3,4,5,8,9) that by (auto simp: owned_def)
  have sl: "slots_used s' q i \<longleftrightarrow> (\<exists>u \<in> live B. pid (blocks s' u) = q \<and> pid_slot (blocks s' u) = i)"
    if "q < ADDRESS_SPACE_COUNT" "i < THREADS_PER_ADDRESS_SPACE" for q i
  proof -
    have "slots_used s q i \<longleftrightarrow> (\<exists>u \<in> live A. pid (blocks s u) = q \<and> pid_slot (blocks s u) = i)"
      using assms(1) that by (simp add: owned_def)
    then show ?thesis using assms(2,3,5,7,8) inj by (auto split: if_splits)
  qed
  have "inj_on (\<lambda>t. (pid (blocks s' t), pid_slot (blocks s' t))) (live B)"
    using assms(1,5,8) by (auto simp: owned_def intro: inj_on_subset)
  moreover have "\<forall>u \<in> live B. pid (blocks s' u) < ADDRESS_SPACE_COUNT \<and>
      pid_slot (blocks s' u) < THREADS_PER_ADDRESS_SPACE \<and> cpsr (blocks s' u) = psr_mode_user \<and>
      process_stack_handles s' (pid (blocks s' u)) (pid_slot (blocks s' u)) = stack_handle (blocks s' u)"
    using assms(1,5,6,8) by (simp add: owned_def)
  ultimately show ?thesis using sp sl unfolding owned_def by blast
qed

lemma cleanup_ok:
  assumes "scheduler_ok e s A" "running A = [t]" "t \<noteq> IDLE_THREAD_INDEX"
  obtains s' where "scheduler_cleanup_thread s = Some s'"
    "scheduler_ok e s' (retire t (pid (blocks s t)) A)" "blocks s' = blocks s"
proof -
  note D = scheduler_okD [OF assms(1)]
  have t: "t \<in> live A" "t < USER_THREAD_COUNT" using live_running [OF assms] .
  let ?p = "pid (blocks s t)"
  let ?B = "retire t ?p A"
  have p: "?p < ADDRESS_SPACE_COUNT" "t \<in> set (space A ?p)" using D(4) t(1) by (auto simp: owned_def)
  obtain h where h: "scheduler_cleanup_thread s =
      Some (s\<lparr>slots_used := (slots_used s)(?p := (slots_used s ?p)(pid_slot (blocks s t) := False)), nodes := h\<rparr>)"
      "lists h ?B"
    using cleanup_refines [OF D(1) assms(2) p] .
  let ?s = "s\<lparr>slots_used := (slots_used s)(?p := (slots_used s ?p)(pid_slot (blocks s t) := False)), nodes := h\<rparr>"
  have lv: "live ?B = live A - {t}" using t by (auto simp: live_def retire_def)
  have "\<forall>q < ADDRESS_SPACE_COUNT. distinct (space A q)"
  proof (intro allI impI)
    fix q assume "q < ADDRESS_SPACE_COUNT"
    then show "distinct (space A q)" using lists_distinct [OF D(1), of "Address_space q"] by (simp add: distinct_map)
  qed
  then have "owned ?s ?B"
    by (intro owned_retire [OF D(4) t(1) refl]) (simp_all add: lv, simp add: retire_def)
  moreover have "placed ?B" using D(3) assms(2,3) t(2) by (auto simp: placed_def retire_def)
  ultimately have "scheduler_ok e ?s ?B"
    using D(2,5,6) h(2) by (simp add: scheduler_ok_def tids_ok_def idle_ok_def stacks_ok_def)
  from that [OF h(1) this] show thesis by simp
qed

lemma owned_spawn:
  assumes "owned s A" "t \<notin> live A" "p < ADDRESS_SPACE_COUNT" "i < THREADS_PER_ADDRESS_SPACE"
    and "\<not> slots_used s p i"
    and "\<And>u. u \<noteq> t \<Longrightarrow> blocks s' u = blocks s u"
    and "pid (blocks s' t) = p" "pid_slot (blocks s' t) = i" "cpsr (blocks s' t) = psr_mode_user"
    and "process_stack_handles s' = (process_stack_handles s)(p := (process_stack_handles s p)(i := stack_handle (blocks s' t)))"
    and "slots_used s' = (slots_used s)(p := (slots_used s p)(i := True))"
    and "live B = insert t (live A)" "space B = (space A)(p := t # space A p)"
  shows "owned s' B"
proof -
  have old: "blocks s' u = blocks s u" if "u \<in> live A" for u using assms(2,6) that by metis
  have free: "\<not> (pid (blocks s u) = p \<and> pid_slot (blocks s u) = i)" if "u \<in> live A" for u
    using assms(1,3,4,5) that by (auto simp: owned_def)
  have A: "pid (blocks s u) < ADDRESS_SPACE_COUNT \<and> pid_slot (blocks s u) < THREADS_PER_ADDRESS_SPACE \<and>
      cpsr (blocks s u) = psr_mode_user \<and>
      process_stack_handles s (pid (blocks s u)) (pid_slot (blocks s u)) = stack_handle (blocks s u)"
    if "u \<in> live A" for u using assms(1) that by (simp add: owned_def)
  have "pid (blocks s' u) < ADDRESS_SPACE_COUNT \<and> pid_slot (blocks s' u) < THREADS_PER_ADDRESS_SPACE \<and>
      cpsr (blocks s' u) = psr_mode_user \<and>
      process_stack_handles s' (pid (blocks s' u)) (pid_slot (blocks s' u)) = stack_handle (blocks s' u)"
    if "u \<in> live B" for u
  proof (cases "u = t")
    case True
    then show ?thesis using assms(3,4,7-10) by simp
  next
    case False
    then have u: "u \<in> live A" using that assms(12) by simp
    then show ?thesis using A [OF u] free [OF u] old [OF u] assms(10) by auto
  qed
  moreover have "inj_on (\<lambda>t. (pid (blocks s' t), pid_slot (blocks s' t))) (live B)"
  proof -
    have "inj_on (\<lambda>t. (pid (blocks s' t), pid_slot (blocks s' t))) (live A)"
      using assms(1) old by (auto simp: owned_def inj_on_def)
    moreover have "(p, i) \<notin> (\<lambda>t. (pid (blocks s' t), pid_slot (blocks s' t))) ` (live A - {t})"
      using free old by force
    ultimately show ?thesis using assms(7,8,12) by simp
  qed
  moreover have "set (space B q) = {u \<in> live B. pid (blocks s' u) = q}" if "q < ADDRESS_SPACE_COUNT" for q
  proof -
    have "set (space A q) = {u \<in> live A. pid (blocks s u) = q}" using assms(1) that by (simp add: owned_def)
    then show ?thesis using assms(2,7,12,13) old by auto
  qed
  moreover have "slots_used s' q j \<longleftrightarrow> (\<exists>u \<in> live B. pid (blocks s' u) = q \<and> pid_slot (blocks s' u) = j)"
    if "q < ADDRESS_SPACE_COUNT" "j < THREADS_PER_ADDRESS_SPACE" for q j
  proof -
    have "slots_used s q j \<longleftrightarrow> (\<exists>u \<in> live A. pid (blocks s u) = q \<and> pid_slot (blocks s u) = j)"
      using assms(1) that by (simp add: owned_def)
    then show ?thesis using assms(7,8,11,12) old by auto
  qed
  ultimately show ?thesis unfolding owned_def by blast
qed

text \<open>Sizes of arguments the system calls let through.\<close>

lemma align8_small:
  assumes "n \<le> STACK_SIZE"
  obtains sz where "k_align8 n = Some sz" "unat sz \<le> 1048576" "unat n \<le> unat sz"
proof -
  have n: "unat n \<le> 1048576" using assms by (simp add: memory_map_defs word_le_nat_alt)
  then have "n \<le> UINT_MAX - 8" by (simp add: UINT_MAX_def word_le_nat_alt)
  from k_align8_Some [OF this] obtain r where
    "k_align8 n = Some r \<and> unat r mod 8 = 0 \<and> n \<le> r \<and> unat r < unat n + 8" by (rule exE)
  then have r: "k_align8 n = Some r" "unat r mod 8 = 0" "n \<le> r" "unat r < unat n + 8" by simp_all
  have "unat r \<le> 1048576"
  proof (rule ccontr)
    assume "\<not> unat r \<le> 1048576"
    then have "1048576 < unat r \<and> unat r < 1048576 + 8" using r(4) n by simp
    then show False using r(2) by presburger
  qed
  with r show thesis by (intro that) (simp_all add: word_le_nat_alt)
qed

lemma kernel_stack_pointer_unat:
  assumes "t < USER_THREAD_COUNT" "unat sz \<le> 1048576"
  shows "unat (kernel_stack_pointer t sz) = (90 + t + 1) * 1048576 - unat sz"
proof -
  have t: "t < 32" using assms(1) by (simp add: USER_THREAD_COUNT_def)
  have "unat (of_nat t :: u32) = t" using t by (simp add: unat_of_nat)
  then have t1: "unat (of_nat t + 1 :: u32) = t + 1" using t by (simp add: unat_word_ariths)
  have "unat MiB = 1048576" by (simp add: memory_map_defs)
  then have m: "unat ((of_nat t + 1) * MiB) = (t + 1) * 1048576"
    using t unfolding unat_word_ariths(2) t1 by simp
  have u: "unat USER_STACK_KERNEL_ONLY_MAPPING_START_ADDRESS = 90 * 1048576" by (simp add: memory_map_defs)
  have a: "unat (USER_STACK_KERNEL_ONLY_MAPPING_START_ADDRESS + (of_nat t + 1) * MiB) = (90 + t + 1) * 1048576"
    using t unfolding unat_word_ariths(1) [of USER_STACK_KERNEL_ONLY_MAPPING_START_ADDRESS] m u by simp
  then have "sz \<le> USER_STACK_KERNEL_ONLY_MAPPING_START_ADDRESS + (of_nat t + 1) * MiB"
    using assms(2) by (simp add: word_le_nat_alt)
  then show ?thesis by (simp add: kernel_stack_pointer_def unat_sub a)
qed

lemma kernel_stack_pointer_nonzero:
  assumes "t < USER_THREAD_COUNT" "unat sz \<le> 1048576"
  shows "kernel_stack_pointer t sz \<noteq> 0"
proof
  assume "kernel_stack_pointer t sz = 0"
  with kernel_stack_pointer_unat [OF assms] assms(2) show False by simp
qed

text \<open>With 8 processes of 4 slots and 32 threads, a free slot implies a finished thread.\<close>

lemma card_slots: "card ({..<ADDRESS_SPACE_COUNT} \<times> {..<THREADS_PER_ADDRESS_SPACE}) = USER_THREAD_COUNT"
  by (simp add: thread_count_defs)

lemma free_slot_finished:
  assumes "owned s A" "p < ADDRESS_SPACE_COUNT" "i < THREADS_PER_ADDRESS_SPACE" "\<not> slots_used s p i"
  shows "finished A \<noteq> []"
proof
  assume "finished A = []"
  then have lv: "live A = {..<USER_THREAD_COUNT}" by (simp add: live_def)
  let ?f = "\<lambda>t. (pid (blocks s t), pid_slot (blocks s t))"
  let ?S = "{..<ADDRESS_SPACE_COUNT} \<times> {..<THREADS_PER_ADDRESS_SPACE}"
  have "?f ` live A \<subseteq> ?S" using assms(1) by (auto simp: owned_def)
  moreover have "card (?f ` live A) = card ?S"
    using assms(1) by (simp add: owned_def card_image card_slots lv)
  ultimately have "?f ` live A = ?S" by (intro card_subset_eq) auto
  then have "(p, i) \<in> ?f ` live A" using assms(2,3) by simp
  then have "slots_used s p i" using assms(1-3) by (auto simp: owned_def)
  with assms(4) show False by simp
qed

lemma empty_space_slot:
  assumes "owned s A" "p < ADDRESS_SPACE_COUNT" "space A p = []" "i < THREADS_PER_ADDRESS_SPACE"
  shows "\<not> slots_used s p i"
proof -
  have "{t \<in> live A. pid (blocks s t) = p} = {}"
    using assms(1-3) unfolding owned_def by (metis set_empty)
  then show ?thesis using assms(1,2,4) by (auto simp: owned_def)
qed

lemma finished_head:
  assumes "scheduler_ok e s A" "finished A = t # ts"
  shows "t < USER_THREAD_COUNT" "t < THREAD_COUNT" "t \<notin> live A" "tid (blocks s t) = t"
    "\<forall>q < ADDRESS_SPACE_COUNT. t \<notin> set (space A q)"
proof -
  note D = scheduler_okD [OF assms(1)]
  show t: "t < USER_THREAD_COUNT" "t < THREAD_COUNT" using placed_bound [OF D(3)] assms(2) by auto
  show "t \<notin> live A" using assms(2) by (simp add: live_def)
  then show "\<forall>q < ADDRESS_SPACE_COUNT. t \<notin> set (space A q)" using D(4) by (simp add: owned_def)
  show "tid (blocks s t) = t" using D(2) t(2) by (simp add: tids_ok_def)
qed

lemma spawn_ok:
  assumes "scheduler_ok e s A" "finished A = t # ts" "p < ADDRESS_SPACE_COUNT" "i < THREADS_PER_ADDRESS_SPACE"
    and "\<not> slots_used s p i" "lists h (spawn t p A)"
  shows "scheduler_ok e ((with_slot p i (stack_handle (blocks s t)) s)
    \<lparr>blocks := (blocks s)(t := started e p i func sz (blocks s t)), mem := m, nodes := h\<rparr>) (spawn t p A)"
    (is "scheduler_ok e ?s ?B")
proof -
  note D = scheduler_okD [OF assms(1)] and F = finished_head [OF assms(1,2)]
  have d: "distinct (t # ts)" using lists_threads_distinct(5) [OF D(1)] assms(2) by simp
  have lv: "live ?B = insert t (live A)" using F(1) assms(2) d by (auto simp: live_def spawn_def)
  have "owned ?s ?B"
    by (rule owned_spawn [OF D(4) F(3) assms(3-5)])
      (simp_all add: with_slot_def started_def Let_def lv, simp add: spawn_def)
  moreover have "placed ?B" using D(3) assms(2) by (auto simp: placed_def spawn_def)
  moreover have "tids_ok ?s" using D(2) by (simp add: tids_ok_def started_def Let_def)
  moreover have "idle_ok ?s" using D(5) F(1) idle_not_user by (auto simp: idle_ok_def)
  moreover have "stacks_ok e ?s" using D(6) by (simp add: stacks_ok_def started_def Let_def)
  ultimately show ?thesis using assms(6) by (simp add: scheduler_ok_def)
qed

lemma create_thread_ok:
  assumes "scheduler_ok e s A" "c \<in> live A" "i < THREADS_PER_ADDRESS_SPACE"
    and "\<not> slots_used s (pid (blocks s c)) i" "n \<le> STACK_SIZE" "n = 0 \<or> args \<noteq> 0"
  obtains s' sz t where "scheduler_create_thread e c i func args n s = Some s'"
    "scheduler_ok e s' (spawn t (pid (blocks s c)) A)" "finished A \<noteq> []" "t = hd (finished A)" "k_align8 n = Some sz"
    "blocks s' = (blocks s)(t := started e (pid (blocks s c)) i func sz (blocks s t))"
proof -
  note D = scheduler_okD [OF assms(1)]
  have p: "pid (blocks s c) < ADDRESS_SPACE_COUNT" using D(4) assms(2) by (simp add: owned_def)
  obtain t ts where t: "finished A = t # ts"
    using free_slot_finished [OF D(4) p assms(3,4)] by (cases "finished A") auto
  note F = finished_head [OF assms(1) t]
  obtain sz where sz: "k_align8 n = Some sz" "unat sz \<le> 1048576" using align8_small [OF assms(5)] .
  have "n = 0 \<or> args \<noteq> 0 \<and> kernel_stack_pointer t sz \<noteq> 0"
    using assms(6) kernel_stack_pointer_nonzero [OF F(1) sz(2)] by blast
  from create_thread_refines [OF D(1) t refl p F(2,4,5) sz(1) this]
  obtain h where h: "scheduler_create_thread e c i func args n s =
      Some ((with_slot (pid (blocks s c)) i (stack_handle (blocks s t)) s)
        \<lparr>blocks := (blocks s)(t := started e (pid (blocks s c)) i func sz (blocks s t)),
         mem := copy_bytes (translate e (l1_table s)) (kernel_stack_pointer t sz) args (unat n) (mem s),
         nodes := h\<rparr>)" "lists h (spawn t (pid (blocks s c)) A)" .
  show thesis by (rule that [OF h(1) spawn_ok [OF assms(1) t p assms(3,4) h(2)] _ _ sz(1)]) (simp_all add: t)
qed

lemma create_process_ok:
  assumes "scheduler_ok e s A" "p < ADDRESS_SPACE_COUNT" "space A p = []"
    and "n \<le> STACK_SIZE" "n = 0 \<or> args \<noteq> 0"
  obtains s' sz t where "scheduler_create_process e p func args n s = Some s'"
    "scheduler_ok e s' (spawn t p A)" "finished A \<noteq> []" "t = hd (finished A)" "k_align8 n = Some sz"
    "blocks s' = (blocks s)(t := started e p 0 func sz (blocks s t))"
proof -
  note D = scheduler_okD [OF assms(1)]
  have i: "0 < THREADS_PER_ADDRESS_SPACE" by (simp add: THREADS_PER_ADDRESS_SPACE_def)
  have free: "\<not> slots_used s p 0" using empty_space_slot [OF D(4) assms(2,3) i] .
  obtain t ts where t: "finished A = t # ts"
    using free_slot_finished [OF D(4) assms(2) i free] by (cases "finished A") auto
  note F = finished_head [OF assms(1) t]
  obtain sz where sz: "k_align8 n = Some sz" "unat sz \<le> 1048576" using align8_small [OF assms(4)] .
  have "n = 0 \<or> args \<noteq> 0 \<and> kernel_stack_pointer t sz \<noteq> 0"
    using assms(5) kernel_stack_pointer_nonzero [OF F(1) sz(2)] by blast
  from create_process_refines [OF D(1) t assms(2) F(2,4,5) sz(1) this]
  obtain h m where h: "scheduler_create_process e p func args n s =
      Some ((with_slot p 0 (stack_handle (blocks s t)) s)
        \<lparr>blocks := (blocks s)(t := started e p 0 func sz (blocks s t)), mem := m, nodes := h\<rparr>)"
      "lists h (spawn t p A)" by metis
  show thesis by (rule that [OF h(1) spawn_ok [OF assms(1) t assms(2) i free h(2)] _ _ sz(1)]) (simp_all add: t)
qed

section \<open>The searches for a free place\<close>

lemma find_address_space_from:
  assumes "lists (nodes s) A"
  shows "find_first_empty_address_space_from i s =
    Some (List.find (\<lambda>p. space A p = []) [i..<ADDRESS_SPACE_COUNT])"
proof (induction "ADDRESS_SPACE_COUNT - i" arbitrary: i)
  case 0
  then show ?case by (simp add: find_first_empty_address_space_from.simps)
next
  case (Suc n)
  then have i: "i < ADDRESS_SPACE_COUNT" by simp
  then have u: "[i..<ADDRESS_SPACE_COUNT] = i # [Suc i..<ADDRESS_SPACE_COUNT]" by (rule upt_conv_Cons)
  have "find_first_empty_address_space_from (Suc i) s =
      Some (List.find (\<lambda>p. space A p = []) [Suc i..<ADDRESS_SPACE_COUNT])"
    using Suc by (intro Suc.hyps(1)) simp
  then show ?case
    using i lists_empty [OF assms, of "Address_space i"] unfolding u
    by (subst find_first_empty_address_space_from.simps) simp
qed

lemma find_slot_from:
  "find_first_empty_slot_from p i s = List.find (\<lambda>i. \<not> slots_used s p i) [i..<THREADS_PER_ADDRESS_SPACE]"
proof (induction "THREADS_PER_ADDRESS_SPACE - i" arbitrary: i)
  case 0
  then show ?case by (simp add: find_first_empty_slot_from.simps)
next
  case (Suc n)
  then have i: "i < THREADS_PER_ADDRESS_SPACE" by simp
  then have u: "[i..<THREADS_PER_ADDRESS_SPACE] = i # [Suc i..<THREADS_PER_ADDRESS_SPACE]" by (rule upt_conv_Cons)
  have "find_first_empty_slot_from p (Suc i) s =
      List.find (\<lambda>i. \<not> slots_used s p i) [Suc i..<THREADS_PER_ADDRESS_SPACE]"
    using Suc by (intro Suc.hyps(1)) simp
  then show ?case
    using i unfolding u by (subst find_first_empty_slot_from.simps) simp
qed

lemma find_address_space_eq:
  "lists (nodes s) A \<Longrightarrow> scheduler_find_first_empty_address_space s =
    Some (List.find (\<lambda>p. space A p = []) [0..<ADDRESS_SPACE_COUNT])"
  by (simp add: scheduler_find_first_empty_address_space_def find_address_space_from)

lemma find_slot_eq:
  "scheduler_find_first_empty_slot_in_address_space p s =
    List.find (\<lambda>i. \<not> slots_used s p i) [0..<THREADS_PER_ADDRESS_SPACE]"
  by (simp add: scheduler_find_first_empty_slot_in_address_space_def find_slot_from)

lemma find_upt_Some: "List.find P [0..<n] = Some i \<longleftrightarrow> i < n \<and> P i \<and> (\<forall>j < i. \<not> P j)"
  by (auto simp: find_Some_iff)

lemma find_upt_None: "List.find P [0..<n] = None \<longleftrightarrow> (\<forall>i < n. \<not> P i)"
  by (auto simp: find_None_iff)

lemma running_thread_eq:
  "lists (nodes s) A \<Longrightarrow> running A = t # ts \<Longrightarrow> scheduler_get_running_thread s = Some t"
  using lists_empty [of "nodes s" A Running_list] lists_first [of "nodes s" A Running_list]
  by (simp add: scheduler_get_running_thread_def)

lemma create_thread_args:
  assumes "scheduler_create_thread e c i func args n s = Some s'"
  shows "n = 0 \<or> args \<noteq> 0"
  using assms by (auto simp: scheduler_create_thread_def copy_to_def k_memcpy_mem_def Let_def Option.bind_eq_Some_conv split: if_splits)

lemma create_process_args:
  assumes "scheduler_create_process e p func args n s = Some s'"
  shows "n = 0 \<or> args \<noteq> 0"
  using assms by (auto simp: scheduler_create_process_def copy_to_def k_memcpy_mem_def Let_def Option.bind_eq_Some_conv split: if_splits)

end
