(* ===== verification/Scheduler_Frame.thy ===== *)
theory Scheduler_Frame
  imports Scheduler_Invariant
begin

text \<open>
  What the scheduler leaves alone. Nothing in it touches the cache of the serial port, and only
  the context switch changes the frame and the banked registers, never the stack pointer in the frame, so that the mode an interrupt returns to is the
  one of the thread that runs then.
\<close>

abbreviation kept_state :: "kernel \<Rightarrow> kernel \<Rightarrow> bool" where
  "kept_state s s' \<equiv> cache s' = cache s \<and> cpu_regs s' = cpu_regs s \<and> frame s' = frame s"

named_theorems kept

lemma on_nodes_kept [kept]: "on_nodes f s = Some s' \<Longrightarrow> kept_state s s'"
  by (auto simp: on_nodes_def)

lemma copy_to_kept [kept]: "copy_to e a b n s = Some s' \<Longrightarrow> kept_state s s'"
  by (auto simp: copy_to_def Option.bind_eq_Some_conv)

lemma set_thread_kept [simp]: "cache (set_thread t f s) = cache s" "cpu_regs (set_thread t f s) = cpu_regs s"
    "frame (set_thread t f s) = frame s"
  by (simp_all add: set_thread_def)

lemma save_kept [simp]: "cache (scheduler_save_thread_context t s) = cache s"
    "cpu_regs (scheduler_save_thread_context t s) = cpu_regs s" "frame (scheduler_save_thread_context t s) = frame s"
  by (simp_all add: scheduler_save_thread_context_def)

lemma switch_thread_cache [simp]: "cache (scheduler_switch_thread t s) = cache s"
    "sp (frame (scheduler_switch_thread t s)) = sp (frame s)"
  by (simp_all add: scheduler_switch_thread_def Let_def)

lemma cleanup_kept [kept]: "scheduler_cleanup_thread s = Some s' \<Longrightarrow> kept_state s s'"
  by (auto simp: scheduler_cleanup_thread_def Option.bind_eq_Some_conv Let_def dest!: kept)

lemma create_process_kept [kept]:
  "scheduler_create_process e p func args n s = Some s' \<Longrightarrow> kept_state s s'"
  by (auto simp: scheduler_create_process_def Option.bind_eq_Some_conv Let_def dest!: kept split: if_splits)

lemma create_thread_kept [kept]:
  "scheduler_create_thread e c i func args n s = Some s' \<Longrightarrow> kept_state s s'"
  by (auto simp: scheduler_create_thread_def Option.bind_eq_Some_conv Let_def dest!: kept split: if_splits)

lemma leave_running_kept [kept]: "leave_running s = Some (r, s') \<Longrightarrow> kept_state s s'"
  by (auto simp: leave_running_def Option.bind_eq_Some_conv dest!: kept split: if_splits)

lemma map_address_space_kept [kept]: "map_address_space p s = Some s' \<Longrightarrow> kept_state s s'"
  by (auto simp: map_address_space_eq)

lemma round_robin_kept [kept]:
  "scheduler_round_robin e type s = Some s' \<Longrightarrow> cache s' = cache s \<and> sp (frame s') = sp (frame s)"
  by (auto simp: scheduler_round_robin_def Option.bind_eq_Some_conv Let_def dest!: kept split: if_splits option.splits)

lemma adjust_kept [kept]: "scheduler_adjust_stall_timer e s = Some (r, s') \<Longrightarrow> kept_state s s'"
  by (auto simp: scheduler_adjust_stall_timer_def Option.bind_eq_Some_conv case_prod_beta Let_def split: if_splits)

lemma unblock_kept [kept]:
  "scheduler_unblock_overdue_waiting_threads e s = Some s' \<Longrightarrow> kept_state s s'"
proof (rule scheduler_unblock_overdue_waiting_threads.raw_induct [of "\<lambda>e s s'. kept_state s s'"])
  fix f e s y
  assume "\<And>e s s'. f e s = Some s' \<Longrightarrow> kept_state s s'"
    and "scheduler_adjust_stall_timer e s \<bind> (\<lambda>(r, s).
      if r < 0 then k_get_first_node (nodes s) (Some Stall_waiting_list) \<bind> (\<lambda>first.
        on_nodes (k_transfer_to_back (Some Stall_waiting_list) (Some Ready_list) first) s \<bind> f e)
      else Some s) = Some y"
  then show "kept_state s y"
    by (fastforce simp: Option.bind_eq_Some_conv dest: kept split: if_splits)
qed

lemma ignore_input_kept [kept]:
  "scheduler_ignore_thread_until_character_input t s = Some s' \<Longrightarrow> kept_state s s'"
  by (auto simp: scheduler_ignore_thread_until_character_input_def dest: kept)

lemma ignore_timer_kept [kept]:
  assumes "scheduler_ignore_thread_until_timer_match e t m s = Some s'"
  shows "kept_state s s'"
proof -
  obtain v d where v: "systimer_value e (io_regs s) = (v, d)" by fastforce
  from assms obtain s0 s1 first where
    s0: "on_nodes (k_remove_node_from_list (Some Ready_list) (Some (Scheduler_node t))) s = Some s0" and
    f: "(if Some (Scheduler_node t) = first
      then scheduler_adjust_stall_timer e s1 \<bind> (\<lambda>(r, s).
        if r < 0 then scheduler_unblock_overdue_waiting_threads e s else Some s)
      else Some s1) = Some s'" and
    s1: "cache s1 = cache s0" "cpu_regs s1 = cpu_regs s0" "frame s1 = frame s0"
    unfolding scheduler_ignore_thread_until_timer_match_def
    by (auto simp: Option.bind_eq_Some_conv Let_def case_prod_beta on_nodes_def set_thread_def)
  have "kept_state s1 s'"
  proof (cases "Some (Scheduler_node t) = first")
    case True
    with f obtain r s2 where "scheduler_adjust_stall_timer e s1 = Some (r, s2)"
      "(if r < 0 then scheduler_unblock_overdue_waiting_threads e s2 else Some s2) = Some s'"
      by (auto simp: Option.bind_eq_Some_conv)
    then show ?thesis by (auto dest!: adjust_kept unblock_kept split: if_splits)
  next
    case False
    with f show ?thesis by simp
  qed
  with s1 on_nodes_kept [OF s0] show ?thesis by simp
qed

text \<open>The thread that runs after a switch is returned to in its own mode: user mode, unless it is the
  idle thread.\<close>

definition mode_ok :: "kernel \<Rightarrow> sched \<Rightarrow> bool" where
  "mode_ok s A \<longleftrightarrow>
     (spsr (cpu_regs s) AND psr_mode = psr_mode_user \<longleftrightarrow> (\<exists>t. running A = [t] \<and> t \<noteq> IDLE_THREAD_INDEX))"

lemma mode_ok_cong: "cpu_regs s = cpu_regs s' \<Longrightarrow> running A = running B \<Longrightarrow> mode_ok s A = mode_ok s' B"
  by (simp add: mode_ok_def)

lemma cache_switch [simp]: "cache (switch_effect A s) = cache s"
  by (simp add: switch_effect_def enter_process_def save_previous_def split: list.splits)

lemma spsr_switch: "spsr (cpu_regs (switch_effect A s)) = cpsr (blocks s (next_thread A))"
  by (simp add: switch_effect_def scheduler_switch_thread_def Let_def enter_process_def save_previous_def
      scheduler_save_thread_context_def set_thread_def split: list.splits)

lemma running_switch: "running (switch_lists A) = [next_thread A]"
  by (simp add: switch_lists_def next_thread_def Let_def)

lemma mode_switch:
  assumes "scheduler_ok e s A"
  shows "mode_ok (switch_effect A s\<lparr>nodes := h\<rparr>) (switch_lists A)"
proof (cases "ready A = []")
  case True
  then have "next_thread A = IDLE_THREAD_INDEX" by (simp add: next_thread_def)
  moreover have "cpsr (blocks s IDLE_THREAD_INDEX) = psr_mode_system"
    using scheduler_okD(5) [OF assms] by (simp add: idle_ok_def)
  ultimately show ?thesis by (simp add: mode_ok_def spsr_switch running_switch psr_defs)
next
  case False
  then have n: "next_thread A \<in> set (ready A)" by (simp add: next_thread_def)
  note D = scheduler_okD [OF assms]
  have "next_thread A \<noteq> IDLE_THREAD_INDEX" using n placed_idle(1) [OF D(3)] by metis
  moreover have "next_thread A \<in> live A"
    using n D(3) lists_threads_disjoint [OF D(1)] by (auto simp: live_def placed_def)
  then have "cpsr (blocks s (next_thread A)) = psr_mode_user" using D(4) by (simp add: owned_def)
  ultimately show ?thesis by (simp add: mode_ok_def spsr_switch running_switch psr_defs)
qed

end
