(* ===== verification/Syscall_Invariant.thy ===== *)
theory Syscall_Invariant
  imports Syscall Scheduler_Frame
begin

text \<open>
  What each system call does to the scheduler, on every branch, and that all of them keep its
  invariant. The caller is the running thread \<open>t\<close>, which is not the idle thread: only code in user
  mode gets here.
\<close>

section \<open>Switching away from the caller\<close>

text \<open>The lists once the caller has given up the processor and was taken out of the ready list.\<close>

definition yield_lists :: "sched \<Rightarrow> sched" where
  "yield_lists A = A\<lparr>ready := tl (ready A), running := [next_thread A]\<rparr>"

lemma switch_from_caller:
  assumes "running A = [t]" "t \<noteq> IDLE_THREAD_INDEX" "t \<notin> set (ready A)"
  shows "t \<in> set (ready (switch_lists A))" "remove1 t (ready (switch_lists A)) = tl (ready A)"
proof -
  let ?r = "if ready A = [] then [IDLE_THREAD_INDEX] else ready A"
  have "ready (switch_lists A) = tl ?r @ [t]" using assms(1,2) by (simp add: switch_lists_def Let_def)
  moreover have "tl ?r = tl (ready A)" by simp
  moreover have "t \<notin> set (tl (ready A))" using assms(3) by (cases "ready A") auto
  ultimately show "t \<in> set (ready (switch_lists A))" "remove1 t (ready (switch_lists A)) = tl (ready A)"
    by (simp_all add: remove1_append)
qed

lemma caller_not_ready: "scheduler_ok e s A \<Longrightarrow> running A = [t] \<Longrightarrow> t \<notin> set (ready A)"
  using lists_threads_disjoint(1) [OF scheduler_okD(1)] by fastforce

lemma reset_systimer_simps [simp]:
  "scheduler_ok e (reset_systimer e' s) A = scheduler_ok e s A" "blocks (reset_systimer e' s) = blocks s"
  "nodes (reset_systimer e' s) = nodes s" "frame (reset_systimer e' s) = frame s"
  "cpu_regs (reset_systimer e' s) = cpu_regs s" "cache (reset_systimer e' s) = cache s"
  by (simp_all add: reset_systimer_def)

lemma set_result_simps [simp]:
  "scheduler_ok e (set_result v s) A = scheduler_ok e s A" "blocks (set_result v s) = blocks s"
  "nodes (set_result v s) = nodes s" "cpu_regs (set_result v s) = cpu_regs s" "cache (set_result v s) = cache s"
  by (simp_all add: set_result_def)

lemma forced_switch_ok:
  assumes "scheduler_ok e s A" "running A = [t]" "t \<noteq> IDLE_THREAD_INDEX"
  obtains s' where "scheduler_round_robin e forced s = (if stall_sorted s A then Some s' else None)"
    "stall_sorted s A \<Longrightarrow> scheduler_ok e s' (switch_lists A)"
    "\<exists>h. s' = switch_effect A s\<lparr>nodes := h\<rparr>"
proof (cases "stall_sorted s A")
  case True
  then show ?thesis
    using round_robin_ok [OF assms(1) True, of forced] assms(2,3) that by auto
next
  case False
  then show ?thesis
    using round_robin_halts [OF assms(1) False, of forced] assms(2,3)
      that [of "switch_effect A s\<lparr>nodes := nodes s\<rparr>"] by auto
qed

section \<open>The calls\<close>

lemma read_character_ok:
  assumes "scheduler_ok e s A" "running A = [t]" "t \<noteq> IDLE_THREAD_INDEX" "stall_sorted s A"
  obtains s' h d where "dispatch_syscall e SYSCALL_READ_CHARACTER_NO s = Some (0, s')"
    "scheduler_ok e s' ((yield_lists A)\<lparr>waiting := waiting A @ [t]\<rparr>)"
    "s' = switch_effect A s\<lparr>io_regs := d, nodes := h\<rparr>"
proof -
  obtain s1 h1 where s1: "scheduler_round_robin e forced s = Some s1" "scheduler_ok e s1 (switch_lists A)"
      "s1 = switch_effect A s\<lparr>nodes := h1\<rparr>"
    using forced_switch_ok [OF assms(1-3)] assms(4) by metis
  note M = switch_from_caller [OF assms(2,3) caller_not_ready [OF assms(1,2)]]
  obtain h2 where s2: "scheduler_ignore_thread_until_character_input t (reset_systimer e s1) =
      Some (reset_systimer e s1\<lparr>nodes := h2\<rparr>)"
      "lists h2 ((switch_lists A)\<lparr>ready := remove1 t (ready (switch_lists A)), waiting := waiting (switch_lists A) @ [t]\<rparr>)"
    using ignore_input_refines [of "reset_systimer e s1" "switch_lists A" t] scheduler_okD(1) [OF s1(2)] M(1) by auto
  obtain s3 where s3: "scheduler_ignore_thread_until_character_input t (reset_systimer e s1) = Some s3"
      "scheduler_ok e s3 ((switch_lists A)\<lparr>ready := remove1 t (ready (switch_lists A)), waiting := waiting (switch_lists A) @ [t]\<rparr>)"
    using ignore_input_ok [of e "reset_systimer e s1" "switch_lists A" t] s1(2) M(1) by auto
  have B: "(switch_lists A)\<lparr>ready := remove1 t (ready (switch_lists A)), waiting := waiting (switch_lists A) @ [t]\<rparr> =
      (yield_lists A)\<lparr>waiting := waiting A @ [t]\<rparr>"
    unfolding M(2) by (simp add: yield_lists_def switch_lists_def Let_def next_thread_def)
  have "dispatch_syscall e SYSCALL_READ_CHARACTER_NO s = Some (0, s3)"
    using running_thread_eq [OF scheduler_okD(1) [OF assms(1)] assms(2)] s1(1) s3(1)
    by (simp add: dispatch_syscall_def Let_def)
  moreover have "s3 = switch_effect A s\<lparr>io_regs := io_regs (reset_systimer e s1), nodes := h2\<rparr>"
    using s2(1) s3(1) s1(3) by (simp add: reset_systimer_def)
  ultimately show thesis using s3(2) unfolding B by (intro that)
qed

text \<open>The deadline of a stall, from the value of the timer after the switch.\<close>

definition stall_lists :: "nat \<Rightarrow> (nat \<Rightarrow> u32) \<Rightarrow> u32 \<Rightarrow> sched \<Rightarrow> sched" where
  "stall_lists t old deadline A =
     (yield_lists A)\<lparr>stalled := insert_sorted_list (\<lambda>x. old x \<le> deadline) t (stalled A)\<rparr>"

lemma stall_thread_ok:
  assumes "scheduler_ok e s A" "running A = [t]" "t \<noteq> IDLE_THREAD_INDEX" "stall_sorted s A"
    and "general (frame s) 0 \<noteq> 0" "ktiming_milliseconds_to_hertz (general (frame s) 0) 0 = Some (hz, err)" "\<not> err < 0"
  obtains s' k n where "dispatch_syscall e SYSCALL_STALL_THREAD_NO s = Some (0, s')"
    "scheduler_ok e s' (wake k (stall_lists t (\<lambda>x. stall_until (blocks s x)) (volatile e n (systimer_register CLO) + hz) A))"
    "hd (stalled (stall_lists t (\<lambda>x. stall_until (blocks s x)) (volatile e n (systimer_register CLO) + hz) A)) \<noteq> t \<or>
      (\<forall>m. volatile e m (systimer_register CLO) + TOCTOU_PAD < volatile e n (systimer_register CLO) + hz) \<Longrightarrow> k = 0"
    "\<And>x. stall_until (blocks s' x) =
      (if x = t then volatile e n (systimer_register CLO) + hz else stall_until (blocks s x))"
    "cpu_regs s' = cpu_regs (switch_effect A s)"
proof -
  obtain s1 h1 where s1: "scheduler_round_robin e forced s = Some s1" "scheduler_ok e s1 (switch_lists A)"
      "s1 = switch_effect A s\<lparr>nodes := h1\<rparr>"
    using forced_switch_ok [OF assms(1-3)] assms(4) by metis
  note M = switch_from_caller [OF assms(2,3) caller_not_ready [OF assms(1,2)]]
  let ?s1 = "reset_systimer e s1"
  let ?n = "reads (io_regs ?s1)"
  let ?dl = "volatile e ?n (systimer_register CLO) + hz"
  have su: "stall_until (blocks ?s1 x) = stall_until (blocks s x)" for x using s1(3) by simp
  let ?C = "(switch_lists A)\<lparr>ready := remove1 t (ready (switch_lists A)),
      stalled := insert_sorted_list (\<lambda>x. stall_until (blocks ?s1 x) \<le> ?dl) t (stalled (switch_lists A))\<rparr>"
  have C: "?C = stall_lists t (\<lambda>x. stall_until (blocks s x)) ?dl A"
    unfolding M(2) su stall_lists_def
    by (simp add: yield_lists_def switch_lists_def Let_def next_thread_def)
  obtain s2 k where s2: "scheduler_ignore_thread_until_timer_match e t hz ?s1 = Some s2"
      "scheduler_ok e s2 (wake k ?C)"
      "hd (stalled ?C) \<noteq> t \<or> (\<forall>m. volatile e m (systimer_register CLO) + TOCTOU_PAD < ?dl) \<Longrightarrow> k = 0"
      "\<And>x. stall_until (blocks s2 x) = (if x = t then ?dl else stall_until (blocks ?s1 x))"
    by (rule ignore_timer_ok [of e ?s1 "switch_lists A" t hz]) (use s1(2) M(1) in auto)
  have "dispatch_syscall e SYSCALL_STALL_THREAD_NO s = Some (0, s2)"
    using running_thread_eq [OF scheduler_okD(1) [OF assms(1)] assms(2)] s1(1) s2(1) assms(5-7)
    by (simp add: dispatch_syscall_def syscall_numbers Let_def)
  moreover have "cpu_regs s2 = cpu_regs (switch_effect A s)"
    using ignore_timer_kept [OF s2(1)] s1(3) by simp
  ultimately show thesis using that [of s2 k ?n] s2(2-4) unfolding su C [unfolded su] by blast
qed

lemma stall_thread_spec:
  assumes "scheduler_ok e s A" "running A = [t]" "t \<noteq> IDLE_THREAD_INDEX" "stall_sorted s A"
    and "general (frame s) 0 \<noteq> 0" "ktiming_milliseconds_to_hertz (general (frame s) 0) 0 = Some (hz, err)" "\<not> err < 0"
  obtains d n s' k where "d = volatile e n (systimer_register CLO) + hz"
    "dispatch_syscall e SYSCALL_STALL_THREAD_NO s = Some (0, s')"
    "scheduler_ok e s' (wake k (stall_lists t (\<lambda>x. stall_until (blocks s x)) d A))"
    "hd (stalled (stall_lists t (\<lambda>x. stall_until (blocks s x)) d A)) \<noteq> t \<or>
      (\<forall>m. volatile e m (systimer_register CLO) + TOCTOU_PAD < d) \<Longrightarrow> k = 0"
    "\<And>x. stall_until (blocks s' x) = (if x = t then d else stall_until (blocks s x))"
  by (rule stall_thread_ok [OF assms]) (rule that [OF refl])

lemma exit_thread_ok:
  assumes "scheduler_ok e s A" "running A = [t]" "t \<noteq> IDLE_THREAD_INDEX" "stall_sorted s A"
  obtains s' where "dispatch_syscall e SYSCALL_EXIT_THREAD_NO s = Some (0, s')"
    "scheduler_ok e s' (switch_lists (retire t (pid (blocks s t)) A))"
    "\<And>x. stall_until (blocks s' x) = stall_until (blocks s x)"
    "mode_ok s' (switch_lists (retire t (pid (blocks s t)) A))"
proof -
  let ?B = "retire t (pid (blocks s t)) A"
  obtain s1 where s1: "scheduler_cleanup_thread s = Some s1" "scheduler_ok e s1 ?B" "blocks s1 = blocks s"
    using cleanup_ok [OF assms(1-3)] .
  have "stall_sorted s1 ?B"
    using assms(4) stall_sorted_cong [of ?B A s1 s] s1(3) by (simp add: retire_def)
  from round_robin_ok [OF s1(2) this, of normal] obtain s2 h where
    s2: "scheduler_round_robin e normal s1 = Some s2" "s2 = switch_effect ?B s1\<lparr>nodes := h\<rparr>"
      "scheduler_ok e s2 (switch_lists ?B)"
    by (auto simp: retire_def)
  have "dispatch_syscall e SYSCALL_EXIT_THREAD_NO s = Some (0, reset_systimer e s2)"
    using s1(1) s2(1) by (simp add: dispatch_syscall_def syscall_numbers)
  moreover have "mode_ok (reset_systimer e s2) (switch_lists ?B)"
    using mode_switch [OF s1(2), of h] s2(2) by (simp add: mode_ok_def)
  ultimately show thesis using that [of "reset_systimer e s2"] s2 s1(3) by simp
qed

lemma create_process_syscall_ok:
  assumes "scheduler_ok e s A" "general (frame s) 2 \<le> STACK_SIZE"
    and "general (frame s) 2 = 0 \<or> general (frame s) 1 \<noteq> 0" "p < ADDRESS_SPACE_COUNT" "space A p = []"
    and "\<forall>q < p. space A q \<noteq> []"
  obtains s' sz t where "dispatch_syscall e SYSCALL_CREATE_PROCESS_NO s = Some (0, s')"
    "scheduler_ok e s' (spawn t p A)" "finished A \<noteq> []" "t = hd (finished A)"
    "k_align8 (general (frame s) 2) = Some sz"
    "blocks s' = (blocks s)(t := started e p 0 (general (frame s) 0) sz (blocks s t))"
proof -
  have f: "scheduler_find_first_empty_address_space s = Some (Some p)"
    using find_address_space_eq [OF scheduler_okD(1) [OF assms(1)]] assms(4-6) by (simp add: find_upt_Some)
  obtain s' sz t where s': "scheduler_create_process e p (general (frame s) 0) (general (frame s) 1) (general (frame s) 2) s = Some s'"
    "scheduler_ok e s' (spawn t p A)" "finished A \<noteq> []" "t = hd (finished A)" "k_align8 (general (frame s) 2) = Some sz"
    "blocks s' = (blocks s)(t := started e p 0 (general (frame s) 0) sz (blocks s t))"
    using create_process_ok [OF assms(1,4,5,2,3)] .
  have "dispatch_syscall e SYSCALL_CREATE_PROCESS_NO s = Some (0, s')"
    using f s'(1) assms(2) by (simp add: dispatch_syscall_def syscall_numbers Let_def not_less [symmetric])
  from that [OF this s'(2-6)] show thesis .
qed

lemma create_thread_syscall_ok:
  assumes "scheduler_ok e s A" "running A = [c]" "c \<noteq> IDLE_THREAD_INDEX" "general (frame s) 2 \<le> STACK_SIZE"
    and "general (frame s) 2 = 0 \<or> general (frame s) 1 \<noteq> 0" "i < THREADS_PER_ADDRESS_SPACE"
    and "\<not> slots_used s (pid (blocks s c)) i" "\<forall>j < i. slots_used s (pid (blocks s c)) j"
  obtains s' sz t where "dispatch_syscall e SYSCALL_CREATE_THREAD_NO s = Some (0, s')"
    "scheduler_ok e s' (spawn t (pid (blocks s c)) A)" "finished A \<noteq> []" "t = hd (finished A)"
    "k_align8 (general (frame s) 2) = Some sz"
    "blocks s' = (blocks s)(t := started e (pid (blocks s c)) i (general (frame s) 0) sz (blocks s t))"
proof -
  have f: "scheduler_find_first_empty_slot_in_address_space (pid (blocks s c)) s = Some i"
    using assms(6-8) by (simp add: find_slot_eq find_upt_Some)
  have c: "c \<in> live A" using live_running [OF assms(1-3)] by blast
  obtain s' sz t where s': "scheduler_create_thread e c i (general (frame s) 0) (general (frame s) 1) (general (frame s) 2) s = Some s'"
    "scheduler_ok e s' (spawn t (pid (blocks s c)) A)" "finished A \<noteq> []" "t = hd (finished A)" "k_align8 (general (frame s) 2) = Some sz"
    "blocks s' = (blocks s)(t := started e (pid (blocks s c)) i (general (frame s) 0) sz (blocks s t))"
    using create_thread_ok [OF assms(1) c assms(6,7,4,5)] .
  have "dispatch_syscall e SYSCALL_CREATE_THREAD_NO s = Some (0, s')"
    using f s'(1) assms(4) running_thread_eq [OF scheduler_okD(1) [OF assms(1)] assms(2)]
    by (simp add: dispatch_syscall_def syscall_numbers Let_def not_less [symmetric])
  from that [OF this s'(2-6)] show thesis .
qed

text \<open>The errors of both.\<close>

lemma create_process_errors:
  assumes "scheduler_ok e s A"
  shows "general (frame s) 2 > STACK_SIZE \<Longrightarrow>
      dispatch_syscall e SYSCALL_CREATE_PROCESS_NO s = Some (0, set_result (- K_EINVAL) s)"
    "\<not> general (frame s) 2 > STACK_SIZE \<Longrightarrow> \<forall>p < ADDRESS_SPACE_COUNT. space A p \<noteq> [] \<Longrightarrow>
      dispatch_syscall e SYSCALL_CREATE_PROCESS_NO s = Some (0, set_result (- K_EBUSY) s)"
proof -
  show "general (frame s) 2 > STACK_SIZE \<Longrightarrow>
      dispatch_syscall e SYSCALL_CREATE_PROCESS_NO s = Some (0, set_result (- K_EINVAL) s)"
    by (simp add: dispatch_syscall_def syscall_numbers Let_def)
  assume a: "\<not> general (frame s) 2 > STACK_SIZE" "\<forall>p < ADDRESS_SPACE_COUNT. space A p \<noteq> []"
  then have "List.find (\<lambda>p. space A p = []) [0..<ADDRESS_SPACE_COUNT] = None"
    by (simp add: find_upt_None)
  then show "dispatch_syscall e SYSCALL_CREATE_PROCESS_NO s = Some (0, set_result (- K_EBUSY) s)"
    using a(1) find_address_space_eq [OF scheduler_okD(1) [OF assms]]
    by (simp add: dispatch_syscall_def syscall_numbers Let_def)
qed

lemma create_thread_errors:
  assumes "scheduler_ok e s A" "running A = [c]"
  shows "general (frame s) 2 > STACK_SIZE \<Longrightarrow>
      dispatch_syscall e SYSCALL_CREATE_THREAD_NO s = Some (0, set_result (- K_EINVAL) s)"
    "\<not> general (frame s) 2 > STACK_SIZE \<Longrightarrow> \<forall>i < THREADS_PER_ADDRESS_SPACE. slots_used s (pid (blocks s c)) i \<Longrightarrow>
      dispatch_syscall e SYSCALL_CREATE_THREAD_NO s = Some (0, set_result (- K_EBUSY) s)"
proof -
  show "general (frame s) 2 > STACK_SIZE \<Longrightarrow>
      dispatch_syscall e SYSCALL_CREATE_THREAD_NO s = Some (0, set_result (- K_EINVAL) s)"
    by (simp add: dispatch_syscall_def syscall_numbers Let_def)
  assume a: "\<not> general (frame s) 2 > STACK_SIZE" "\<forall>i < THREADS_PER_ADDRESS_SPACE. slots_used s (pid (blocks s c)) i"
  then have "List.find (\<lambda>i. \<not> slots_used s (pid (blocks s c)) i) [0..<THREADS_PER_ADDRESS_SPACE] = None"
    by (simp add: find_upt_None)
  then show "dispatch_syscall e SYSCALL_CREATE_THREAD_NO s = Some (0, set_result (- K_EBUSY) s)"
    using a(1) running_thread_eq [OF scheduler_okD(1) [OF assms(1)] assms(2)]
    by (simp add: dispatch_syscall_def syscall_numbers Let_def find_slot_eq)
qed

section \<open>Every call keeps the invariant\<close>

lemma dispatch_keeps_ok:
  assumes "scheduler_ok e s A" "running A = [t]" "t \<noteq> IDLE_THREAD_INDEX" "dispatch_syscall e no s = Some (r, s')"
  shows "\<exists>B. scheduler_ok e s' B \<and> (mode_ok s A \<longrightarrow> mode_ok s' B)"
proof -
  note run = running_thread_eq [OF scheduler_okD(1) [OF assms(1)] assms(2)]
  note d = assms(4)
  have sorted: "stall_sorted s A" if "scheduler_round_robin e forced s \<noteq> None"
    using forced_switch_ok [OF assms(1-3)] that by metis
  consider (read) "no = SYSCALL_READ_CHARACTER_NO" | (out) "no = SYSCALL_OUTPUT_CHARACTER_NO"
    | (proc) "no = SYSCALL_CREATE_PROCESS_NO" | (thr) "no = SYSCALL_CREATE_THREAD_NO"
    | (stall) "no = SYSCALL_STALL_THREAD_NO" | (exit) "no = SYSCALL_EXIT_THREAD_NO"
    | (time) "no = SYSCALL_GET_TIME_NO" | (tid) "no = SYSCALL_GET_THREAD_ID_NO"
    | (other) "\<not> is_valid_syscall_no no"
    unfolding is_valid_syscall_no_def by blast
  then show ?thesis
  proof cases
    case read
    then have "scheduler_round_robin e forced s \<noteq> None"
      using d run by (auto simp: dispatch_syscall_def Let_def Option.bind_eq_Some_conv)
    from read_character_ok [OF assms(1-3) sorted [OF this]] d read obtain h dv where
      "scheduler_ok e s' ((yield_lists A)\<lparr>waiting := waiting A @ [t]\<rparr>)"
      "s' = switch_effect A s\<lparr>io_regs := dv, nodes := h\<rparr>"
      by (metis option.inject prod.inject)
    moreover from this(2) have "mode_ok s' ((yield_lists A)\<lparr>waiting := waiting A @ [t]\<rparr>)"
      using mode_switch [OF assms(1), of h]
      by (simp add: mode_ok_def running_switch yield_lists_def)
    ultimately show ?thesis by blast
  next
    case out
    with d have "\<exists>d. s' = s\<lparr>io_regs := d\<rparr>"
      by (auto simp: dispatch_syscall_def syscall_numbers Option.bind_eq_Some_conv)
    with assms(1) show ?thesis by (auto simp: mode_ok_def)
  next
    case proc
    show ?thesis
    proof (cases "general (frame s) 2 > STACK_SIZE")
      case True
      with proc d have "s' = set_result (- K_EINVAL) s" by (simp add: dispatch_syscall_def syscall_numbers Let_def)
      with assms(1) show ?thesis by (auto simp: mode_ok_def)
    next
      case False
      note f = find_address_space_eq [OF scheduler_okD(1) [OF assms(1)]]
      show ?thesis
      proof (cases "List.find (\<lambda>p. space A p = []) [0..<ADDRESS_SPACE_COUNT]")
        case None
        with False proc d f have "s' = set_result (- K_EBUSY) s"
          by (simp add: dispatch_syscall_def syscall_numbers Let_def)
        with assms(1) show ?thesis by (auto simp: mode_ok_def)
      next
        case (Some p)
        then have p: "p < ADDRESS_SPACE_COUNT" "space A p = []" "\<forall>q < p. space A q \<noteq> []"
          by (auto simp: find_upt_Some)
        have c: "scheduler_create_process e p (general (frame s) 0) (general (frame s) 1) (general (frame s) 2) s = Some s'"
          using Some False proc d f by (auto simp: dispatch_syscall_def syscall_numbers Let_def Option.bind_eq_Some_conv)
        from create_process_args [OF c] have "general (frame s) 2 = 0 \<or> general (frame s) 1 \<noteq> 0" .
        from create_process_syscall_ok [OF assms(1) _ this p] False d proc obtain u where "scheduler_ok e s' (spawn u p A)"
          by (metis not_less option.inject prod.inject)
        moreover have "cpu_regs s' = cpu_regs s" using create_process_kept [OF c] by simp
        then have "mode_ok s' (spawn u p A) = mode_ok s A" by (intro mode_ok_cong) (simp_all add: spawn_def)
        ultimately show ?thesis by blast
      qed
    qed
  next
    case thr
    show ?thesis
    proof (cases "general (frame s) 2 > STACK_SIZE")
      case True
      with thr d have "s' = set_result (- K_EINVAL) s" by (simp add: dispatch_syscall_def syscall_numbers Let_def)
      with assms(1) show ?thesis by (auto simp: mode_ok_def)
    next
      case False
      show ?thesis
      proof (cases "List.find (\<lambda>i. \<not> slots_used s (pid (blocks s t)) i) [0..<THREADS_PER_ADDRESS_SPACE]")
        case None
        with False thr d run have "s' = set_result (- K_EBUSY) s"
          by (simp add: dispatch_syscall_def syscall_numbers Let_def find_slot_eq)
        with assms(1) show ?thesis by (auto simp: mode_ok_def)
      next
        case (Some i)
        then have i: "i < THREADS_PER_ADDRESS_SPACE" "\<not> slots_used s (pid (blocks s t)) i"
            "\<forall>j < i. slots_used s (pid (blocks s t)) j"
          by (auto simp: find_upt_Some)
        have c: "scheduler_create_thread e t i (general (frame s) 0) (general (frame s) 1) (general (frame s) 2) s = Some s'"
          using Some False thr d run by (auto simp: dispatch_syscall_def syscall_numbers Let_def find_slot_eq Option.bind_eq_Some_conv)
        from create_thread_args [OF c] have "general (frame s) 2 = 0 \<or> general (frame s) 1 \<noteq> 0" .
        from create_thread_syscall_ok [OF assms(1-3) _ this i] False d thr obtain u where
          "scheduler_ok e s' (spawn u (pid (blocks s t)) A)"
          by (metis not_less option.inject prod.inject)
        moreover have "cpu_regs s' = cpu_regs s" using create_thread_kept [OF c] by simp
        then have "mode_ok s' (spawn u (pid (blocks s t)) A) = mode_ok s A"
          by (intro mode_ok_cong) (simp_all add: spawn_def)
        ultimately show ?thesis by blast
      qed
    qed
  next
    case stall
    then have rr: "scheduler_round_robin e forced s \<noteq> None"
      using d run by (auto simp: dispatch_syscall_def syscall_numbers Let_def Option.bind_eq_Some_conv)
    note st = sorted [OF this]
    obtain s1 h where s1: "scheduler_round_robin e forced s = Some s1" "scheduler_ok e s1 (switch_lists A)"
        "s1 = switch_effect A s\<lparr>nodes := h\<rparr>"
      using forced_switch_ok [OF assms(1-3)] st by metis
    then have m1: "mode_ok s1 (switch_lists A)" using mode_switch [OF assms(1), of h] by simp
    show ?thesis
    proof (cases "general (frame s) 0 = 0")
      case True
      with stall d run s1 have "s' = reset_systimer e s1"
        by (simp add: dispatch_syscall_def syscall_numbers Let_def)
      with s1(2) m1 show ?thesis by (auto simp: mode_ok_def)
    next
      case False
      obtain hz err where c: "ktiming_milliseconds_to_hertz (general (frame s) 0) 0 = Some (hz, err)"
        using stall d run s1 False
        by (auto simp: dispatch_syscall_def syscall_numbers Let_def Option.bind_eq_Some_conv)
      show ?thesis
      proof (cases "err < 0")
        case True
        with stall d run s1 False c have "s' = set_result (- K_EINVAL) (reset_systimer e s1)"
          by (simp add: dispatch_syscall_def syscall_numbers Let_def)
        with s1(2) m1 show ?thesis by (auto simp: mode_ok_def)
      next
        case ok: False
        from stall_thread_ok [OF assms(1-3) st False c ok] d stall obtain k dl where
          "scheduler_ok e s' (wake k (stall_lists t (\<lambda>x. stall_until (blocks s x)) dl A))"
          "cpu_regs s' = cpu_regs (switch_effect A s)"
          by (metis option.inject prod.inject)
        moreover from this(2) have "mode_ok s' (wake k (stall_lists t (\<lambda>x. stall_until (blocks s x)) dl A))"
          using mode_switch [OF assms(1), of h]
          by (simp add: mode_ok_def running_switch wake_def stall_lists_def yield_lists_def)
        ultimately show ?thesis by blast
      qed
    qed
  next
    case exit
    obtain s1 where s1: "scheduler_cleanup_thread s = Some s1" "scheduler_ok e s1 (retire t (pid (blocks s t)) A)"
        "blocks s1 = blocks s"
      using cleanup_ok [OF assms(1-3)] .
    have "stall_sorted s1 (retire t (pid (blocks s t)) A)"
    proof (rule ccontr)
      assume "\<not> stall_sorted s1 (retire t (pid (blocks s t)) A)"
      then have "scheduler_round_robin e normal s1 = None"
        by (intro round_robin_halts [OF s1(2)]) (simp_all add: retire_def)
      with d exit s1(1) show False by (simp add: dispatch_syscall_def syscall_numbers)
    qed
    then have "stall_sorted s A"
      using stall_sorted_cong [of "retire t (pid (blocks s t)) A" A s1 s] s1(3) by (simp add: retire_def)
    from exit_thread_ok [OF assms(1-3) this] d exit have
      "scheduler_ok e s' (switch_lists (retire t (pid (blocks s t)) A))"
      "mode_ok s' (switch_lists (retire t (pid (blocks s t)) A))"
      by (metis option.inject prod.inject)+
    then show ?thesis by blast
  next
    case time
    with d have "\<exists>d v. s' = set_result v (s\<lparr>io_regs := d\<rparr>)"
      by (auto simp: dispatch_syscall_def syscall_numbers Let_def Option.bind_eq_Some_conv split: prod.splits)
    with assms(1) show ?thesis by (auto simp: mode_ok_def)
  next
    case tid
    with d run have "s' = set_result (int (tid (blocks s t))) s"
      by (simp add: dispatch_syscall_def syscall_numbers)
    with assms(1) show ?thesis by (auto simp: mode_ok_def)
  next
    case other
    then have "s' = s" using d by (simp add: dispatch_syscall_def is_valid_syscall_no_def)
    with assms(1) show ?thesis by (auto simp: mode_ok_def)
  qed
qed

lemma dispatch_cache:
  "dispatch_syscall e no s = Some (r, s') \<Longrightarrow> cache s' = cache s"
  by (auto simp: dispatch_syscall_def Option.bind_eq_Some_conv Let_def
      dest!: kept round_robin_kept split: if_splits prod.splits option.splits)

text \<open>A valid number never makes the dispatcher report an error.\<close>

lemma dispatch_nonneg:
  "dispatch_syscall e no s = Some (r, s') \<Longrightarrow> is_valid_syscall_no no \<Longrightarrow> r = 0"
  by (auto simp: dispatch_syscall_def is_valid_syscall_no_def Option.bind_eq_Some_conv Let_def
      split: if_splits prod.splits option.splits)

end
