(* ===== verification/Mmu_Tables.thy ===== *)
theory Mmu_Tables
  imports Mmu
begin

text \<open>
  The translation tables: packing and unpacking of entries are inverse, and what the two
  initialisation loops write into every entry, with the permissions that follow.
\<close>

section \<open>Packed structs\<close>

lemma word_bounds:
  "bit (x1 :: 1 word) n \<Longrightarrow> n = 0" "bit (x2 :: 2 word) n \<Longrightarrow> n < 2" "bit (x3 :: 3 word) n \<Longrightarrow> n < 3"
  "bit (x4 :: 4 word) n \<Longrightarrow> n < 4" "bit (x12 :: 12 word) n \<Longrightarrow> n < 12" "bit (x20 :: 20 word) n \<Longrightarrow> n < 20"
  "bit (x22 :: 22 word) n \<Longrightarrow> n < 22" "bit (x30 :: 30 word) n \<Longrightarrow> n < 30" 
  by (auto dest: bit_imp_le_length)

lemma bit_field: "bit (ucast (x :: 'a::len word) :: u32) n \<longleftrightarrow> n < 32 \<and> bit x n"
  "bit (ucast (w :: u32) :: 'a::len word) n \<longleftrightarrow> n < LENGTH('a) \<and> bit w n"
  "bit (ucast (y :: 1 word) * 2 :: u32) n \<longleftrightarrow> n = 1 \<and> bit y 0"
proof -
  show "bit (ucast (x :: 'a::len word) :: u32) n \<longleftrightarrow> n < 32 \<and> bit x n"
    by (auto simp: bit_simps dest: bit_imp_le_length)
  show "bit (ucast (w :: u32) :: 'a::len word) n \<longleftrightarrow> n < LENGTH('a) \<and> bit w n"
    by (auto simp: bit_simps dest: bit_imp_le_length)
  have e: "ucast y * 2 = push_bit 1 (ucast y :: u32)" by (simp add: push_bit_eq_mult)
  have "bit (push_bit 1 (ucast y :: u32)) n \<longleftrightarrow> 1 \<le> n \<and> n < 32 \<and> bit y (n - 1)"
    unfolding bit_push_bit_iff possible_bit_word by (auto simp: bit_simps simp del: push_bit_of_1 dest: bit_imp_le_length)
  then show "bit (ucast (y :: 1 word) * 2 :: u32) n \<longleftrightarrow> n = 1 \<and> bit y 0"
    unfolding e by (auto dest: word_bounds(1))
qed

lemma unpack_pack_l1_section: "unpack_l1_section (pack_l1_section s) = s"
    unfolding unpack_l1_section_def pack_l1_section_def
    by (rule l1_section.equality; simp; rule bit_word_eqI)
     (auto simp: bit_simps bit_field dest: word_bounds)

lemma unpack_pack_l2_handle: "unpack_l2_handle (pack_l2_handle s) = s"
    unfolding unpack_l2_handle_def pack_l2_handle_def
    by (rule l2_handle.equality; simp; rule bit_word_eqI)
     (auto simp: bit_simps bit_field dest: word_bounds)

lemma unpack_pack_l2_small_page: "unpack_l2_small_page (pack_l2_small_page s) = s"
    unfolding unpack_l2_small_page_def pack_l2_small_page_def
    by (rule l2_small_page.equality; simp; rule bit_word_eqI)
     (auto simp: bit_simps bit_field dest: word_bounds)

lemma unpack_pack_l1_fault: "unpack_l1_fault (pack_l1_fault s) = s"
    unfolding unpack_l1_fault_def pack_l1_fault_def
    by (rule l1_fault.equality; simp; rule bit_word_eqI)
     (auto simp: bit_simps bit_field dest: word_bounds)


lemma bit_part: "bit (push_bit k (ucast (ucast (drop_bit k w) :: 'a::len word) :: u32)) n \<longleftrightarrow>
    k \<le> n \<and> n < 32 \<and> n < k + LENGTH('a) \<and> bit w n" for w :: u32
  by (auto simp: bit_simps)

lemma bit_part0: "bit (ucast (ucast w :: 'a::len word) :: u32) n \<longleftrightarrow> n < 32 \<and> n < LENGTH('a) \<and> bit w n" for w :: u32
  by (auto simp: bit_simps)


lemma below_32: "n < 32 \<Longrightarrow> 20 \<le> n \<and> n < (32::nat) \<or> n = 19 \<or> n = 18 \<or> n = 17 \<or> n = 16 \<or> n = 15 \<or>
   n = 14 \<or> n = 13 \<or> n = 12 \<or> n = 11 \<or> n = 10 \<or> n = 9 \<or> n = 8 \<or> n = 7 \<or> n = 6 \<or> n = 5 \<or>
   n = 4 \<or> n = 3 \<or> n = 2 \<or> n = 1 \<or> n = 0" by arith

lemma pack_unpack_l1_fault: "pack_l1_fault (unpack_l1_fault w) = w"
proof (rule bit_word_eqI)
  fix n assume "n < LENGTH(32)"
  then have "n < 32" by simp
  from below_32 [OF this] show "bit (pack_l1_fault (unpack_l1_fault w)) n = bit w n"
    unfolding unpack_l1_fault_def pack_l1_fault_def l1_fault.simps bit_or_iff bit_part bit_part0
    by (elim disjE) (simp_all (no_asm_simp))
qed

lemma pack_unpack_l1_section: "pack_l1_section (unpack_l1_section w) = w"
proof (rule bit_word_eqI)
  fix n assume "n < LENGTH(32)"
  then have "n < 32" by simp
  from below_32 [OF this] show "bit (pack_l1_section (unpack_l1_section w)) n = bit w n"
    unfolding unpack_l1_section_def pack_l1_section_def l1_section.simps bit_or_iff bit_part bit_part0
    by (elim disjE) (simp_all (no_asm_simp))
qed

lemma pack_unpack_l2_handle: "pack_l2_handle (unpack_l2_handle w) = w"
proof (rule bit_word_eqI)
  fix n assume "n < LENGTH(32)"
  then have "n < 32" by simp
  from below_32 [OF this] show "bit (pack_l2_handle (unpack_l2_handle w)) n = bit w n"
    unfolding unpack_l2_handle_def pack_l2_handle_def l2_handle.simps bit_or_iff bit_part bit_part0
    by (elim disjE) (simp_all (no_asm_simp))
qed

lemma pack_unpack_l2_small_page: "pack_l2_small_page (unpack_l2_small_page w) = w"
proof (rule bit_word_eqI)
  fix n assume "n < LENGTH(32)"
  then have "n < 32" by simp
  from below_32 [OF this] show "bit (pack_l2_small_page (unpack_l2_small_page w)) n = bit w n"
    unfolding unpack_l2_small_page_def pack_l2_small_page_def l2_small_page.simps bit_or_iff bit_part bit_part0
    by (elim disjE) (simp_all (no_asm_simp))
qed

section \<open>Second level tables\<close>

definition user_page :: "u32 \<Rightarrow> l2_small_page" where
  "user_page base = (unpack_l2_small_page 0)\<lparr>p_pad0_set := 1, p_base_address := ucast (base div (4 * KiB)),
     p_XN := 1, p_AP2 := 0, p_AP1_0 := 3\<rparr>"

definition kernel_page :: "u32 \<Rightarrow> l2_small_page" where
  "kernel_page base = (unpack_l2_small_page 0)\<lparr>p_pad0_set := 1, p_base_address := ucast (base div (4 * KiB)),
     p_XN := 1, p_AP2 := 0, p_AP1_0 := 1\<rparr>"

lemma get_l2_small_page_eq:
  assumes "base mod (4 * KiB) = 0"
  shows "get_l2_small_page base (KREAD OR KWRITE) (UREAD OR UWRITE) = Some (user_page base)"
    "get_l2_small_page base (KREAD OR KWRITE) UNONE = Some (kernel_page base)"
  using assms
  by (simp_all add: get_l2_small_page_def add_read_def permission_defs get_AP_bits_def COMBINE_PERMISSIONS_def
      user_page_def kernel_page_def)

lemma mod_KiB: "x mod KiB = take_bit 10 x" "x mod (4 * KiB) = take_bit 12 x"
  by (simp_all add: take_bit_eq_mod KiB_def)

lemma page_aligned:
  "take_bit 12 (USER_STACK_BOTTOM_ADDRESS + of_nat i * STACK_SIZE + of_nat j * 4 * KiB) = 0"
  "take_bit 12 (KERNEL_STACK_BOTTOM_ADDRESS + of_nat i * STACK_SIZE + of_nat j * 4 * KiB) = 0"
proof -
  have a: "take_bit 12 (x + push_bit 12 y) = take_bit 12 x" for x y :: u32
    by (rule take_bit_add_aligned) (simp_all add: take_bit_push_bit)
  have b: "of_nat j * 4 * KiB = push_bit 12 (of_nat j :: u32)" "of_nat i * STACK_SIZE = push_bit 12 (of_nat i * 256 :: u32)"
    by (simp_all add: push_bit_eq_mult memory_map_defs)
  show "take_bit 12 (USER_STACK_BOTTOM_ADDRESS + of_nat i * STACK_SIZE + of_nat j * 4 * KiB) = 0"
    "take_bit 12 (KERNEL_STACK_BOTTOM_ADDRESS + of_nat i * STACK_SIZE + of_nat j * 4 * KiB) = 0"
    unfolding a b by (simp_all add: memory_map_defs)
qed

text \<open>One table: the guard page and 255 pages.\<close>

definition stack_table :: "(u32 \<Rightarrow> l2_small_page) \<Rightarrow> u32 \<Rightarrow> (nat \<Rightarrow> l2_entry) \<Rightarrow> nat \<Rightarrow> l2_entry" where
  "stack_table page base old j =
     (if j = 0 then 0 else if j < 256 then pack_l2_small_page (page (base + of_nat j * 4 * KiB)) else old j)"

lemma stack_table_loop:
  assumes "\<And>j. mk (base + of_nat j * 4 * KiB) = Some (page (base + of_nat j * 4 * KiB))"
  shows "for_upto 1 L2_STACK_TABLE_SIZE (\<lambda>j tables. do {
      p \<leftarrow> mk (base + of_nat j * 4 * KiB);
      Some (tables(k := (tables k)(j := pack_l2_small_page p)))
    }) (tables(k := (tables k)(0 := get_l2_guard_page))) = Some (tables(k := stack_table page base (tables k)))"
proof -
  let ?g = "\<lambda>j. tables(k := (\<lambda>i. if i < j then stack_table page base (tables k) i else tables k i))"
  have "(\<lambda>i. if i < L2_STACK_TABLE_SIZE then stack_table page base (tables k) i else tables k i) =
      stack_table page base (tables k)"
    by (auto simp: L2_STACK_TABLE_SIZE_def stack_table_def)
  then have "?g L2_STACK_TABLE_SIZE = tables(k := stack_table page base (tables k))" by simp
  moreover have "for_upto 1 L2_STACK_TABLE_SIZE (\<lambda>j tables. do {
      p \<leftarrow> mk (base + of_nat j * 4 * KiB);
      Some (tables(k := (tables k)(j := pack_l2_small_page p)))
    }) (tables(k := (tables k)(0 := get_l2_guard_page))) = Some (?g L2_STACK_TABLE_SIZE)"
  proof (rule for_upto_eq)
    show "?g 1 = tables(k := (tables k)(0 := get_l2_guard_page))"
      by (simp add: fun_eq_iff stack_table_def get_l2_guard_page_def)
    show "1 \<le> L2_STACK_TABLE_SIZE" by (simp add: L2_STACK_TABLE_SIZE_def)
    fix j assume "1 \<le> j" "j < L2_STACK_TABLE_SIZE"
    then have "stack_table page base (tables k) j = pack_l2_small_page (page (base + of_nat j * 4 * KiB))"
      by (simp add: stack_table_def L2_STACK_TABLE_SIZE_def)
    then show "(do {
      p \<leftarrow> mk (base + of_nat j * 4 * KiB);
      Some ((?g j)(k := (?g j k)(j := pack_l2_small_page p)))
    }) = Some (?g (Suc j))"
      by (auto simp: assms fun_eq_iff less_Suc_eq)
  qed
  ultimately show ?thesis by simp
qed

text \<open>All of them: tables 0 to 31 are the stacks of the threads, 32 to 37 those of the kernel.\<close>

definition stack_tables :: "(nat \<Rightarrow> nat \<Rightarrow> l2_entry) \<Rightarrow> nat \<Rightarrow> nat \<Rightarrow> l2_entry" where
  "stack_tables old i =
     (if i < 32 then stack_table user_page (USER_STACK_BOTTOM_ADDRESS + of_nat i * STACK_SIZE) (old i)
      else if i < 38 then stack_table kernel_page (KERNEL_STACK_BOTTOM_ADDRESS + of_nat (i - 32) * STACK_SIZE) (old i)
      else old i)"

lemma initialise_l2_stack_tables_eq: "initialise_l2_stack_tables tables = Some (stack_tables tables)"
proof -
  let ?u = "\<lambda>i. stack_table user_page (USER_STACK_BOTTOM_ADDRESS + of_nat i * STACK_SIZE) (tables i)"
  let ?g = "\<lambda>n i. if i < n then ?u i else tables i"
  let ?h = "\<lambda>n i. if i < 32 then ?u i else if i < 32 + n then stack_tables tables i else tables i"
  have "for_upto 0 USER_STACK_COUNT (\<lambda>i tables. do {
       let current_stack_base = USER_STACK_BOTTOM_ADDRESS + of_nat i * STACK_SIZE;
       let tables = tables(i := (tables i)(0 := get_l2_guard_page));
       for_upto 1 L2_STACK_TABLE_SIZE (\<lambda>j tables. do {
         page \<leftarrow> get_l2_small_page (current_stack_base + of_nat j * 4 * KiB) (KREAD OR KWRITE) (UREAD OR UWRITE);
         Some (tables(i := (tables i)(j := pack_l2_small_page page)))
       }) tables
     }) tables = Some (?g USER_STACK_COUNT)"
  proof (rule for_upto_eq, goal_cases)
    case (3 k)
    have "(?g k)(k := stack_table user_page (USER_STACK_BOTTOM_ADDRESS + of_nat k * STACK_SIZE) (?g k k)) = ?g (Suc k)"
      by (auto simp: fun_eq_iff less_Suc_eq)
    then show ?case
      unfolding Let_def
      by (subst stack_table_loop) (rule get_l2_small_page_eq, simp only: mod_KiB page_aligned, simp only:)
  qed simp_all
  moreover have "for_upto 0 KERNEL_STACK_COUNT (\<lambda>i tables. do {
       let current_stack_base = KERNEL_STACK_BOTTOM_ADDRESS + of_nat i * STACK_SIZE;
       let k = USER_STACK_COUNT + i;
       let tables = tables(k := (tables k)(0 := get_l2_guard_page));
       for_upto 1 L2_STACK_TABLE_SIZE (\<lambda>j tables. do {
         page \<leftarrow> get_l2_small_page (current_stack_base + of_nat j * 4 * KiB) (KREAD OR KWRITE) UNONE;
         Some (tables(k := (tables k)(j := pack_l2_small_page page)))
       }) tables
     }) (?g USER_STACK_COUNT) = Some (?h KERNEL_STACK_COUNT)"
  proof (rule for_upto_eq, goal_cases)
    case 1
    show ?case by (simp add: USER_STACK_COUNT_def fun_eq_iff)
  next
    case (3 k)
    let ?k = "USER_STACK_COUNT + k"
    have "(?h k)(?k := stack_table kernel_page (KERNEL_STACK_BOTTOM_ADDRESS + of_nat k * STACK_SIZE) (?h k ?k)) = ?h (Suc k)"
      using 3 by (auto simp: fun_eq_iff less_Suc_eq USER_STACK_COUNT_def KERNEL_STACK_COUNT_def stack_tables_def)
    then show ?case
      unfolding Let_def
      by (subst stack_table_loop) (rule get_l2_small_page_eq, simp only: mod_KiB page_aligned, simp only:)
  qed simp
  moreover have "?h KERNEL_STACK_COUNT = stack_tables tables"
    by (auto simp: stack_tables_def KERNEL_STACK_COUNT_def)
  ultimately show ?thesis
    unfolding initialise_l2_stack_tables_def by simp
qed

end
