(* ===== verification/Mmu_L1.thy ===== *)
theory Mmu_L1
  imports Mmu_Tables
begin

text \<open>
  The first level table that \<open>initialise_l1_table\<close> builds, entry by entry.
\<close>

section \<open>Entries\<close>

definition mk_section :: "u32 \<Rightarrow> 1 word \<Rightarrow> 2 word \<Rightarrow> 1 word \<Rightarrow> 1 word \<Rightarrow> l1_section" where
  "mk_section base ap2 ap xn pxn = (unpack_l1_section 0)\<lparr>s_PXN := pxn, s_pad1_set := 1, s_XN := xn,
     s_AP1_0 := ap, s_AP2 := ap2, s_base_address := ucast (base div MiB)\<rparr>"

definition mk_handle :: "u32 \<Rightarrow> l2_handle" where
  "mk_handle table = (unpack_l2_handle 0)\<lparr>h_pad1_set := 1, h_base_address := ucast (table div KiB)\<rparr>"

lemma mod_MiB: "x mod MiB = take_bit 20 x"
  by (simp add: take_bit_eq_mod KiB_def MiB_def)

lemma get_l1_section_eq:
  assumes "base mod MiB = 0"
  shows "get_l1_section base (KREAD OR KEXEC) UNONE = Some (mk_section base 1 1 0 0)"
    "get_l1_section base KREAD UNONE = Some (mk_section base 1 1 1 0)"
    "get_l1_section base (KREAD OR KWRITE) UNONE = Some (mk_section base 0 1 1 0)"
    "get_l1_section base (KREAD OR KWRITE) (UREAD OR UEXEC) = Some (mk_section base 0 2 0 1)"
    "get_l1_section base KREAD UREAD = Some (mk_section base 1 3 1 0)"
    "get_l1_section base (KREAD OR KWRITE) (UREAD OR UWRITE) = Some (mk_section base 0 3 1 0)"
  using assms
  by (simp_all add: get_l1_section_def l1_section_set_base_address_def add_read_def permission_defs
      get_AP_bits_def COMBINE_PERMISSIONS_def mk_section_def unpack_l1_section_def)

lemma mk_section_simps [simp]:
  "s_pad1_set (mk_section base ap2 ap xn pxn) = 1" "s_pad0_unset (mk_section base ap2 ap xn pxn) = 0"
  "b mod MiB = 0 \<Longrightarrow> l1_section_set_base_address (mk_section base ap2 ap xn pxn) b = Some (mk_section b ap2 ap xn pxn)"
  by (simp_all add: mk_section_def unpack_l1_section_def l1_section_set_base_address_def)

lemma mk_handle_simps [simp]:
  "h_pad1_set (mk_handle a) = 1" "h_pad0_unset (mk_handle a) = 0"
  "b mod KiB = 0 \<Longrightarrow> l2_handle_set_table_address (mk_handle a) b = Some (mk_handle b)"
  by (simp_all add: mk_handle_def unpack_l2_handle_def l2_handle_set_table_address_def)

lemma word1_0: "(x :: 1 word) = 0 \<longleftrightarrow> \<not> bit x 0"
  using bit_eq_iff [of x 0] word_bounds(1) [of x] by auto

lemma field_bit: "(ucast (drop_bit n (w :: u32)) :: 1 word) = 0 \<longleftrightarrow> \<not> bit w n"
  unfolding word1_0 bit_field(2) bit_drop_bit_eq by simp

lemma fault_bits:
  "f_pad1_unset (unpack_l1_fault w) = 0 \<longleftrightarrow> \<not> bit w 0" "f_pad0_unset (unpack_l1_fault w) = 0 \<longleftrightarrow> \<not> bit w 1"
  "s_pad1_set (unpack_l1_section w) = 0 \<longleftrightarrow> \<not> bit w 1"
  "h_pad1_set (unpack_l2_handle w) = 0 \<longleftrightarrow> \<not> bit w 0" "h_pad0_unset (unpack_l2_handle w) = 0 \<longleftrightarrow> \<not> bit w 1"
  using field_bit [of 0 w] field_bit [of 1 w]
  by (simp_all add: unpack_l1_fault_def unpack_l1_section_def unpack_l2_handle_def)

lemma type_of_section:
  assumes "s_pad1_set s = 1" "s_pad0_unset s = 0"
  shows "l1_entry_get_type (pack_l1_section s) = Some section_type"
proof -
  have "bit (pack_l1_section s) 1"
    using fault_bits(3) [of "pack_l1_section s"] assms(1) by (simp add: unpack_pack_l1_section)
  then show ?thesis using assms by (simp add: l1_entry_get_type_def fault_bits unpack_pack_l1_section)
qed

lemma type_of_handle:
  assumes "h_pad1_set h = 1" "h_pad0_unset h = 0"
  shows "l1_entry_get_type (pack_l2_handle h) = Some handle"
proof -
  have "bit (pack_l2_handle h) 0" "\<not> bit (pack_l2_handle h) 1"
    using assms fault_bits(4,5) [of "pack_l2_handle h"] by (simp_all add: unpack_pack_l2_handle)
  then show ?thesis using assms by (simp add: l1_entry_get_type_def fault_bits unpack_pack_l2_handle)
qed

lemma type_of_fault: "l1_entry_get_type 0 = Some fault"
  by (simp add: l1_entry_get_type_def fault_bits)

section \<open>One range\<close>

lemma range_loop:
  assumes "t \<in> T"
    and "\<And>k t. a \<le> k \<Longrightarrow> k < b \<Longrightarrow> t \<in> T \<Longrightarrow> l1_template_at e (of_nat (k * 1048576)) t = Some (f k)"
    and "\<And>k. a \<le> k \<Longrightarrow> k < b \<Longrightarrow> f k \<in> T"
  shows "l1_range_loop e (a * 1048576) (b * 1048576) t tab = Some (\<lambda>k. if a \<le> k \<and> k < b then f k else tab k)"
  using assms
proof (induction "b - a" arbitrary: a t tab)
  case 0
  then have "\<not> a < b" by simp
  then have "(\<lambda>k. if a \<le> k \<and> k < b then f k else tab k) = tab" by (intro ext) (simp, linarith)
  with \<open>\<not> a < b\<close> show ?case by (simp add: l1_range_loop.simps [of e "a * 1048576"])
next
  case (Suc n)
  then have ab: "a < b" by simp
  have "l1_range_loop e (Suc a * 1048576) (b * 1048576) (f a) (tab(a := f a)) =
      Some (\<lambda>k. if Suc a \<le> k \<and> k < b then f k else (tab(a := f a)) k)"
    by (rule Suc.hyps(1)) (use Suc.hyps(2) Suc.prems ab in auto)
  moreover have "(\<lambda>k. if Suc a \<le> k \<and> k < b then f k else (tab(a := f a)) k) = (\<lambda>k. if a \<le> k \<and> k < b then f k else tab k)"
    using ab by (auto simp: fun_eq_iff)
  moreover have "Suc a * 1048576 = a * 1048576 + 1048576" by simp
  ultimately show ?case
    using Suc.prems(2) [OF order_refl ab Suc.prems(1)] ab
    by (simp add: l1_range_loop.simps [of e "a * 1048576"] add.commute)
qed

lemma base_of_nat:
  assumes "k < 4096"
  shows "(of_nat (k * 1048576) :: u32) mod MiB = 0" "(of_nat (k * 1048576) :: u32) div MiB = of_nat k"
proof -
  have u: "unat (of_nat (k * 1048576) :: u32) = k * 1048576" using assms by (simp add: unat_of_nat del: of_nat_mult)
  have m: "unat MiB = 1048576" by (simp add: memory_map_defs)
  have "unat ((of_nat (k * 1048576) :: u32) mod MiB) = 0" "unat ((of_nat (k * 1048576) :: u32) div MiB) = k"
    unfolding unat_mod_distrib unat_div_distrib u m by simp_all
  moreover have "unat (of_nat k :: u32) = k" using assms by (simp add: unat_of_nat)
  ultimately show "(of_nat (k * 1048576) :: u32) div MiB = of_nat k" by (metis unsigned_word_eqI)
  show "(of_nat (k * 1048576) :: u32) mod MiB = 0"
    using \<open>unat ((of_nat (k * 1048576) :: u32) mod MiB) = 0\<close> by (simp only: unat_eq_0)
qed

definition section_at :: "nat \<Rightarrow> 1 word \<Rightarrow> 2 word \<Rightarrow> 1 word \<Rightarrow> 1 word \<Rightarrow> l1_entry" where
  "section_at k ap2 ap xn pxn = pack_l1_section (mk_section (of_nat (k * 1048576)) ap2 ap xn pxn)"

lemma fault_range:
  "l1_range_loop e (a * 1048576) (b * 1048576) 0 tab = Some (\<lambda>k. if a \<le> k \<and> k < b then 0 else tab k)"
  by (rule range_loop [where T = "{0}"]) (auto simp: l1_template_at_def type_of_fault)

lemma section_range:
  assumes "b \<le> 4096"
  shows "l1_range_loop e (a * 1048576) (b * 1048576) (pack_l1_section (mk_section base ap2 ap xn pxn)) tab =
    Some (\<lambda>k. if a \<le> k \<and> k < b then section_at k ap2 ap xn pxn else tab k)"
proof (rule range_loop [where T = "range (\<lambda>x. pack_l1_section (mk_section x ap2 ap xn pxn))"])
  fix k t assume "a \<le> k" "k < b" "t \<in> range (\<lambda>x. pack_l1_section (mk_section x ap2 ap xn pxn))"
  moreover from this assms have
    "l1_section_set_base_address (mk_section x ap2 ap xn pxn) (of_nat (k * 1048576)) =
      Some (mk_section (of_nat (k * 1048576)) ap2 ap xn pxn)" for x
    by (intro mk_section_simps(3) base_of_nat(1)) simp
  ultimately show "l1_template_at e (of_nat (k * 1048576)) t = Some (section_at k ap2 ap xn pxn)"
    by (auto simp: l1_template_at_def type_of_section unpack_pack_l1_section section_at_def simp del: of_nat_mult)
qed (auto simp: section_at_def)

lemma stack_overlay_range:
  assumes "b \<le> 122"
  shows "l1_range_loop e (a * 1048576) (b * 1048576) (pack_l2_handle (mk_handle x)) tab =
    Some (\<lambda>k. if a \<le> k \<and> k < b then pack_l2_handle (mk_handle x) else tab k)"
proof (rule range_loop [where T = "{pack_l2_handle (mk_handle x)}"])
  fix k t assume k: "a \<le> k" "k < b" "t \<in> {pack_l2_handle (mk_handle x)}"
  have "unat (of_nat (k * 1048576) :: u32) = k * 1048576" using k assms by (simp add: unat_of_nat del: of_nat_mult)
  then have "\<not> KERNEL_STACK_BOTTOM_ADDRESS \<le> of_nat (k * 1048576)"
    using k assms by (simp add: word_le_nat_alt memory_map_defs)
  then show "l1_template_at e (of_nat (k * 1048576)) t = Some (pack_l2_handle (mk_handle x))"
    using k by (simp add: l1_template_at_def type_of_handle del: of_nat_mult)
qed auto

lemma l2_table_aligned:
  assumes "l2_stack_tables_address e mod KiB = 0"
  shows "l2_stack_table e n mod KiB = 0"
proof -
  have "l2_stack_table e n = l2_stack_tables_address e + push_bit 10 (of_nat n)"
    by (simp add: l2_stack_table_def L2_STACK_TABLE_SIZE_def push_bit_eq_mult)
  then show ?thesis
    using assms take_bit_add_aligned [of 10 "push_bit 10 (of_nat n)" "l2_stack_tables_address e"]
    by (simp add: mod_KiB take_bit_push_bit)
qed

lemma kernel_stack_range:
  assumes "l2_stack_tables_address e mod KiB = 0"
  shows "l1_range_loop e (122 * 1048576) (128 * 1048576) (pack_l2_handle (mk_handle x)) tab =
    Some (\<lambda>k. if 122 \<le> k \<and> k < 128 then pack_l2_handle (mk_handle (l2_stack_table e (k - 90))) else tab k)"
proof (rule range_loop [where T = "range (\<lambda>x. pack_l2_handle (mk_handle x))"])
  fix k :: nat and t assume k: "122 \<le> k" "k < 128" "t \<in> range (\<lambda>x. pack_l2_handle (mk_handle x))"
  have u: "unat (of_nat (k * 1048576) :: u32) = k * 1048576" using k by (simp add: unat_of_nat del: of_nat_mult)
  then have le: "KERNEL_STACK_BOTTOM_ADDRESS \<le> of_nat (k * 1048576)"
    using k by (simp add: word_le_nat_alt memory_map_defs)
  have "USER_STACK_BOTTOM_ADDRESS \<le> of_nat (k * 1048576)"
    using k u by (simp add: word_le_nat_alt memory_map_defs)
  then have "unat (of_nat (k * 1048576) - USER_STACK_BOTTOM_ADDRESS) = k * 1048576 - 94371840"
    using u by (simp add: unat_sub memory_map_defs)
  then have "unat ((of_nat (k * 1048576) - USER_STACK_BOTTOM_ADDRESS) div STACK_SIZE) = k - 90"
    using k by (simp add: unat_div_distrib memory_map_defs diff_mult_distrib)
  then show "l1_template_at e (of_nat (k * 1048576)) t = Some (pack_l2_handle (mk_handle (l2_stack_table e (k - 90))))"
    using k le mk_handle_simps(3) [OF l2_table_aligned [OF assms, of "k - 90"]]
    by (auto simp: Let_def l1_template_at_def type_of_handle unpack_pack_l2_handle
        STACK_COUNT_def USER_STACK_COUNT_def KERNEL_STACK_COUNT_def simp del: of_nat_mult)
qed auto

section \<open>The whole table\<close>

definition l1_content :: "env \<Rightarrow> (nat \<Rightarrow> l1_entry) \<Rightarrow> nat \<Rightarrow> l1_entry" where
  "l1_content e old k =
     (if k = 0 then 0
      else if k = 1 then section_at k 1 1 0 0
      else if k = 2 then section_at k 1 1 1 0
      else if k = 3 then section_at k 0 1 1 0
      else if k = 4 then section_at k 0 2 0 1
      else if k = 5 then section_at k 1 3 1 0
      else if k = 6 then section_at k 0 3 1 0
      else if k < 15 then section_at k 0 1 1 0
      else if k = 15 then section_at 6 1 1 1 0
      else if k < 86 then 0
      else if k < 90 then pack_l2_handle (mk_handle (l2_stack_table e 0))
      else if k < 122 then section_at k 0 1 1 0
      else if k < 128 then pack_l2_handle (mk_handle (l2_stack_table e (k - 90)))
      else if k < 1008 then 0
      else if k < 1011 then section_at k 0 1 1 0
      else old k)"

text \<open>What a range holds, and where the ranges start (in MiB).\<close>

datatype range_kind = Guard | Sec "1 word" "2 word" "1 word" "1 word" | Overlay | Kernel_stacks

fun kind_entry :: "env \<Rightarrow> range_kind \<Rightarrow> nat \<Rightarrow> l1_entry" where
  "kind_entry e Guard k = 0"
| "kind_entry e (Sec ap2 ap xn pxn) k = section_at k ap2 ap xn pxn"
| "kind_entry e Overlay k = pack_l2_handle (mk_handle (l2_stack_table e 0))"
| "kind_entry e Kernel_stacks k = pack_l2_handle (mk_handle (l2_stack_table e (k - 90)))"

fun kind_template :: "env \<Rightarrow> range_kind \<Rightarrow> l1_entry \<Rightarrow> bool" where
  "kind_template e Guard t \<longleftrightarrow> t = 0"
| "kind_template e (Sec ap2 ap xn pxn) t \<longleftrightarrow> (\<exists>base. t = pack_l1_section (mk_section base ap2 ap xn pxn))"
| "kind_template e Overlay t \<longleftrightarrow> t = pack_l2_handle (mk_handle (l2_stack_table e 0))"
| "kind_template e Kernel_stacks t \<longleftrightarrow> (\<exists>x. t = pack_l2_handle (mk_handle x))"

definition range_kinds :: "range_kind list" where
  "range_kinds = [Guard, Sec 1 1 0 0, Sec 1 1 1 0, Sec 0 1 1 0, Sec 0 2 0 1, Sec 1 3 1 0, Sec 0 3 1 0,
     Sec 0 1 1 0, Sec 1 1 1 0, Guard, Sec 0 1 1 0, Guard, Overlay, Sec 0 1 1 0, Kernel_stacks]"

definition range_starts :: "nat list" where
  "range_starts = [0, 1, 2, 3, 4, 5, 6, 7, 15, 16, 1008, 1011, 86, 90, 122, 128]"

lemma range_starts_eq: "map unat address_range_starts = map (\<lambda>k. k * 1048576) range_starts"
  by (simp add: address_range_starts_def range_starts_def memory_map_defs)

lemma range_start:
  assumes "i < 16"
  shows "unat (address_range_starts ! i) = range_starts ! i * 1048576"
proof -
  have "length address_range_starts = 16" "length range_starts = 16"
    by (simp_all add: address_range_starts_def range_starts_def)
  then show ?thesis using arg_cong [OF range_starts_eq, of "\<lambda>l. l ! i"] assms by simp
qed

lemma below_15:
  assumes "i < 15"
  shows "i = 14 \<or> i = 13 \<or> i = 12 \<or> i = 11 \<or> i = 10 \<or> i = 9 \<or> i = 8 \<or> i = 7 \<or> i = 6 \<or> i = 5 \<or>
    i = 4 \<or> i = 3 \<or> i = 2 \<or> i = 1 \<or> i = (0 :: nat)"
  using assms by arith

lemma range_limits:
  assumes "i < 15"
  shows "range_starts ! Suc i \<le> 4096" "range_kinds ! i = Overlay \<Longrightarrow> range_starts ! Suc i \<le> 122"
    "range_kinds ! i = Kernel_stacks \<Longrightarrow> range_starts ! i = 122 \<and> range_starts ! Suc i = 128"
  using below_15 [OF assms] by (auto simp: range_starts_def range_kinds_def)

lemma kind_range:
  assumes "kind_template e kind t" "b \<le> 4096" "kind = Overlay \<Longrightarrow> b \<le> 122"
    and "kind = Kernel_stacks \<Longrightarrow> a = 122 \<and> b = 128" "l2_stack_tables_address e mod KiB = 0"
  shows "l1_range_loop e (a * 1048576) (b * 1048576) t tab =
    Some (\<lambda>k. if a \<le> k \<and> k < b then kind_entry e kind k else tab k)"
proof (cases kind)
  case Guard
  then show ?thesis using assms(1) unfolding Guard by (simp add: fault_range cong: if_cong)
next
  case (Sec ap2 ap xn pxn)
  then show ?thesis using assms(1) section_range [OF assms(2)] unfolding Sec by (auto cong: if_cong)
next
  case Overlay
  then show ?thesis using assms(1) stack_overlay_range [OF assms(3) [OF Overlay]] unfolding Overlay by (simp cong: if_cong)
next
  case Kernel_stacks
  then show ?thesis using assms(1) assms(4) [OF Kernel_stacks] kernel_stack_range [OF assms(5)]
    unfolding Kernel_stacks by (auto cong: if_cong)
qed

lemma get_stack_handle_mk: "a mod KiB = 0 \<Longrightarrow> get_stack_handle a = Some (mk_handle a)"
  by (simp add: get_stack_handle_def l2_handle_set_table_address_def mk_handle_def)

lemma sections_aligned:
  "INIT_TEXT_SECTION_START_ADDRESS mod MiB = 0" "RODATA_SECTION_START_ADDRESS mod MiB = 0"
  "BSS_DATA_SECTION_START_ADDRESS mod MiB = 0" "UTEXT_SECTION_START_ADDRESS mod MiB = 0"
  "URODATA_SECTION_START_ADDRESS mod MiB = 0" "UBSS_UDATA_SECTION_START_ADDRESS mod MiB = 0"
  "UBSS_UDATA_KERNEL_MAP_START_ADDRESS mod MiB = 0" "MMIO_DEVICES_START_ADDRESS mod MiB = 0"
  "USER_STACK_KERNEL_ONLY_MAPPING_START_ADDRESS mod MiB = 0"
  by (simp_all add: memory_map_defs)

lemma sections_eq:
  assumes "l2_stack_tables_address e mod KiB = 0"
  shows "\<exists>secs. l1_sections e = Some secs \<and> list_all2 (kind_template e) range_kinds secs"
proof -
  note h = get_stack_handle_mk [OF l2_table_aligned [OF assms]]
  have g: "pack_l1_fault get_l1_guard_page = 0"
    by (simp add: get_l1_guard_page_def pack_unpack_l1_fault)
  note s = sections_aligned [THEN get_l1_section_eq(1)] sections_aligned [THEN get_l1_section_eq(2)]
    sections_aligned [THEN get_l1_section_eq(3)] sections_aligned [THEN get_l1_section_eq(4)]
    sections_aligned [THEN get_l1_section_eq(5)] sections_aligned [THEN get_l1_section_eq(6)]
  show ?thesis
    unfolding l1_sections_def l1_section_entry_def s h g
    by (auto simp: range_kinds_def)
qed

fun l1_after :: "env \<Rightarrow> (nat \<Rightarrow> l1_entry) \<Rightarrow> nat \<Rightarrow> nat \<Rightarrow> l1_entry" where
  "l1_after e old 0 = old"
| "l1_after e old (Suc i) = (\<lambda>k. if range_starts ! i \<le> k \<and> k < range_starts ! Suc i
     then kind_entry e (range_kinds ! i) k else l1_after e old i k)"

lemma l1_after_unroll:
  "l1_after e old (Suc (Suc (Suc (Suc (Suc (Suc (Suc (Suc (Suc (Suc (Suc (Suc (Suc (Suc (Suc (0)))))))))))))))) k =
    (if 122 \<le> k \<and> k < 128 then kind_entry e Kernel_stacks k
     else if 90 \<le> k \<and> k < 122 then kind_entry e (Sec 0 1 1 0) k
     else if 86 \<le> k \<and> k < 90 then kind_entry e Overlay k
     else if 1011 \<le> k \<and> k < 86 then kind_entry e Guard k
     else if 1008 \<le> k \<and> k < 1011 then kind_entry e (Sec 0 1 1 0) k
     else if 16 \<le> k \<and> k < 1008 then kind_entry e Guard k
     else if 15 \<le> k \<and> k < 16 then kind_entry e (Sec 1 1 1 0) k
     else if 7 \<le> k \<and> k < 15 then kind_entry e (Sec 0 1 1 0) k
     else if 6 \<le> k \<and> k < 7 then kind_entry e (Sec 0 3 1 0) k
     else if 5 \<le> k \<and> k < 6 then kind_entry e (Sec 1 3 1 0) k
     else if 4 \<le> k \<and> k < 5 then kind_entry e (Sec 0 2 0 1) k
     else if 3 \<le> k \<and> k < 4 then kind_entry e (Sec 0 1 1 0) k
     else if 2 \<le> k \<and> k < 3 then kind_entry e (Sec 1 1 1 0) k
     else if 1 \<le> k \<and> k < 2 then kind_entry e (Sec 1 1 0 0) k
     else if 0 \<le> k \<and> k < 1 then kind_entry e Guard k
     else old k)"
  unfolding l1_after.simps range_starts_def range_kinds_def nth_Cons_Suc nth_Cons_0 by (rule refl)

lemma below_1011:
  obtains "k < 16" | "16 \<le> k \<and> k < 86" | "86 \<le> k \<and> k < 90" | "90 \<le> k \<and> k < 122" | "122 \<le> k \<and> k < 128"
    | "128 \<le> k \<and> k < 1008" | "1008 \<le> k \<and> k < 1011" | "1011 \<le> (k :: nat)"
  by arith

lemma l1_after_15: "(l1_after e old 15)(15 := section_at 6 1 1 1 0) = l1_content e old"
proof
  fix k :: nat
  have s: "15 = Suc (Suc (Suc (Suc (Suc (Suc (Suc (Suc (Suc (Suc (Suc (Suc (Suc (Suc (Suc (0)))))))))))))))" by simp
  have k: "k < 16 \<Longrightarrow> k < 15 \<or> k = 15" by arith
  have "((l1_after e old (Suc (Suc (Suc (Suc (Suc (Suc (Suc (Suc (Suc (Suc (Suc (Suc (Suc (Suc (Suc (0)))))))))))))))))(15 := section_at 6 1 1 1 0)) k = l1_content e old k"
  proof (cases k rule: below_1011)
    case 1
    with k consider "k < 15" | "k = 15" by blast
    then show ?thesis
    proof cases
      case 1
      from below_15 [OF this] show ?thesis
        by (elim disjE) (simp_all add: l1_after_unroll l1_content_def del: l1_after.simps)
    next
      case 2
      then show ?thesis by (simp add: l1_content_def)
    qed
  qed (simp_all add: l1_after_unroll l1_content_def del: l1_after.simps)
  then show "((l1_after e old 15)(15 := section_at 6 1 1 1 0)) k = l1_content e old k"
    unfolding s .
qed

lemma initialise_l1_table_eq:
  assumes "l2_stack_tables_address e mod KiB = 0"
  shows "initialise_l1_table e old = Some (l1_content e old)"
proof -
  obtain secs where secs: "l1_sections e = Some secs" "list_all2 (kind_template e) range_kinds secs"
    using sections_eq [OF assms] by blast
  have len: "length range_kinds = 15" by (simp add: range_kinds_def)
  have "for_upto 0 DISTINCT_SECTIONS_COUNT (\<lambda>i l1_table.
       l1_range_loop e (unat (address_range_starts ! i)) (unat (address_range_starts ! (i + 1)))
         (secs ! i) l1_table) old = Some (l1_after e old DISTINCT_SECTIONS_COUNT)"
  proof (rule for_upto_eq, goal_cases)
    case (3 i)
    then have i: "i < 15" by (simp add: DISTINCT_SECTIONS_COUNT_def)
    then have "kind_template e (range_kinds ! i) (secs ! i)" using secs(2) len by (simp add: list_all2_nthD)
    from kind_range [OF this range_limits(1) [OF i] range_limits(2) [OF i] range_limits(3) [OF i] assms]
    show ?case using i by (simp add: range_start)
  qed simp_all
  moreover have "l1_section_entry UBSS_UDATA_SECTION_START_ADDRESS KREAD UNONE = Some (section_at 6 1 1 1 0)"
    using get_l1_section_eq(2) [OF sections_aligned(6)]
    by (simp add: l1_section_entry_def section_at_def memory_map_defs)
  moreover have "unat (UBSS_UDATA_KERNEL_ORIGINAL_MAP_START_ADDRESS div MiB) = 15" by (simp add: memory_map_defs)
  ultimately show ?thesis
    using secs(1) l1_after_15 [of e old] by (simp add: initialise_l1_table_def DISTINCT_SECTIONS_COUNT_def)
qed

lemma mmu_configure_eq:
  assumes "l2_stack_tables_address e mod KiB = 0"
  shows "mmu_configure e m = Some (m\<lparr>mmu_l1_table := l1_content e (mmu_l1_table m),
    mmu_l2_stack_tables := stack_tables (mmu_l2_stack_tables m),
    cp15_regs := \<lparr>TTBR0 = l1_table_address e,
      DACR = (DACR (cp15_regs m) AND NOT 3) OR 1,
      TTBCR = TTBCR (cp15_regs m) AND NOT (push_bit 31 1),
      SCTLR = (SCTLR (cp15_regs m) AND NOT (push_bit 2 1 OR push_bit 12 1)) OR 1\<rparr>\<rparr>)"
  by (simp add: mmu_configure_def initialise_l2_stack_tables_eq initialise_l1_table_eq [OF assms] DACR_set_domain_def
      TTBCR_set_translation_table_format_def SCTRL_deactivate_caches_def SCTRL_activate_mmu_def
      MMU_enable_def cache_enable_def instruction_cache_enable_def Let_def)

section \<open>Permissions\<close>

text \<open>What the access permission bits and the two execute-never bits allow (short descriptors).\<close>

definition user_read :: "l1_section \<Rightarrow> bool" where
  "user_read s \<longleftrightarrow> s_AP1_0 s = 2 \<or> s_AP1_0 s = 3"

definition user_write :: "l1_section \<Rightarrow> bool" where
  "user_write s \<longleftrightarrow> s_AP2 s = 0 \<and> s_AP1_0 s = 3"

definition user_exec :: "l1_section \<Rightarrow> bool" where
  "user_exec s \<longleftrightarrow> user_read s \<and> s_XN s = 0"

definition kernel_read :: "l1_section \<Rightarrow> bool" where
  "kernel_read s \<longleftrightarrow> s_AP1_0 s \<noteq> 0"

definition kernel_write :: "l1_section \<Rightarrow> bool" where
  "kernel_write s \<longleftrightarrow> s_AP2 s = 0 \<and> s_AP1_0 s \<noteq> 0"

definition kernel_exec :: "l1_section \<Rightarrow> bool" where
  "kernel_exec s \<longleftrightarrow> kernel_read s \<and> s_XN s = 0 \<and> s_PXN s = 0"

lemmas access_defs = user_read_def user_write_def user_exec_def kernel_read_def kernel_write_def kernel_exec_def

lemma mk_section_fields [simp]:
  "s_AP2 (mk_section base ap2 ap xn pxn) = ap2" "s_AP1_0 (mk_section base ap2 ap xn pxn) = ap"
  "s_XN (mk_section base ap2 ap xn pxn) = xn" "s_PXN (mk_section base ap2 ap xn pxn) = pxn"
  "s_base_address (mk_section base ap2 ap xn pxn) = ucast (base div MiB)"
  by (simp_all add: mk_section_def unpack_l1_section_def)

lemma section_at_unpack: "unpack_l1_section (section_at k ap2 ap xn pxn) = mk_section (of_nat (k * 1048576)) ap2 ap xn pxn"
  by (simp add: section_at_def unpack_pack_l1_section)

lemma section_at_type: "l1_entry_get_type (section_at k ap2 ap xn pxn) = Some section_type"
  by (simp add: section_at_def type_of_section)

text \<open>No section can be both written and executed, at either level.\<close>

lemma write_xor_exec:
  assumes "l1_entry_get_type (l1_content e old k) = Some section_type" "k < 1011"
  shows "\<not> (user_write (unpack_l1_section (l1_content e old k)) \<and> user_exec (unpack_l1_section (l1_content e old k)))"
    "\<not> (kernel_write (unpack_l1_section (l1_content e old k)) \<and> kernel_exec (unpack_l1_section (l1_content e old k)))"
  using assms
  by (auto simp: l1_content_def type_of_fault type_of_handle section_at_unpack access_defs split: if_splits)

text \<open>The permissions of the enumerations: three bits for each level.\<close>

definition grants :: "permissions \<Rightarrow> permissions \<Rightarrow> l1_section \<Rightarrow> bool" where
  "grants kp up s \<longleftrightarrow>
     (user_read s \<longleftrightarrow> up AND (UREAD OR UEXEC) \<noteq> 0) \<and> (user_write s \<longleftrightarrow> up AND UWRITE \<noteq> 0) \<and>
     (kernel_read s \<longleftrightarrow> kp AND (KREAD OR KEXEC) \<noteq> 0) \<and> (kernel_write s \<longleftrightarrow> kp AND KWRITE \<noteq> 0) \<and>
     (kernel_exec s \<longleftrightarrow> kp AND KEXEC \<noteq> 0) \<and>
     (user_exec s \<longleftrightarrow> up AND UEXEC \<noteq> 0 \<or> kp AND KEXEC \<noteq> 0 \<and> up AND UREAD \<noteq> 0)"

lemma grants_all:
  "list_all (\<lambda>kp. list_all (\<lambda>up. case get_l1_section 0 kp up of None \<Rightarrow> True | Some s \<Rightarrow> grants kp up s)
     [0, 1, 2, 3, 4, 5, 6, 7]) [0, 1, 2, 3, 4, 5, 6, 7]"
  by code_simp

lemma below_8: "x < 8 \<Longrightarrow> x \<in> set [0, 1, 2, 3, 4, 5, 6, 7 :: u32]"
proof -
  assume "x < 8"
  then have "unat x \<in> set [0..<8]" by (simp add: word_less_nat_alt)
  then have "of_nat (unat x) \<in> set (map of_nat [0..<8] :: u32 list)" unfolding set_map by (rule imageI)
  moreover have "map of_nat [0..<8] = [0, 1, 2, 3, 4, 5, 6, 7 :: u32]" by code_simp
  ultimately show ?thesis by (simp only: of_nat_unat) simp
qed

lemma get_l1_section_base:
  assumes "get_l1_section base kp up = Some s"
  shows "\<exists>s0. get_l1_section 0 kp up = Some s0 \<and> s = s0\<lparr>s_base_address := s_base_address s\<rparr>"
  using assms
  by (auto simp: get_l1_section_def l1_section_set_base_address_def Let_def Option.bind_eq_Some_conv unpack_l1_section_def
      split: if_splits)

lemma grants_base: "grants kp up (s\<lparr>s_base_address := b\<rparr>) = grants kp up s"
  by (simp add: grants_def access_defs)

lemma get_l1_section_grants:
  assumes "kp < 8" "up < 8" "get_l1_section base kp up = Some s"
  shows "grants kp up s"
proof -
  obtain s0 where s0: "get_l1_section 0 kp up = Some s0" "s = s0\<lparr>s_base_address := s_base_address s\<rparr>"
    using get_l1_section_base [OF assms(3)] by blast
  have "grants kp up s0"
    using grants_all below_8 [OF assms(1)] below_8 [OF assms(2)] s0(1) unfolding list_all_iff by fastforce
  then show ?thesis using s0(2) grants_base by metis
qed

section \<open>Stack handles\<close>

text \<open>Different stacks have different tables, so different handles.\<close>

lemma of_nat_eq_iff_u32:
  assumes "a < 4294967296" "b < 4294967296"
  shows "(of_nat a :: u32) = of_nat b \<longleftrightarrow> a = b"
  using assms by (auto dest: arg_cong [of _ _ unat] simp: unat_of_nat)

lemma mk_handle_base: "h_base_address (mk_handle a) = ucast (a div KiB)"
  by (simp add: mk_handle_def)

lemma div_KiB_22:
  fixes a b :: u32
  assumes "(ucast (a div KiB) :: 22 word) = ucast (b div KiB)"
  shows "a div KiB = b div KiB"
proof -
  have d: "x div KiB = drop_bit 10 x" for x :: u32
    by (simp add: KiB_def drop_bit_eq_div)
  show ?thesis
  proof (rule bit_word_eqI)
    fix n assume "n < LENGTH(32)"
    have "bit (ucast (a div KiB) :: 22 word) n = bit (ucast (b div KiB) :: 22 word) n" by (simp add: assms)
    then show "bit (a div KiB) n = bit (b div KiB) n"
      unfolding d by (cases "n < 22") (auto simp: bit_simps dest: bit_imp_le_length)
  qed
qed

lemma l2_stack_table_inj:
  assumes "n < 38" "m < 38" "l2_stack_table e n = l2_stack_table e m"
  shows "n = m"
proof -
  have "(of_nat (n * 1024) :: u32) = of_nat (m * 1024)"
    using assms(3) by (simp add: l2_stack_table_def L2_STACK_TABLE_SIZE_def)
  then have "n * 1024 = m * 1024"
    using assms(1,2) by (subst (asm) of_nat_eq_iff_u32) auto
  then show ?thesis by simp
qed

lemma get_nth_stack_handle_inj:
  assumes "l2_stack_tables_address e mod KiB = 0" "n < 38" "m < 38"
    and "get_nth_stack_handle e n = Some h" "get_nth_stack_handle e m = Some h"
  shows "n = m"
proof -
  have "mk_handle (l2_stack_table e n) = mk_handle (l2_stack_table e m)"
    using assms(4,5) by (simp add: get_nth_stack_handle_def get_stack_handle_mk l2_table_aligned [OF assms(1)])
  then have "(ucast (l2_stack_table e n div KiB) :: 22 word) = ucast (l2_stack_table e m div KiB)"
    by (metis mk_handle_base)
  then have "l2_stack_table e n div KiB = l2_stack_table e m div KiB" by (rule div_KiB_22)
  then have "l2_stack_table e n = l2_stack_table e m"
    by (metis l2_table_aligned [OF assms(1)] div_mult_mod_eq)
  then show ?thesis by (rule l2_stack_table_inj [OF assms(2,3)])
qed

end
