(* ===== verification/Scheduler_Init.thy ===== *)
theory Scheduler_Init
  imports Scheduler_Frame Mmu_L1
begin

text \<open>
  The start of the scheduler: from the static initialisers of \<^verbatim>\<open>kernel/scheduler.c\<close> (everything
  without one is zero) \<open>scheduler_initialise\<close> establishes the invariant, with one thread ready.
\<close>

section \<open>The static state\<close>

definition initial_nodes :: "naddr heap" where
  "initial_nodes a = \<lparr>previous = None, nxt = (if a = Finished_list then Some (Scheduler_node 0) else None)\<rparr>"

definition zero_registers :: registers where
  "zero_registers = \<lparr>general = (\<lambda>_. 0), sp = 0, lr = 0, pc = 0\<rparr>"

definition zero_tcb :: tcb where
  "zero_tcb = \<lparr>regs = zero_registers, cpsr = 0, pid = 0, pid_slot = 0, tid = 0,
     stack_handle = unpack_l2_handle 0, stall_until = 0\<rparr>"

definition boot_kernel ::
  "(nat \<Rightarrow> l1_entry) \<Rightarrow> (u32 \<Rightarrow> u8) \<Rightarrow> registers \<Rightarrow> cpu \<Rightarrow> io \<Rightarrow> k_ringbuffer \<Rightarrow> kernel" where
  "boot_kernel table m f c d uart = \<lparr>nodes = initial_nodes, blocks = (\<lambda>_. zero_tcb),
     process_stack_handles = (\<lambda>_ _. unpack_l2_handle 0), slots_used = (\<lambda>_ _. False),
     l1_table = table, mem = m, frame = f, cpu_regs = c, io_regs = d, cache = uart\<rparr>"

section \<open>The loop over the control blocks\<close>

definition ring_node :: "nat \<Rightarrow> naddr k_node" where
  "ring_node i = \<lparr>previous = Some (Scheduler_node ((i + 31) mod 32)), nxt = Some (Scheduler_node ((i + 1) mod 32))\<rparr>"

definition own_node :: "naddr \<Rightarrow> naddr k_node" where
  "own_node a = \<lparr>previous = Some a, nxt = Some a\<rparr>"

lemma modulo_neighbours:
  assumes "i < 32"
  shows "map_option unat (k_modulo_sub (of_nat i) 1 0 (of_nat USER_THREAD_COUNT)) = Some ((i + 31) mod 32)"
    "map_option unat (k_modulo_add (of_nat i) 1 0 (of_nat USER_THREAD_COUNT)) = Some ((i + 1) mod 32)"
proof -
  have u: "unat (of_nat i :: u32) = i" using assms by (simp add: unat_of_nat)
  have n: "of_nat USER_THREAD_COUNT = (32 :: u32)" by (simp add: USER_THREAD_COUNT_def)
  show "map_option unat (k_modulo_sub (of_nat i) 1 0 (of_nat USER_THREAD_COUNT)) = Some ((i + 31) mod 32)"
    using k_modulo_sub_zero_min [of 32 "of_nat i" 1] assms unfolding n u by simp
  show "map_option unat (k_modulo_add (of_nat i) 1 0 (of_nat USER_THREAD_COUNT)) = Some ((i + 1) mod 32)"
    using k_modulo_add_zero_min [of 32 "of_nat i" 1] unfolding n u by simp
qed

text \<open>The first \<open>k\<close> blocks are initialised.\<close>

definition blocks_done :: "env \<Rightarrow> nat \<Rightarrow> kernel \<Rightarrow> kernel \<Rightarrow> bool" where
  "blocks_done e k s0 s \<longleftrightarrow>
     (\<forall>i. nodes s (Scheduler_node i) = (if i < k then ring_node i else nodes s0 (Scheduler_node i)) \<and>
       nodes s (Addrspace_node i) = (if i < k then own_node (Addrspace_node i) else nodes s0 (Addrspace_node i))) \<and>
     (\<forall>l \<in> heads. nodes s l = nodes s0 l) \<and>
     (\<forall>i < k. tid (blocks s i) = i \<and> get_nth_stack_handle e i = Some (stack_handle (blocks s i))) \<and>
     slots_used s = slots_used s0 \<and> cache s = cache s0 \<and> cpu_regs s = cpu_regs s0"

lemma stack_handle_exists:
  assumes "l2_stack_tables_address e mod KiB = 0"
  shows "\<exists>hd. get_nth_stack_handle e i = Some hd"
  using get_stack_handle_mk [OF l2_table_aligned [OF assms]] by (simp add: get_nth_stack_handle_def)

lemma initialise_block_step:
  assumes "l2_stack_tables_address e mod KiB = 0" "blocks_done e k s0 s" "k < 32"
  shows "\<exists>s'. scheduler_initialise_block e k s = Some s' \<and> blocks_done e (Suc k) s0 s'"
proof -
  obtain hd where hd: "get_nth_stack_handle e k = Some hd" using stack_handle_exists [OF assms(1)] by blast
  obtain p n where pn: "k_modulo_sub (of_nat k) 1 0 (of_nat USER_THREAD_COUNT) = Some p" "unat p = (k + 31) mod 32"
      "k_modulo_add (of_nat k) 1 0 (of_nat USER_THREAD_COUNT) = Some n" "unat n = (k + 1) mod 32"
    using modulo_neighbours [OF assms(3)] by auto
  show ?thesis
    using assms(2) hd pn
    by (auto simp: scheduler_initialise_block_def Let_def blocks_done_def set_thread_def ring_node_def
        own_node_def less_Suc_eq heads_def)
qed

lemma ring_upt:
  assumes "\<And>i. i < 32 \<Longrightarrow> h (Scheduler_node i) = ring_node i"
  shows "ring h (map Scheduler_node [0..<32])"
proof -
  have l: "link h (Scheduler_node i) (Scheduler_node (Suc i))" if "Suc i < 32" for i
  proof -
    have "(Suc i + 31) mod 32 = i" using that by simp
    then show ?thesis using assms [of i] assms [of "Suc i"] that by (simp add: link_def ring_node_def)
  qed
  have c: "chain h (Scheduler_node a) (map Scheduler_node [Suc a..<Suc a + n])" if "a + n < 32" for a n
    using that
  proof (induction n arbitrary: a)
    case (Suc n)
    have "[Suc a..<Suc a + Suc n] = Suc a # [Suc (Suc a)..<Suc (Suc a) + n]"
      by (subst upt_conv_Cons) simp_all
    then show ?case using Suc.IH [of "Suc a"] Suc.prems l [of a] by simp
  qed simp
  have "[0..<32] = 0 # [Suc 0..<Suc 0 + 31]" by (subst upt_conv_Cons) simp_all
  moreover have "link h (Scheduler_node 31) (Scheduler_node 0)"
    using assms [of 31] assms [of 0] by (simp add: link_def ring_node_def)
  ultimately show ?thesis using c [of 0 31] by (simp add: last_map del: upt_Suc)
qed

section \<open>The invariant after the initialisation\<close>

definition boot_lists :: sched where
  "boot_lists = \<lparr>ready = [], stalled = [], waiting = [], running = [], finished = [0..<32], space = (\<lambda>_. [])\<rparr>"

lemma boot_family:
  assumes "\<And>i. i < 32 \<Longrightarrow> h (Scheduler_node i) = ring_node i"
    and "\<And>i. i < 33 \<Longrightarrow> h (Addrspace_node i) = own_node (Addrspace_node i)"
    and "h (Scheduler_node 32) = own_node (Scheduler_node 32)"
    and "\<And>l. l \<in> heads \<Longrightarrow> h l = initial_nodes l"
  shows "lists h boot_lists"
proof -
  have empty: "klist h l []" if "l \<in> heads" "l \<noteq> Finished_list" for l
    using assms(4) that by (simp add: klist_def initial_nodes_def)
  have ne: "[0..<32::nat] \<noteq> []" by simp
  have fin: "klist h Finished_list (map Scheduler_node [0..<32])"
    using ring_upt [OF assms(1)] assms(4) [of Finished_list]
    by (simp add: klist_def initial_nodes_def distinct_map inj_on_def hd_map del: upt_rec_numeral)
  have lone: "lone h n" if "n \<in> thread_nodes" "n \<notin> Scheduler_node ` {..<32}" for n
  proof -
    have "n = Scheduler_node 32 \<or> (\<exists>i < 33. n = Addrspace_node i)"
      using that by (auto simp: thread_nodes_def THREAD_COUNT_def USER_THREAD_COUNT_def less_Suc_eq)
    then show ?thesis using assms(2,3) by (auto simp: lone_def link_def own_node_def)
  qed
  have L: "lists_of boot_lists l = (if l = Finished_list then map Scheduler_node [0..<32] else [])" for l
    by (cases l) (simp_all add: boot_lists_def)
  have s: "set (map Scheduler_node [0..<32]) = Scheduler_node ` {..<32}" by auto
  have "Scheduler_node ` {..<32} \<subseteq> thread_nodes"
    by (auto simp: thread_nodes_def THREAD_COUNT_def USER_THREAD_COUNT_def)
  moreover have "heads \<inter> thread_nodes = {}" by (auto simp: heads_def thread_nodes_def)
  moreover have "lone h n" if "n \<in> thread_nodes" "\<forall>l \<in> heads. n \<notin> set (lists_of boot_lists l)" for n
    using lone [OF that(1)] that(2) s by (metis L heads_simps(5))
  ultimately show ?thesis
    using empty fin unfolding lists_def family_def L by (auto simp del: upt_rec_numeral)
qed

lemma initialise_ok:
  assumes "l2_stack_tables_address e mod KiB = 0"
  obtains s' where "scheduler_initialise e (boot_kernel table m f c d uart) = Some s'"
    "scheduler_ok e s' (spawn 0 0 boot_lists)" "cache s' = uart" "cpu_regs s' = c"
proof -
  let ?s0 = "boot_kernel table m f c d uart"
  have "\<exists>s. for_upto 0 USER_THREAD_COUNT (scheduler_initialise_block e) ?s0 = Some s \<and>
      blocks_done e USER_THREAD_COUNT ?s0 s"
  proof (rule for_upto_rule)
    show "blocks_done e 0 ?s0 ?s0" by (simp add: blocks_done_def)
    show "\<exists>s'. scheduler_initialise_block e k s = Some s' \<and> blocks_done e (Suc k) ?s0 s'"
      if "0 \<le> k" "k < USER_THREAD_COUNT" "blocks_done e k ?s0 s" for k s
      using initialise_block_step [OF assms that(3)] that(2) by (simp add: USER_THREAD_COUNT_def)
  qed simp
  then obtain s1 where s1: "for_upto 0 USER_THREAD_COUNT (scheduler_initialise_block e) ?s0 = Some s1"
      "blocks_done e 32 ?s0 s1" by (auto simp: USER_THREAD_COUNT_def)
  define s2 where "s2 = s1\<lparr>nodes := (nodes s1)(
      Scheduler_node IDLE_THREAD_INDEX := own_node (Scheduler_node IDLE_THREAD_INDEX),
      Addrspace_node IDLE_THREAD_INDEX := own_node (Addrspace_node IDLE_THREAD_INDEX))\<rparr>"
  define s3 where "s3 = scheduler_initialise_idle_thread_context e s2"
  have i: "IDLE_THREAD_INDEX = 32" by (simp add: IDLE_THREAD_INDEX_def USER_THREAD_COUNT_def)
  have nodes3: "nodes s3 = nodes s2"
    by (simp add: s3_def scheduler_initialise_idle_thread_context_def set_thread_def)
  have h0: "nodes ?s0 = initial_nodes" by (simp add: boot_kernel_def)
  have L: "lists (nodes s3) boot_lists"
    by (rule boot_family) (use s1(2) in \<open>auto simp: nodes3 s2_def blocks_done_def i h0 heads_def less_Suc_eq\<close>)
  have T: "tids_ok s3"
    using s1(2) by (auto simp: tids_ok_def s3_def scheduler_initialise_idle_thread_context_def set_thread_def
        s2_def blocks_done_def i THREAD_COUNT_def USER_THREAD_COUNT_def less_Suc_eq)
  have P: "placed boot_lists" by (auto simp: placed_def boot_lists_def USER_THREAD_COUNT_def)
  have lv: "live boot_lists = {}" by (auto simp: live_def boot_lists_def USER_THREAD_COUNT_def)
  have "slots_used s3 = slots_used ?s0"
    using s1(2) by (simp add: s3_def scheduler_initialise_idle_thread_context_def set_thread_def s2_def blocks_done_def)
  then have O: "owned s3 boot_lists" by (simp add: owned_def lv) (simp add: boot_kernel_def boot_lists_def)
  have I: "idle_ok s3"
    by (simp add: idle_ok_def s3_def scheduler_initialise_idle_thread_context_def set_thread_def)
  have K: "stacks_ok e s3"
    using s1(2) by (auto simp: stacks_ok_def s3_def scheduler_initialise_idle_thread_context_def set_thread_def
        s2_def blocks_done_def i USER_THREAD_COUNT_def)
  have ok: "scheduler_ok e s3 boot_lists" using L T P O I K by (simp add: scheduler_ok_def)
  obtain s4 t where s4: "scheduler_create_process e 0 (user_main e) 0 0 s3 = Some s4"
      "scheduler_ok e s4 (spawn t 0 boot_lists)" "t = hd (finished boot_lists)"
    by (rule create_process_ok [OF ok, of 0 0 0 "user_main e"]) (simp_all add: ADDRESS_SPACE_COUNT_def boot_lists_def)
  have "scheduler_initialise e ?s0 = scheduler_create_process e 0 (user_main e) 0 0 s3"
    using s1(1) by (simp add: scheduler_initialise_def scheduler_get_idle_thread_def s3_def s2_def own_node_def)
  moreover have "t = 0" using s4(3) by (simp add: boot_lists_def)
  moreover have "cache s3 = uart" "cpu_regs s3 = c"
    using s1(2) by (simp_all add: s3_def scheduler_initialise_idle_thread_context_def set_thread_def
        s2_def blocks_done_def boot_kernel_def)
  then have "cache s4 = uart" "cpu_regs s4 = c" using create_process_kept [OF s4(1)] by simp_all
  ultimately show thesis using s4 by (intro that) simp_all
qed

end
