(* ===== verification/Kernel_Run.thy ===== *)
theory Kernel_Run
  imports Interrupt Syscall_Invariant Scheduler_Init
begin

text \<open>
  The kernel as a state machine: it starts with \<open>scheduler_initialise\<close>, and from then on an
  interrupt takes it from one state to the next. Between two interrupts the running thread may
  change the registers and the memory. The invariant of the scheduler holds in every reachable
  state.
\<close>

section \<open>Input for waiting threads\<close>

lemma deliver_input_ok:
  assumes "scheduler_ok e s A" "rb_valid (cache s)"
  defines "k \<equiv> min (length (waiting A)) (length (rb_contents (cache s)))"
  shows "\<exists>s'. deliver_input s = Some s' \<and>
    scheduler_ok e s' (A\<lparr>waiting := drop k (waiting A), ready := ready A @ take k (waiting A)\<rparr>) \<and>
    rb_valid (cache s') \<and> rb_contents (cache s') = drop k (rb_contents (cache s)) \<and>
    (\<forall>i < k. general (regs (blocks s' (waiting A ! i))) 0 = ucast (rb_contents (cache s) ! i)) \<and>
    (\<forall>t. t \<notin> set (take k (waiting A)) \<longrightarrow> blocks s' t = blocks s t) \<and>
    (\<forall>t. stall_until (blocks s' t) = stall_until (blocks s t)) \<and>
    frame s' = frame s \<and> cpu_regs s' = cpu_regs s"
  using assms(1,2) unfolding k_def
proof (induction "waiting A" arbitrary: s A)
  case Nil
  then have "scheduler_exists_input_waiting_thread s = Some False"
    using exists_waiting_eq [OF scheduler_okD(1)] by fastforce
  moreover have "A\<lparr>waiting := []\<rparr> = A" using Nil.hyps by simp
  then have "scheduler_ok e s (A\<lparr>waiting := []\<rparr>)" using Nil.prems(1) by (simp only:)
  ultimately show ?case
    using Nil by (subst deliver_input.simps) simp
next
  case (Cons t ts)
  note W = Cons.hyps(2) [symmetric]
  have w: "scheduler_exists_input_waiting_thread s = Some True"
    using exists_waiting_eq [OF scheduler_okD(1) [OF Cons.prems(1)]] W by simp
  show ?case
  proof (cases "rb_contents (cache s)")
    case Nil
    then show ?thesis
      using w Cons.prems by (subst deliver_input.simps) (simp add: has_unread_iff)
  next
    case (Cons ch chs)
    obtain c where c: "pl001_read (cache s) = Some (ch, c)" "rb_valid c" "rb_contents c = chs"
      using pl001_read_spec [OF Cons.prems(2) Cons] by blast
    let ?A = "A\<lparr>waiting := ts, ready := ready A @ [t]\<rparr>"
    have okc: "scheduler_ok e (s\<lparr>cache := c\<rparr>) A" using Cons.prems(1) by simp
    obtain h where h: "scheduler_unblock_first_input_waiting_thread ch (s\<lparr>cache := c\<rparr>) =
        Some (set_thread t (\<lambda>t. t\<lparr>regs := (regs t)\<lparr>general := (general (regs t))(0 := ucast ch)\<rparr>\<rparr>) (s\<lparr>cache := c\<rparr>)\<lparr>nodes := h\<rparr>)"
      by (rule unblock_input_refines [OF scheduler_okD(1) [OF okc] W, of ch])
    define s1 where "s1 = set_thread t (\<lambda>t. t\<lparr>regs := (regs t)\<lparr>general := (general (regs t))(0 := ucast ch)\<rparr>\<rparr>) (s\<lparr>cache := c\<rparr>)\<lparr>nodes := h\<rparr>"
    obtain s2 where s2: "scheduler_unblock_first_input_waiting_thread ch (s\<lparr>cache := c\<rparr>) = Some s2" "scheduler_ok e s2 ?A"
      by (rule unblock_input_ok [OF okc W, of ch])
    have ok1: "scheduler_ok e s1 ?A" using s2 h by (simp only: s1_def option.inject)
    have s1: "cache s1 = c" "frame s1 = frame s" "cpu_regs s1 = cpu_regs s"
        "general (regs (blocks s1 t)) 0 = ucast ch" "\<And>u. u \<noteq> t \<Longrightarrow> blocks s1 u = blocks s u"
        "\<And>u. stall_until (blocks s1 u) = stall_until (blocks s u)"
      by (simp_all add: s1_def set_thread_def)
    let ?k = "min (length ts) (length chs)"
    have "rb_valid (cache s1)" using c(2) s1(1) by simp
    from Cons.hyps(1) [of ?A s1, OF _ ok1 this] obtain s' where s':
      "deliver_input s1 = Some s'"
      "scheduler_ok e s' (?A\<lparr>waiting := drop ?k ts, ready := ready ?A @ take ?k ts\<rparr>)"
      "rb_valid (cache s')" "rb_contents (cache s') = drop ?k chs"
      "\<forall>i < ?k. general (regs (blocks s' (ts ! i))) 0 = ucast (chs ! i)"
      "\<forall>u. u \<notin> set (take ?k ts) \<longrightarrow> blocks s' u = blocks s1 u"
      "\<forall>u. stall_until (blocks s' u) = stall_until (blocks s1 u)"
      "frame s' = frame s1" "cpu_regs s' = cpu_regs s1"
      unfolding s1(1) c(3) by auto
    have "distinct (t # ts)"
      using lists_threads_distinct(3) [OF scheduler_okD(1) [OF Cons.prems(1)]] W by simp
    then have t: "t \<notin> set (take ?k ts)" by (auto dest: in_set_takeD)
    have "deliver_input s = Some s'"
      using w c(1) h s'(1) Cons by (subst deliver_input.simps) (simp add: has_unread_iff s1_def)
    moreover have m: "min (length (waiting A)) (length (rb_contents (cache s))) = Suc ?k"
      unfolding W Cons by simp
    moreover have "A\<lparr>waiting := drop (Suc ?k) (waiting A), ready := ready A @ take (Suc ?k) (waiting A)\<rparr> =
        ?A\<lparr>waiting := drop ?k ts, ready := ready ?A @ take ?k ts\<rparr>"
      using W by simp
    moreover have "general (regs (blocks s' (waiting A ! i))) 0 = ucast (rb_contents (cache s) ! i)" if "i < Suc ?k" for i
      using that s'(5) s'(6) t s1(4) W Cons by (cases i) auto
    moreover have "blocks s' u = blocks s u" if "u \<notin> set (take (Suc ?k) (waiting A))" for u
      using that s'(6) s1(5) W by auto
    moreover have "rb_contents (cache s') = drop (Suc ?k) (rb_contents (cache s))"
      using s'(4) unfolding Cons by simp
    moreover have "\<forall>u. stall_until (blocks s' u) = stall_until (blocks s u)" using s'(7) s1(6) by simp
    ultimately show ?thesis
      unfolding m using s'(2,3,8,9) s1(2,3) by (intro exI [of _ s'] conjI allI impI) (simp_all only:)
  qed
qed

section \<open>Timer and serial interrupts\<close>

lemma stall_sorted_wake: "stall_sorted s A \<Longrightarrow> stall_sorted s (wake k A)"
  by (simp add: stall_sorted_def wake_def sorted_wrt_drop flip: drop_map)

text \<open>The second step of the handler: a switch unless the only thread that can run already does.\<close>

definition tick_lists :: "sched \<Rightarrow> sched" where
  "tick_lists A = (if ready A = [] \<and> running A \<noteq> [] then A else switch_lists A)"

lemma normal_switch_ok:
  assumes "scheduler_ok e s A" "ready A = [] \<and> running A \<noteq> [] \<or> stall_sorted s A"
  obtains s' where "scheduler_round_robin e normal s = Some s'" "scheduler_ok e s' (tick_lists A)"
    "cache s' = cache s" "\<And>t. stall_until (blocks s' t) = stall_until (blocks s t)"
    "mode_ok s A \<Longrightarrow> mode_ok s' (tick_lists A)"
proof (cases "ready A = [] \<and> running A \<noteq> []")
  case True
  then show ?thesis
    using that [of s] round_robin_continues [OF scheduler_okD(1) [OF assms(1)]] assms(1)
    by (simp add: tick_lists_def)
next
  case False
  then have c: "ready A = [] \<Longrightarrow> IDLE_THREAD_INDEX \<notin> set (running A)" "normal = forced \<or> ready A \<noteq> [] \<or> running A = []"
    by auto
  from False assms(2) have "stall_sorted s A" by blast
  from round_robin_ok [OF assms(1) this c] obtain s' h where
    s': "scheduler_round_robin e normal s = Some s'" "s' = switch_effect A s\<lparr>nodes := h\<rparr>" "scheduler_ok e s' (switch_lists A)" .
  have "mode_ok s' (switch_lists A)" using mode_switch [OF assms(1), of h] s'(2) by simp
  then show ?thesis using that [OF s'(1)] s' False by (simp add: tick_lists_def)
qed

lemma normal_switch_Some:
  assumes "scheduler_ok e s A" "scheduler_round_robin e normal s = Some s'"
  shows "ready A = [] \<and> running A \<noteq> [] \<or> stall_sorted s A"
  using round_robin_halts [OF assms(1), of normal] assms(2) by fastforce

text \<open>The rest of the handler, from the pending interrupts of the serial port on.\<close>

definition serve_uart :: "env \<Rightarrow> kernel \<Rightarrow> kernel option" where
  "serve_uart e s = do {
     let (v, d) = volatile_read e (peripherals_register IRQ_pending_2) (io_regs s);
     let s = s\<lparr>io_regs := d\<rparr>;
     s \<leftarrow> (if v AND UART_pending \<noteq> 0
           then do {
             (c, d) \<leftarrow> pl001_receive e (cache s) (io_regs s);
             Some (s\<lparr>cache := c, io_regs := d\<rparr>)
           }
           else Some s);
     deliver_input s
   }"

lemma serve_uart_ok:
  assumes "scheduler_ok e s A" "rb_valid (cache s)"
  shows "\<exists>s' k. serve_uart e s = Some s' \<and>
    scheduler_ok e s' (A\<lparr>waiting := drop k (waiting A), ready := ready A @ take k (waiting A)\<rparr>) \<and>
    rb_valid (cache s') \<and> cpu_regs s' = cpu_regs s"
proof -
  let ?d = "(io_regs s)\<lparr>reads := Suc (reads (io_regs s))\<rparr>"
  obtain c where c: "pl001_receive e (cache s) ?d = Some (c, ?d\<lparr>reads := Suc (reads ?d)\<rparr>)" "rb_valid c"
    using pl001_receive_spec [OF assms(2), of e ?d] by blast
  have a: "scheduler_ok e (s\<lparr>io_regs := ?d\<rparr>) A" "rb_valid (cache (s\<lparr>io_regs := ?d\<rparr>))" using assms by simp_all
  have b: "scheduler_ok e (s\<lparr>cache := c, io_regs := ?d\<lparr>reads := Suc (reads ?d)\<rparr>\<rparr>) A"
      "rb_valid (cache (s\<lparr>cache := c, io_regs := ?d\<lparr>reads := Suc (reads ?d)\<rparr>\<rparr>))" using assms(1) c(2) by simp_all
  show ?thesis
  proof (cases "volatile e (reads (io_regs s)) (peripherals_register IRQ_pending_2) AND UART_pending = 0")
    case True
    then have "serve_uart e s = deliver_input (s\<lparr>io_regs := ?d\<rparr>)"
      by (simp add: serve_uart_def volatile_read_def Let_def)
    with deliver_input_ok [OF a] show ?thesis by force
  next
    case False
    then have "serve_uart e s = deliver_input (s\<lparr>cache := c, io_regs := ?d\<lparr>reads := Suc (reads ?d)\<rparr>\<rparr>)"
      using c(1) by (simp add: serve_uart_def volatile_read_def Let_def)
    with deliver_input_ok [OF b] show ?thesis by force
  qed
qed

lemma irq_unfold:
  "irq_interrupt_handler e s = do {
     let (pending, d) = stalltimer_pending e (io_regs s);
     let s = s\<lparr>io_regs := d\<rparr>;
     s \<leftarrow> (if pending then scheduler_unblock_overdue_waiting_threads e s else Some s);
     let (pending, d) = systimer_pending e (io_regs s);
     let s = s\<lparr>io_regs := d\<rparr>;
     s \<leftarrow> (if pending
           then do {
             s \<leftarrow> scheduler_round_robin e normal s;
             Some (reset_systimer e s)
           }
           else Some s);
     serve_uart e s
   }"
  by (simp add: irq_interrupt_handler_def serve_uart_def)

text \<open>The interrupt handler returns when the stalled threads are in order, and whenever it returns
  it has kept the invariant.\<close>

lemma irq_ok:
  assumes "scheduler_ok e s A" "rb_valid (cache s)"
  shows "stall_sorted s A \<Longrightarrow> irq_interrupt_handler e s \<noteq> None"
    "irq_interrupt_handler e s = Some s' \<Longrightarrow>
      \<exists>B. scheduler_ok e s' B \<and> rb_valid (cache s') \<and> (mode_ok s A \<longrightarrow> mode_ok s' B)"
proof -
  obtain p1 d1 where p1: "stalltimer_pending e (io_regs s) = (p1, d1)" by fastforce
  let ?s0 = "s\<lparr>io_regs := d1\<rparr>"
  have ok0: "scheduler_ok e ?s0 A" using assms(1) by simp
  obtain s1 k where s1: "(if p1 then scheduler_unblock_overdue_waiting_threads e ?s0 else Some ?s0) = Some s1"
      "scheduler_ok e s1 (wake k A)" "blocks s1 = blocks s" "cache s1 = cache s" "cpu_regs s1 = cpu_regs s"
  proof (cases p1)
    case True
    with unblock_overdue_ok [OF ok0] that show thesis by auto
  next
    case False
    with that [of ?s0 0] ok0 show thesis by simp
  qed
  obtain p2 d2 where p2: "systimer_pending e (io_regs s1) = (p2, d2)" by fastforce
  let ?s2 = "s1\<lparr>io_regs := d2\<rparr>"
  have ok2: "scheduler_ok e ?s2 (wake k A)" using s1(2) by simp
  have irq: "irq_interrupt_handler e s =
      (if p2 then scheduler_round_robin e normal ?s2 \<bind> (\<lambda>s. serve_uart e (reset_systimer e s))
       else serve_uart e ?s2)"
    using p1 s1(1) p2 by (simp add: irq_unfold)
  have sw: "\<exists>s4 B. irq_interrupt_handler e s = Some s4 \<and> scheduler_ok e s4 B \<and> rb_valid (cache s4) \<and>
      (mode_ok s A \<longrightarrow> mode_ok s4 B)"
    if "p2 \<Longrightarrow> ready (wake k A) = [] \<and> running (wake k A) \<noteq> [] \<or> stall_sorted ?s2 (wake k A)"
  proof (cases p2)
    case True
    note c = that [OF True]
    have m: "mode_ok ?s2 (wake k A) = mode_ok s A" using s1(5) by (intro mode_ok_cong) (simp_all add: wake_def)
    obtain s3 where s3: "scheduler_round_robin e normal ?s2 = Some s3" "scheduler_ok e s3 (tick_lists (wake k A))"
        "cache s3 = cache ?s2" "mode_ok ?s2 (wake k A) \<Longrightarrow> mode_ok s3 (tick_lists (wake k A))"
      using normal_switch_ok [OF ok2 c] by metis
    then have "scheduler_ok e (reset_systimer e s3) (tick_lists (wake k A))" "rb_valid (cache (reset_systimer e s3))"
      using s1(4) assms(2) by simp_all
    from serve_uart_ok [OF this] obtain s4 j where s4: "serve_uart e (reset_systimer e s3) = Some s4"
        "scheduler_ok e s4 (tick_lists (wake k A)\<lparr>waiting := drop j (waiting (tick_lists (wake k A))),
           ready := ready (tick_lists (wake k A)) @ take j (waiting (tick_lists (wake k A)))\<rparr>)" (is "scheduler_ok e s4 ?B")
        "rb_valid (cache s4)" "cpu_regs s4 = cpu_regs s3"
      by auto
    have "mode_ok s4 ?B = mode_ok s3 (tick_lists (wake k A))" using s4(4) by (intro mode_ok_cong) simp_all
    with True irq s3(1,4) s4 m show ?thesis by auto
  next
    case False
    have "rb_valid (cache ?s2)" using s1(4) assms(2) by simp
    from serve_uart_ok [OF ok2 this] obtain s4 j where s4: "serve_uart e ?s2 = Some s4"
        "scheduler_ok e s4 (wake k A\<lparr>waiting := drop j (waiting (wake k A)),
           ready := ready (wake k A) @ take j (waiting (wake k A))\<rparr>)" (is "scheduler_ok e s4 ?B")
        "rb_valid (cache s4)" "cpu_regs s4 = cpu_regs ?s2"
      by auto
    have "mode_ok s4 ?B = mode_ok s A" using s4(4) s1(5) by (intro mode_ok_cong) (simp_all add: wake_def)
    with False irq s4 show ?thesis by auto
  qed
  show "irq_interrupt_handler e s \<noteq> None" if "stall_sorted s A"
  proof -
    have "stall_sorted s (wake k A)" using that by (rule stall_sorted_wake)
    then have "stall_sorted ?s2 (wake k A)"
      using stall_sorted_cong [of "wake k A" "wake k A" ?s2 s] s1(3) by simp
    with sw show ?thesis by blast
  qed
  show "\<exists>B. scheduler_ok e s' B \<and> rb_valid (cache s') \<and> (mode_ok s A \<longrightarrow> mode_ok s' B)"
    if "irq_interrupt_handler e s = Some s'"
  proof -
    have "ready (wake k A) = [] \<and> running (wake k A) \<noteq> [] \<or> stall_sorted ?s2 (wake k A)" if p2
      using \<open>irq_interrupt_handler e s = Some s'\<close> irq that normal_switch_Some [OF ok2]
      by (auto simp: Option.bind_eq_Some_conv)
    with sw that show ?thesis by auto
  qed
qed

section \<open>Exceptions of user code\<close>

definition user_thread_runs :: "kernel \<Rightarrow> bool" where
  "user_thread_runs s = (case k_get_first_node (nodes s) (Some Running_list) of
     Some n \<Rightarrow> n \<noteq> Some (Scheduler_node scheduler_get_idle_thread)
   | None \<Rightarrow> False)"

lemma user_thread_runs_iff:
  assumes "scheduler_ok e s A"
  shows "user_thread_runs s \<longleftrightarrow> (\<exists>t. running A = [t] \<and> t \<noteq> IDLE_THREAD_INDEX)"
proof -
  note D = scheduler_okD [OF assms]
  have len: "length (running A) \<le> 1" using D(3) by (simp add: placed_def)
  show ?thesis
  proof (cases "running A")
    case Nil
    then have "k_get_first_node (nodes s) (Some Running_list) = None"
      using lists_empty [OF D(1), of Running_list] by (simp add: k_get_first_node_def) 
    with Nil show ?thesis by (simp add: user_thread_runs_def)
  next
    case (Cons t ts)
    with len have "running A = [t]" by simp
    moreover have "k_get_first_node (nodes s) (Some Running_list) = Some (Some (Scheduler_node t))"
      using lists_first [OF D(1), of Running_list] Cons by simp
    ultimately show ?thesis by (simp add: user_thread_runs_def scheduler_get_idle_thread_def)
  qed
qed

text \<open>An exception arrives: the hardware has saved registers and status, and the mode it saved is
  the one the running thread was started in (user code cannot change it).\<close>

definition entered :: "kernel \<Rightarrow> kernel \<Rightarrow> bool" where
  "entered s s' \<longleftrightarrow> (\<exists>f c m. s' = s\<lparr>frame := f, cpu_regs := c, mem := m\<rparr> \<and>
     (spsr c AND psr_mode = psr_mode_user \<longleftrightarrow> user_thread_runs s))"

lemma entered_ok:
  assumes "entered s s'"
  shows "scheduler_ok e s' A = scheduler_ok e s A" "cache s' = cache s" "blocks s' = blocks s"
    "user_thread_runs s' = user_thread_runs s"
  using assms by (auto simp: entered_def user_thread_runs_def)

lemma mode_ok_iff: "scheduler_ok e s A \<Longrightarrow>
    mode_ok s A \<longleftrightarrow> (get_spsr s AND psr_mode = psr_mode_user \<longleftrightarrow> user_thread_runs s)"
  by (simp add: mode_ok_def user_thread_runs_iff get_spsr_def)

lemma entered_mode: "entered s s' \<Longrightarrow> get_spsr s' AND psr_mode = psr_mode_user \<longleftrightarrow> user_thread_runs s'"
  by (auto simp: entered_def user_thread_runs_def get_spsr_def)

text \<open>The kernel's invariant: lists, ownership and stacks, the cache, and the mode.\<close>

definition kernel_ok :: "env \<Rightarrow> kernel \<Rightarrow> bool" where
  "kernel_ok e s \<longleftrightarrow> rb_valid (cache s) \<and> (\<exists>A. scheduler_ok e s A \<and> mode_ok s A)"

lemma kernel_okI: "rb_valid (cache s) \<Longrightarrow> scheduler_ok e s A \<Longrightarrow> mode_ok s A \<Longrightarrow> kernel_ok e s"
  by (auto simp: kernel_ok_def)

lemma kernel_okE:
  assumes "kernel_ok e s"
  obtains A where "rb_valid (cache s)" "scheduler_ok e s A" "mode_ok s A"
    "get_spsr s AND psr_mode = psr_mode_user \<longleftrightarrow> (\<exists>t. running A = [t] \<and> t \<noteq> IDLE_THREAD_INDEX)"
  using assms by (auto simp: kernel_ok_def mode_ok_def get_spsr_def)

lemma kernel_ok_io [simp]: "kernel_ok e (s\<lparr>io_regs := d\<rparr>) = kernel_ok e s"
  by (simp add: kernel_ok_def mode_ok_def)

lemma dump_io: "dump e type st s = Some s' \<Longrightarrow> \<exists>d. s' = s\<lparr>io_regs := d\<rparr>"
  by (auto simp: dump_def Option.bind_eq_Some_conv)

lemma dispatch_kernel_ok:
  assumes "kernel_ok e s" "get_spsr s AND psr_mode = psr_mode_user" "dispatch_syscall e no s = Some (r, s')"
  shows "kernel_ok e s'"
proof -
  obtain A t where "rb_valid (cache s)" "scheduler_ok e s A" "mode_ok s A" "running A = [t]" "t \<noteq> IDLE_THREAD_INDEX"
    using assms(1,2) by (metis kernel_okE)
  then show ?thesis
    using dispatch_keeps_ok [OF _ _ _ assms(3)] dispatch_cache [OF assms(3)] by (metis kernel_okI)
qed

lemma spsr_io [simp]: "get_spsr (s\<lparr>io_regs := d\<rparr>) = get_spsr s"
  by (simp add: get_spsr_def)

lemma exit_thread_kernel_ok:
  assumes "kernel_ok e s" "get_spsr s AND psr_mode = psr_mode_user" "exit_thread e (s\<lparr>io_regs := d\<rparr>) = Some s'"
  shows "kernel_ok e s'"
  using assms dispatch_kernel_ok [of e "s\<lparr>io_regs := d\<rparr>" SYSCALL_EXIT_THREAD_NO]
  by (auto simp: exit_thread_def Option.bind_eq_Some_conv split: if_splits)

text \<open>The four handlers that end the thread, and the one for system calls.\<close>

lemmas handler_defs = reset_interrupt_handler_def undefined_instruction_interrupt_handler_def
  prefetch_abort_interrupt_handler_def data_abort_interrupt_handler_def

lemma fault_kernel_ok:
  assumes "kernel_ok e s"
  shows "reset_interrupt_handler e st s = Some s' \<Longrightarrow> kernel_ok e s'"
    "undefined_instruction_interrupt_handler e st s = Some s' \<Longrightarrow> kernel_ok e s'"
    "prefetch_abort_interrupt_handler e st s = Some s' \<Longrightarrow> kernel_ok e s'"
    "data_abort_interrupt_handler e st s = Some s' \<Longrightarrow> kernel_ok e s'"
  using assms unfolding handler_defs
  by (auto simp: Option.bind_eq_Some_conv dest!: dump_io dest: exit_thread_kernel_ok split: if_splits)

lemma software_kernel_ok:
  assumes "kernel_ok e s" "software_interrupt_handler e st s = Some s'"
  shows "kernel_ok e s'"
proof (cases "get_spsr s AND psr_mode = psr_mode_user")
  case user: True
  let ?a = "lr (frame s) - 4"
  show ?thesis
  proof (cases "is_valid_syscall e ?a s")
    case True
    with assms(2) user obtain r s1 where "dispatch_syscall e (get_syscall_no e ?a s) s = Some (r, s1)"
      by (auto simp: software_interrupt_handler_def Let_def Option.bind_eq_Some_conv)
    with assms(2) user True dispatch_nonneg [OF this]
    show ?thesis
      using dispatch_kernel_ok [OF assms(1) user]
      by (auto simp: software_interrupt_handler_def Let_def Option.bind_eq_Some_conv is_valid_syscall_def)
  next
    case False
    with assms user show ?thesis
      by (auto simp: software_interrupt_handler_def Let_def Option.bind_eq_Some_conv
          dest!: dump_io dest: exit_thread_kernel_ok)
  qed
next
  case False
  with assms show ?thesis
    by (auto simp: software_interrupt_handler_def Option.bind_eq_Some_conv dest!: dump_io)
qed

lemma irq_kernel_ok:
  assumes "kernel_ok e s" "irq_interrupt_handler e s = Some s'"
  shows "kernel_ok e s'"
proof -
  obtain A where A: "rb_valid (cache s)" "scheduler_ok e s A" "mode_ok s A" using assms(1) by (metis kernel_okE)
  show ?thesis using irq_ok(2) [OF A(2,1) assms(2)] A(3) by (auto intro: kernel_okI)
qed

end
