(* ===== verification/Kprintf_Numbers.thy ===== *)
theory Kprintf_Numbers
  imports Kprintf
begin

text \<open>
  How \<^verbatim>\<open>kernel/lib/kprintf.c\<close> prints a number: the digits are those of the positional notation,
  and the padding, prefix and sign around them, with the exact condition under which they fit
  into the buffer of 32 characters.
\<close>

section \<open>Positional notation\<close>

definition digit_char :: "nat \<Rightarrow> u8" where
  "digit_char d = (if d < 10 then of_nat d + 48 else of_nat d + 87)"

definition digit_value :: "u8 \<Rightarrow> nat" where
  "digit_value c = (if c < 58 then unat (c - 48) else unat (c - 87))"

fun notation_of :: "nat \<Rightarrow> nat \<Rightarrow> u8 list" where
  "notation_of b n = (if b < 2 \<or> n < b then [digit_char n] else notation_of b (n div b) @ [digit_char (n mod b)])"

declare notation_of.simps [simp del]

definition number_of :: "nat \<Rightarrow> u8 list \<Rightarrow> nat" where
  "number_of b cs = foldl (\<lambda>n c. n * b + digit_value c) 0 cs"

lemma digit_value_char:
  assumes "d < 16"
  shows "digit_value (digit_char d) = d"
proof -
  have "d \<in> set [0..<16]" using assms by simp
  moreover have "list_all (\<lambda>d. digit_value (digit_char d) = d) [0..<16]" by code_simp
  ultimately show ?thesis by (simp only: list_all_iff)
qed

lemma number_of_notation:
  assumes "2 \<le> b" "b \<le> 16"
  shows "number_of b (notation_of b n) = n"
  using assms
proof (induction b n rule: notation_of.induct)
  case (1 b n)
  show ?case
  proof (cases "n < b")
    case True
    then show ?thesis using 1 by (simp add: notation_of.simps [of b n] number_of_def digit_value_char)
  next
    case False
    then have "number_of b (notation_of b (n div b)) = n div b" using 1 by simp
    moreover have "n mod b < 16" using 1(3) mod_less_divisor [of b n] 1(2) by linarith
    ultimately show ?thesis
      using False 1(2) by (simp add: notation_of.simps [of b n] number_of_def digit_value_char)
  qed
qed

lemma notation_of_length:
  assumes "2 \<le> b" "n < 2 ^ m" "0 < m"
  shows "length (notation_of b n) \<le> m"
  using assms
proof (induction b n arbitrary: m rule: notation_of.induct)
  case (1 b n)
  show ?case
  proof (cases "n < b")
    case True
    then show ?thesis using 1(4) by (simp add: notation_of.simps [of b n])
  next
    case False
    then obtain k where m: "m = Suc k" "0 < k" using 1(2-4) by (cases m; cases "m - 1") auto
    have "n div b \<le> n div 2" using 1(2) by (simp add: div_le_mono2)
    also have "\<dots> < 2 ^ k" using 1(3) m by simp
    finally have "length (notation_of b (n div b)) \<le> k" using 1(1,2) False m(2) by simp
    then show ?thesis using False 1(2) m by (simp add: notation_of.simps [of b n])
  qed
qed

lemma notation_of_pos: "0 < length (notation_of b n)"
  by (simp add: notation_of.simps [of b n])

section \<open>The digits that the code writes\<close>

lemma hexadecimal_digit:
  assumes "d < 16"
  shows "k_to_ascii_hexadecimal_digit (of_nat d) = Some (digit_char d)"
proof -
  have "d \<in> set [0..<16]" using assms by simp
  moreover have "list_all (\<lambda>d. k_to_ascii_hexadecimal_digit (of_nat d) = Some (digit_char d)) [0..<16]" by code_simp
  ultimately show ?thesis by (simp only: list_all_iff)
qed

lemma base_unat:
  fixes base :: u8
  shows "unat (ucast base :: u32) = unat base"
proof -
  have "unat base < 256" using unsigned_less [of base, where 'a = nat] by simp
  then show ?thesis by (simp add: unsigned_ucast_eq take_bit_nat_eq_self)
qed

lemma digit_step:
  fixes num :: u32 and base :: u8
  assumes "2 \<le> unat base" "unat base \<le> 16"
  shows "k_to_ascii_hexadecimal_digit (ucast (num mod ucast base)) = Some (digit_char (unat num mod unat base))"
    "unat (num div ucast base) = unat num div unat base" "num div ucast base \<noteq> 0 \<longleftrightarrow> \<not> unat num < unat base"
proof -
  have u: "unat (num mod ucast base) = unat num mod unat base" by (simp add: unat_mod_distrib base_unat)
  have lt: "unat num mod unat base < 16" using mod_less_divisor [of "unat base" "unat num"] assms by linarith
  have "ucast (num mod ucast base) = (of_nat (unat num mod unat base) :: u8)"
    using arg_cong [OF u, of "of_nat :: nat \<Rightarrow> u8"] by (simp add: unsigned_of_nat)
  then show "k_to_ascii_hexadecimal_digit (ucast (num mod ucast base)) = Some (digit_char (unat num mod unat base))"
    using hexadecimal_digit [OF lt] by simp
  show d: "unat (num div ucast base) = unat num div unat base" by (simp add: unat_div_distrib base_unat)
  show "num div ucast base \<noteq> 0 \<longleftrightarrow> \<not> unat num < unat base"
    using d assms by (metis div_eq_0_iff not_numeral_le_zero unat_eq_0)
qed

lemma digits_loop_eq:
  assumes "2 \<le> unat base" "unat base \<le> 16" "k + length (notation_of (unat base) (unat num)) \<le> limit" "limit \<le> length out"
  shows "digits_loop num base out k limit = Some (k + length (notation_of (unat base) (unat num)),
    take k out @ rev (notation_of (unat base) (unat num)) @ drop (k + length (notation_of (unat base) (unat num))) out)"
  using assms
proof (induction "unat num" arbitrary: num out k rule: less_induct)
  case less
  note S = digit_step [OF less.prems(1,2), of num]
  let ?d = "digit_char (unat num mod unat base)"
  have b: "base \<noteq> 0" using less.prems(1) by auto
  have k: "k < length out" using less.prems(3,4) notation_of_pos [of "unat base" "unat num"] by linarith
  show ?case
  proof (cases "unat num < unat base")
    case True
    then have n: "notation_of (unat base) (unat num) = [?d]" by (simp add: notation_of.simps [of "unat base" "unat num"])
    show ?thesis
      using S True b k unfolding n
      by (subst digits_loop.simps) (simp add: upd_conv_take_nth_drop)
  next
    case False
    then have n: "notation_of (unat base) (unat num) = notation_of (unat base) (unat (num div ucast base)) @ [?d]"
      using less.prems(1) by (simp add: notation_of.simps [of "unat base" "unat num"] S(2))
    let ?q = "num div ucast base" and ?out = "out[k := ?d]"
    let ?l = "length (notation_of (unat base) (unat ?q))"
    have "unat ?q < unat num" using less.prems(1) False by (simp add: S(2))
    moreover have "Suc k + ?l \<le> limit" "limit \<le> length ?out" using less.prems(3,4) by (simp_all add: n)
    ultimately have "digits_loop ?q base ?out (Suc k) limit = Some (Suc k + ?l,
        take (Suc k) ?out @ rev (notation_of (unat base) (unat ?q)) @ drop (Suc k + ?l) ?out)"
      using less.hyps less.prems(1,2) by blast
    moreover have "take (Suc k) ?out = take k out @ [?d]" using k by (simp add: take_Suc_conv_app_nth)
    moreover have "Suc k < limit" using \<open>Suc k + ?l \<le> limit\<close> notation_of_pos [of "unat base" "unat ?q"] by linarith
    ultimately show ?thesis
      using S False b k unfolding n by (subst digits_loop.simps) simp
  qed
qed

text \<open>C36. The digits that are written, read from the last one back, are the positional notation of the
  number: reading them as digits of that base gives the number back, and 32 characters are enough for
  every 32 bit number in every base from 2 to 16.\<close>

theorem digits_round_trip:
  assumes "2 \<le> unat base" "unat base \<le> 16" "length out = MAX_NUMBER_PRINT_WIDTH"
  shows "\<exists>n out'. kprintf_base_less_eq_16_to_ascii num base out MAX_NUMBER_PRINT_WIDTH = Some (n, out') \<and>
    0 < n \<and> n \<le> 32 \<and> length out' = 32 \<and> rev (take n out') = notation_of (unat base) (unat num) \<and>
    number_of (unat base) (rev (take n out')) = unat num"
proof -
  let ?ds = "notation_of (unat base) (unat num)"
  have "unat num < 2 ^ 32" using unat_u32_less [of num] by simp
  from notation_of_length [OF assms(1) this] have l: "length ?ds \<le> 32" by simp
  have "base \<le> 16" using assms(2) by (simp add: word_le_nat_alt)
  then have "kprintf_base_less_eq_16_to_ascii num base out MAX_NUMBER_PRINT_WIDTH =
      Some (length ?ds, rev ?ds @ drop (length ?ds) out)"
    using digits_loop_eq [OF assms(1,2), of 0 num 32 out] l assms(3)
    by (simp add: kprintf_base_less_eq_16_to_ascii_def MAX_NUMBER_PRINT_WIDTH_def)
  then show ?thesis
    using l assms(3) notation_of_pos [of "unat base" "unat num"] number_of_notation [OF assms(1,2), of "unat num"]
    by (auto simp: MAX_NUMBER_PRINT_WIDTH_def)
qed

theorem digits_round_trip_witness:
  "\<exists>n out'. kprintf_base_less_eq_16_to_ascii 0xDEADBEEF 16 (replicate 32 0) MAX_NUMBER_PRINT_WIDTH = Some (n, out') \<and>
    0 < n \<and> n \<le> 32 \<and> length out' = 32 \<and> rev (take n out') = notation_of (unat (16 :: u8)) (unat (0xDEADBEEF :: u32)) \<and>
    number_of (unat (16 :: u8)) (rev (take n out')) = unat (0xDEADBEEF :: u32)"
  by (rule digits_round_trip) (simp_all add: MAX_NUMBER_PRINT_WIDTH_def)

section \<open>Padding, prefix and sign\<close>

text \<open>What the buffer holds so far, in the order it is filled (the text backwards).\<close>

definition holds :: "nat \<times> u8 list \<Rightarrow> u8 list \<Rightarrow> bool" where
  "holds b cs \<longleftrightarrow> length (snd b) = 32 \<and> fst b = length cs \<and> length cs \<le> 32 \<and> take (length cs) (snd b) = cs"

lemma put_char_holds:
  assumes "holds b cs"
  shows "put_char ch b = None \<and> \<not> length cs < 32 \<or> (\<exists>b'. put_char ch b = Some b' \<and> length cs < 32 \<and> holds b' (cs @ [ch]))"
  using assms
  by (cases b) (auto simp: put_char_def holds_def take_Suc_conv_app_nth)

lemma pad_to_holds:
  assumes "holds b cs" "width \<le> 32"
  shows "\<exists>b'. pad_to ch width b = Some b' \<and> holds b' (cs @ replicate (width - length cs) ch)"
  using assms
proof (induction "width - length cs" arbitrary: b cs)
  case 0
  then show ?case by (cases b) (auto simp: pad_to.simps holds_def)
next
  case (Suc n)
  obtain k buf where b: "b = (k, buf)" by (cases b)
  have h: "length buf = 32" "k = length cs" "take (length cs) buf = cs" using Suc.prems(1) by (simp_all add: holds_def b)
  have lt: "length cs < width" "length cs < 32" using Suc.hyps(2) Suc.prems(2) by linarith+
  then have u: "pad_to ch width b = pad_to ch width (Suc k, buf[k := ch])"
    unfolding b by (subst pad_to.simps) (simp add: h)
  have "holds (Suc k, buf[k := ch]) (cs @ [ch])" using h lt by (simp add: holds_def take_Suc_conv_app_nth)
  moreover have "n = width - length (cs @ [ch])" using Suc.hyps(2) by simp
  ultimately obtain b' where "pad_to ch width (Suc k, buf[k := ch]) = Some b'"
      "holds b' ((cs @ [ch]) @ replicate (width - length (cs @ [ch])) ch)"
    using Suc.hyps(1) Suc.prems(2) by blast
  moreover have "(cs @ [ch]) @ replicate (width - length (cs @ [ch])) ch = cs @ replicate (width - length cs) ch"
    using lt(1) by (simp add: Suc_diff_Suc flip: replicate_Suc)
  ultimately show ?case by (simp add: u)
qed

definition prefix_of :: "nat \<Rightarrow> u8 list" where
  "prefix_of b = 48 # (if b = 16 then [120] else if b = 2 then [98] else [])"

text \<open>The sign, the prefix, the zeros and the digits; and the whole text with spaces in front of it.\<close>

definition number_width :: "bool \<Rightarrow> bool \<Rightarrow> bool \<Rightarrow> nat \<Rightarrow> nat" where
  "number_width zero hash neg pad =
     min pad 32 - (if zero \<and> hash then 2 else 0) - (if zero \<and> neg then 1 else 0)"

definition number_body :: "bool \<Rightarrow> bool \<Rightarrow> bool \<Rightarrow> nat \<Rightarrow> nat \<Rightarrow> nat \<Rightarrow> u8 list" where
  "number_body zero hash neg pad b n =
     (if neg then [45] else []) @ (if hash then prefix_of b else []) @
     (if zero then replicate (number_width zero hash neg pad - length (notation_of b n)) 48 else []) @ notation_of b n"

definition number_text :: "bool \<Rightarrow> bool \<Rightarrow> bool \<Rightarrow> nat \<Rightarrow> nat \<Rightarrow> nat \<Rightarrow> u8 list" where
  "number_text zero hash neg pad b n =
     replicate (number_width zero hash neg pad - length (number_body zero hash neg pad b n)) 32 @
     number_body zero hash neg pad b n"

lemma SAFE_DECREMENT_unat:
  "unat (SAFE_DECREMENT a b) = unat a - unat b"
  by (auto simp: SAFE_DECREMENT_def unat_sub word_le_nat_alt word_less_nat_alt not_less)

lemma width_unat:
  fixes pad :: u8
  assumes "w = (if unat pad > MAX_NUMBER_PRINT_WIDTH then of_nat MAX_NUMBER_PRINT_WIDTH else pad)"
    and "w1 = (if zero \<and> hash then SAFE_DECREMENT w 2 else w)"
    and "w2 = (if zero \<and> neg then SAFE_DECREMENT w1 1 else w1)"
  shows "unat w2 = number_width zero hash neg (unat pad)"
  by (simp add: assms SAFE_DECREMENT_unat number_width_def MAX_NUMBER_PRINT_WIDTH_def)

lemma number_width_le: "number_width zero hash neg pad \<le> 32"
  by (simp add: number_width_def)

lemma prefix_holds:
  assumes "holds b cs" "length cs + length (prefix_of n) \<le> 32"
  shows "\<exists>b'. (do {
      b \<leftarrow> (if n = 16 then put_char 120 b else if n = 2 then put_char 98 b else Some b);
      put_char 48 b
    }) = Some b' \<and> holds b' (cs @ rev (prefix_of n))"
proof (cases "n = 16 \<or> n = 2")
  case True
  let ?c = "if n = 16 then 120 else 98 :: u8"
  have l: "length cs < 32" "length (cs @ [?c]) < 32" using True assms(2) by (auto simp: prefix_of_def)
  with put_char_holds [OF assms(1), of ?c] obtain b1 where b1: "put_char ?c b = Some b1" "holds b1 (cs @ [?c])" by blast
  with put_char_holds [OF b1(2), of 48] l obtain b2 where "put_char 48 b1 = Some b2" "holds b2 ((cs @ [?c]) @ [48])" by blast
  with b1(1) True show ?thesis by (intro exI [of _ b2]) (auto simp: prefix_of_def)
next
  case False
  then show ?thesis using put_char_holds [OF assms(1), of 48] assms(2) by (auto simp: prefix_of_def)
qed

lemma prefix_overflows:
  assumes "holds b cs" "\<not> length cs + length (prefix_of n) \<le> 32"
  shows "(do {
      b \<leftarrow> (if n = 16 then put_char 120 b else if n = 2 then put_char 98 b else Some b);
      put_char 48 b
    }) = None"
proof (cases "n = 16 \<or> n = 2")
  case True
  let ?c = "if n = 16 then 120 else 98 :: u8"
  from put_char_holds [OF assms(1), of ?c] show ?thesis
  proof (elim disjE exE conjE)
    fix b1 assume b1: "put_char ?c b = Some b1" "holds b1 (cs @ [?c])"
    have "\<not> length (cs @ [?c]) < 32" using True assms(2) by (auto simp: prefix_of_def split: if_splits)
    with put_char_holds [OF b1(2), of 48] b1(1) True show ?thesis by auto
  qed (use True in auto)
next
  case False
  then show ?thesis using put_char_holds [OF assms(1), of 48] assms(2) by (auto simp: prefix_of_def)
qed

lemma number_output:
  assumes "2 \<le> unat base" "unat base \<le> 16"
    and "zero = (flags st AND flag_zeropad \<noteq> 0)" "hash = (flags st AND flag_hash \<noteq> 0)"
  shows "kprintf_format_and_output_number num base neg st =
    (if length (number_body zero hash neg (unat (pad_width st)) (unat base) (unat num)) \<le> 32
     then Some (of_nat (length (number_text zero hash neg (unat (pad_width st)) (unat base) (unat num))),
       number_text zero hash neg (unat (pad_width st)) (unat base) (unat num))
     else None)"
proof -
  let ?ds = "notation_of (unat base) (unat num)"
  define w where "w = number_width zero hash neg (unat (pad_width st))"
  define zs where "zs = (if zero then replicate (w - length ?ds) 48 else [] :: u8 list)"
  define pre where "pre = (if hash then prefix_of (unat base) else [])"
  define sg where "sg = (if neg then [45] else [] :: u8 list)"
  have w: "w \<le> 32" unfolding w_def by (rule number_width_le)
  have body: "number_body zero hash neg (unat (pad_width st)) (unat base) (unat num) = sg @ pre @ zs @ ?ds"
    by (simp add: number_body_def sg_def pre_def zs_def w_def)
  have whole: "number_text zero hash neg (unat (pad_width st)) (unat base) (unat num) =
      replicate (w - length (sg @ pre @ zs @ ?ds)) 32 @ sg @ pre @ zs @ ?ds"
    by (simp add: number_text_def body w_def)
  obtain n out' where d: "kprintf_base_less_eq_16_to_ascii num base (replicate MAX_NUMBER_PRINT_WIDTH 0) MAX_NUMBER_PRINT_WIDTH =
      Some (n, out')" "n \<le> 32" "length out' = 32" "rev (take n out') = ?ds"
  proof -
    have "unat num < 2 ^ 32" using unat_u32_less [of num] by simp
    from notation_of_length [OF assms(1) this] have l: "length ?ds \<le> 32" by simp
    then show thesis
      using that [of "length ?ds"] digits_loop_eq [OF assms(1,2), of 0 num 32 "replicate 32 0"] assms(2)
      by (simp add: kprintf_base_less_eq_16_to_ascii_def MAX_NUMBER_PRINT_WIDTH_def word_le_nat_alt)
  qed
  have "holds (n, out') (rev ?ds)" using d(2-4) by (simp add: holds_def flip: d(4))
  then have h0: "\<exists>b1. (if zero then pad_to 48 w (n, out') else Some (n, out')) = Some b1 \<and> holds b1 (rev ?ds @ zs)"
    using pad_to_holds [OF _ w, of "(n, out')" "rev ?ds" 48] by (simp add: zs_def)
  then obtain b1 where b1: "(if zero then pad_to 48 w (n, out') else Some (n, out')) = Some b1" "holds b1 (rev ?ds @ zs)"
    by blast
  let ?hash = "\<lambda>b. if hash then do {
      b \<leftarrow> (if unat base = 16 then put_char 120 b else if unat base = 2 then put_char 98 b else Some b);
      put_char 48 b
    } else Some b"
  let ?sign = "\<lambda>b. if neg then put_char 45 b else Some b"
  let ?rest = "\<lambda>b. do {
      b \<leftarrow> ?hash b;
      b \<leftarrow> ?sign b;
      b \<leftarrow> pad_to 32 w b;
      Some (of_nat (fst b), rev (take (fst b) (snd b)))
    }"
  have B: "(base = 16) = (unat base = 16)" "(base = 2) = (unat base = 2)" by (simp_all add: word_unat_eq_iff)
  note pad = width_unat [where zero = zero and hash = hash and neg = neg and pad = "pad_width st", OF refl refl refl, folded w_def]
  have le: "\<not> base > 16" using assms(2) by (simp add: word_less_nat_alt)
  have eq: "kprintf_format_and_output_number num base neg st = ?rest b1"
    unfolding kprintf_format_and_output_number_def Let_def assms(3,4) [symmetric] if_not_P [OF le] d(1)
      bind.bind_lunit pad b1(1) B by (rule refl)
  have rev: "rev (sg @ pre @ zs @ ?ds) = ((rev ?ds @ zs) @ rev pre) @ sg"
    by (simp add: zs_def sg_def)
  show ?thesis
  proof (cases "length (rev ?ds @ zs) + length pre \<le> 32")
    case False
    have hash using False b1(2) by (cases hash) (simp_all add: pre_def holds_def)
    then have "?hash b1 = None" using False prefix_overflows [OF b1(2), of "unat base"] by (simp add: pre_def)
    moreover have "\<not> length (sg @ pre @ zs @ ?ds) \<le> 32" using False by simp
    ultimately show ?thesis unfolding eq body by (simp only: bind.bind_lzero if_False)
  next
    case True
    then obtain b2 where b2: "?hash b1 = Some b2" "holds b2 ((rev ?ds @ zs) @ rev pre)"
      using prefix_holds [OF b1(2), of "unat base"] b1(2) by (cases hash) (simp_all add: pre_def, blast)
    show ?thesis
    proof (cases "length (sg @ pre @ zs @ ?ds) \<le> 32")
      case False
      then have "?sign b2 = None"
        using put_char_holds [OF b2(2), of 45] True by (auto simp: sg_def split: if_splits)
      then show ?thesis unfolding eq body using False by (simp only: b2(1) bind.bind_lunit bind.bind_lzero if_False)
    next
      case fits: True
      then obtain b3 where b3: "?sign b2 = Some b3" "holds b3 (((rev ?ds @ zs) @ rev pre) @ sg)"
        using put_char_holds [OF b2(2), of 45] b2(2) by (auto simp: sg_def split: if_splits)
      then have b3': "holds b3 (rev (sg @ pre @ zs @ ?ds))" by (simp only: rev)
      obtain b4 where b4: "pad_to 32 w b3 = Some b4"
          "holds b4 (rev (sg @ pre @ zs @ ?ds) @ replicate (w - length (sg @ pre @ zs @ ?ds)) 32)"
        using pad_to_holds [OF b3' w, of 32] unfolding length_rev by blast
      then have "fst b4 = length (replicate (w - length (sg @ pre @ zs @ ?ds)) 32 @ sg @ pre @ zs @ ?ds)"
        "rev (take (fst b4) (snd b4)) = replicate (w - length (sg @ pre @ zs @ ?ds)) 32 @ sg @ pre @ zs @ ?ds"
        unfolding holds_def by simp_all
      then show ?thesis
        unfolding eq body whole using fits by (simp only: b2(1) b3(1) b4(1) bind.bind_lunit if_True)
    qed
  qed
qed

text \<open>C37. The text of a number: spaces, then the sign, the prefix, the zeros and the digits. The width that
  is asked for is cut to 32 characters and lowered by the prefix and the sign when it is filled with
  zeros, and the return value is the number of characters sent. The text is written only when sign,
  prefix, zeros and digits fit into 32 characters; otherwise the code writes behind its buffer, as it does
  for \<^verbatim>\<open>%#b\<close> and a number with 31 or 32 binary digits.\<close>

theorem number_layout:
  assumes "2 \<le> unat base" "unat base \<le> 16"
    and "zero = (flags st AND flag_zeropad \<noteq> 0)" "hash = (flags st AND flag_hash \<noteq> 0)"
  shows "kprintf_format_and_output_number num base neg st =
    (if length (number_body zero hash neg (unat (pad_width st)) (unat base) (unat num)) \<le> 32
     then Some (of_nat (length (number_text zero hash neg (unat (pad_width st)) (unat base) (unat num))),
       number_text zero hash neg (unat (pad_width st)) (unat base) (unat num))
     else None)"
  by (rule number_output [OF assms])

theorem number_layout_witness:
  "kprintf_format_and_output_number 0x80000000 2 False
     \<lparr>arguments = [], position = [], flags = flag_hash, pad_width = 0\<rparr> = None"
proof -
  let ?st = "\<lparr>arguments = [], position = [], flags = flag_hash, pad_width = 0\<rparr>"
  have "length (notation_of 2 2147483648) = 32" by (simp add: notation_of.simps)
  then have "length (number_body False True False 0 2 2147483648) = 34"
    by (simp add: number_body_def prefix_of_def)
  moreover have "unat (2 :: u8) = 2" "unat (pad_width ?st) = 0" "unat (0x80000000 :: u32) = 2147483648" by simp_all
  moreover have "False = (flags ?st AND flag_zeropad \<noteq> 0)" "True = (flags ?st AND flag_hash \<noteq> 0)"
    by (simp_all add: flag_zeropad_def flag_hash_def)
  then have "kprintf_format_and_output_number 0x80000000 2 False ?st =
    (if length (number_body False True False (unat (pad_width ?st)) (unat (2 :: u8)) (unat (0x80000000 :: u32))) \<le> 32
     then Some (of_nat (length (number_text False True False (unat (pad_width ?st)) (unat (2 :: u8)) (unat (0x80000000 :: u32)))),
       number_text False True False (unat (pad_width ?st)) (unat (2 :: u8)) (unat (0x80000000 :: u32)))
     else None)"
    by (intro number_layout) simp_all
  ultimately show ?thesis by simp
qed

end
