(* ===== verification/Khash.thy ===== *)
theory Khash
  imports Kstring
begin

text \<open>
  \<^verbatim>\<open>kernel/lib/khash.c\<close>: Jenkins' hash of a string, which the kernel uses to choose the colours of
  its log labels. A key is the list of its bytes; the pointer into it and the count of the bytes
  that are left move together, so both are the rest of the list.
\<close>

section \<open>Definitions\<close>

definition K_HASH_JEN_MIX :: "u32 \<Rightarrow> u32 \<Rightarrow> u32 \<Rightarrow> u32 \<times> u32 \<times> u32" where
  "K_HASH_JEN_MIX a b c =
     (let a = a - b; a = a - c; a = a XOR drop_bit 13 c;
          b = b - c; b = b - a; b = b XOR push_bit 8 a;
          c = c - a; c = c - b; c = c XOR drop_bit 13 b;
          a = a - b; a = a - c; a = a XOR drop_bit 12 c;
          b = b - c; b = b - a; b = b XOR push_bit 16 a;
          c = c - a; c = c - b; c = c XOR drop_bit 5 b;
          a = a - b; a = a - c; a = a XOR drop_bit 3 c;
          b = b - c; b = b - a; b = b XOR push_bit 10 a;
          c = c - a; c = c - b; c = c XOR drop_bit 15 b
      in (a, b, c))"

definition key_word :: "u8 list \<Rightarrow> nat \<Rightarrow> u32" where
  "key_word key i = ucast (key ! i) + push_bit 8 (ucast (key ! (i + 1))) +
     push_bit 16 (ucast (key ! (i + 2))) + push_bit 24 (ucast (key ! (i + 3)))"

function k_hash_jen_loop :: "u32 \<Rightarrow> u32 \<Rightarrow> u32 \<Rightarrow> u8 list \<Rightarrow> u32 \<times> u32 \<times> u32 \<times> u8 list" where
  "k_hash_jen_loop i j hashv key =
     (if length key \<ge> 12
      then let i = i + key_word key 0;
               j = j + key_word key 4;
               hashv = hashv + key_word key 8;
               (i, j, hashv) = K_HASH_JEN_MIX i j hashv
           in k_hash_jen_loop i j hashv (drop 12 key)
      else (i, j, hashv, key))"
  by pat_completeness auto
termination
  by (relation "measure (\<lambda>(i, j, hashv, key). length key)") auto

declare k_hash_jen_loop.simps [simp del]

text \<open>The cases of the \<^verbatim>\<open>switch\<close> fall through: case \<open>n\<close> adds the byte \<open>n - 1\<close>, for every
  \<open>n\<close> up to the number of bytes that are left.\<close>

definition tail_byte :: "u8 list \<Rightarrow> nat \<Rightarrow> nat \<Rightarrow> u32" where
  "tail_byte key n shift = (if n \<le> length key then push_bit shift (ucast (key ! (n - 1))) else 0)"

definition k_hash_jen :: "u8 list \<Rightarrow> u32 \<Rightarrow> u32" where
  "k_hash_jen key seed =
     (let (i, j, hashv, rest) = k_hash_jen_loop 0x9e3779b9 0x9e3779b9 seed key;
          hashv = hashv + of_nat (length key);
          hashv = hashv + tail_byte rest 11 24;
          hashv = hashv + tail_byte rest 10 16;
          hashv = hashv + tail_byte rest 9 8;
          j = j + tail_byte rest 8 24;
          j = j + tail_byte rest 7 16;
          j = j + tail_byte rest 6 8;
          j = j + tail_byte rest 5 0;
          i = i + tail_byte rest 4 24;
          i = i + tail_byte rest 3 16;
          i = i + tail_byte rest 2 8;
          i = i + tail_byte rest 1 0;
          (i, j, hashv) = K_HASH_JEN_MIX i j hashv
      in hashv)"

definition k_hash_string :: "u8 list \<Rightarrow> u32 option" where
  "k_hash_string str = do {
     n \<leftarrow> k_strlen str;
     Some (k_hash_jen (take n str) 0xfeedbeef)
   }"

definition k_hash_string_with_seed :: "u8 list \<Rightarrow> u32 \<Rightarrow> u32 option" where
  "k_hash_string_with_seed str seed = do {
     n \<leftarrow> k_strlen str;
     Some (k_hash_jen (take n str) seed)
   }"

section \<open>Correctness\<close>

text \<open>Only the bytes before the terminator count.\<close>

lemma k_hash_string_eq:
  "0 \<notin> set s \<Longrightarrow> k_hash_string_with_seed (s @ 0 # t) seed = Some (k_hash_jen s seed)"
  by (simp add: k_hash_string_with_seed_def k_strlen_eq)

text \<open>The loop consumes whole blocks of twelve bytes and leaves fewer than twelve.\<close>

lemma k_hash_jen_loop_step:
  assumes "12 \<le> length key"
    and "K_HASH_JEN_MIX (i + key_word key 0) (j + key_word key 4) (hashv + key_word key 8) = (i2, j2, h2)"
  shows "k_hash_jen_loop i j hashv key = k_hash_jen_loop i2 j2 h2 (drop 12 key)"
  using assms(1) unfolding k_hash_jen_loop.simps [of i j hashv key] Let_def assms(2) by simp

lemma k_hash_jen_loop_rest:
  "\<exists>i' j' h'. k_hash_jen_loop i j hashv key = (i', j', h', drop (length key div 12 * 12) key)"
proof (induction "length key" arbitrary: i j hashv key rule: less_induct)
  case less
  show ?case
  proof (cases "12 \<le> length key")
    case True
    obtain i2 j2 h2 where m: "K_HASH_JEN_MIX (i + key_word key 0) (j + key_word key 4) (hashv + key_word key 8) = (i2, j2, h2)"
      by (rule prod_cases3)
    have "length (drop 12 key) < length key" using True by simp
    from less.hyps [OF this] obtain i' j' h' where
      "k_hash_jen_loop i2 j2 h2 (drop 12 key) = (i', j', h', drop (length (drop 12 key) div 12 * 12) (drop 12 key))"
      by blast
    moreover have "length (drop 12 key) div 12 * 12 + 12 = length key div 12 * 12"
      using le_div_geq [of 12 "length key"] True by simp
    ultimately show ?thesis
      unfolding k_hash_jen_loop_step [OF True m] drop_drop by metis
  next
    case False
    then have "k_hash_jen_loop i j hashv key = (i, j, hashv, key)"
      by (simp only: k_hash_jen_loop.simps [of i j hashv key] if_False)
    moreover have "length key div 12 * 12 = 0" using False by simp
    ultimately show ?thesis by simp
  qed
qed

end
