(* ===== verification/Kcolor.thy ===== *)
theory Kcolor
  imports Kfraction
begin

text \<open>
  \<^verbatim>\<open>kernel/lib/kcolor.c\<close>: conversion of a colour from hue, saturation and lightness to red, green
  and blue, on fractions. \<open>k_hue_to_rgb\<close> changes the fraction \<open>t\<close> points to; it returns the
  new one with its result.
\<close>

section \<open>Definitions\<close>

record k_rgb_color =
  red :: u8
  green :: u8
  blue :: u8

record k_hsl_color =
  hue :: u16
  saturation :: u8
  lightness :: u8

definition k_hue_to_rgb :: "k_fraction \<Rightarrow> k_fraction \<Rightarrow> k_fraction \<Rightarrow> (k_fraction \<times> k_fraction) option" where
  "k_hue_to_rgb p q t = do {
     c0 \<leftarrow> k_fraction_from_number 0;
     c1 \<leftarrow> k_fraction_from_number 1;
     c1_6 \<leftarrow> k_fraction_create 1 6;
     c1_2 \<leftarrow> k_fraction_create 1 2;
     c2_3 \<leftarrow> k_fraction_create 2 3;
     c6 \<leftarrow> k_fraction_from_number 6;
     b \<leftarrow> k_fraction_lt t c0;
     t \<leftarrow> (if b then k_fraction_add t c1 else Some t);
     b \<leftarrow> k_fraction_lt c1 t;
     t \<leftarrow> (if b then k_fraction_sub t c1 else Some t);
     b \<leftarrow> k_fraction_lt t c1_6;
     if b
     then do {
       q_m_p \<leftarrow> k_fraction_sub q p;
       q_m_p_m_6 \<leftarrow> k_fraction_multiply_unchecked q_m_p c6;
       q_m_p_m_6_m_t \<leftarrow> k_fraction_multiply_unchecked q_m_p_m_6 t;
       r \<leftarrow> k_fraction_add p q_m_p_m_6_m_t;
       Some (r, t)
     }
     else do {
       b \<leftarrow> k_fraction_lt t c1_2;
       if b then Some (q, t)
       else do {
         b \<leftarrow> k_fraction_lt t c2_3;
         if b
         then do {
           q_m_p \<leftarrow> k_fraction_sub q p;
           tt_m_t \<leftarrow> k_fraction_sub c2_3 t;
           q_m_p_m_tt_m_t \<leftarrow> k_fraction_multiply_unchecked q_m_p tt_m_t;
           q_m_p_m_tt_m_t_m_6 \<leftarrow> k_fraction_multiply_unchecked q_m_p_m_tt_m_t c6;
           r \<leftarrow> k_fraction_add p q_m_p_m_tt_m_t_m_6;
           Some (r, t)
         }
         else Some (p, t)
       }
     }
   }"

text \<open>One channel of the result: scaled to 255, rounded and cut to a byte.\<close>

definition color_channel :: "k_fraction \<Rightarrow> k_fraction \<Rightarrow> u8 option" where
  "color_channel c255 x = do {
     x \<leftarrow> k_fraction_multiply_unchecked x c255;
     x \<leftarrow> k_fraction_round x;
     n \<leftarrow> k_fraction_to_whole_number x;
     Some (word_of_int n)
   }"

definition k_hsl_to_rgb :: "k_hsl_color \<Rightarrow> k_rgb_color option" where
  "k_hsl_to_rgb hsl = do {
     verify (hue hsl < 360);
     verify (saturation hsl \<le> 100);
     verify (lightness hsl \<le> 100);
     c0 \<leftarrow> k_fraction_from_number 0;
     c1_3 \<leftarrow> k_fraction_create 1 3;
     c1_2 \<leftarrow> k_fraction_create 1 2;
     c1 \<leftarrow> k_fraction_from_number 1;
     c2 \<leftarrow> k_fraction_from_number 2;
     c255 \<leftarrow> k_fraction_from_number 255;
     h \<leftarrow> k_fraction_create (uint (hue hsl)) 360;
     s \<leftarrow> k_fraction_create (uint (saturation hsl)) 100;
     l \<leftarrow> k_fraction_create (uint (lightness hsl)) 100;
     grey \<leftarrow> k_fraction_eq s c0;
     (r, g, b) \<leftarrow>
       (if grey then Some (l, l, l)
        else do {
          dark \<leftarrow> k_fraction_lt l c1_2;
          q \<leftarrow> (if dark
               then do {
                 s_p_1 \<leftarrow> k_fraction_add s c1;
                 k_fraction_multiply_unchecked l s_p_1
               }
               else do {
                 l_p_s \<leftarrow> k_fraction_add l s;
                 l_m_s \<leftarrow> k_fraction_multiply_unchecked l s;
                 k_fraction_sub l_p_s l_m_s
               });
          l_m_2 \<leftarrow> k_fraction_multiply_unchecked l c2;
          p \<leftarrow> k_fraction_sub l_m_2 q;
          h_p_ot \<leftarrow> k_fraction_add h c1_3;
          h_m_ot \<leftarrow> k_fraction_sub h c1_3;
          (r, h_p_ot) \<leftarrow> k_hue_to_rgb p q h_p_ot;
          (g, h) \<leftarrow> k_hue_to_rgb p q h;
          (b, h_m_ot) \<leftarrow> k_hue_to_rgb p q h_m_ot;
          Some (r, g, b)
        });
     r \<leftarrow> color_channel c255 r;
     g \<leftarrow> color_channel c255 g;
     b \<leftarrow> color_channel c255 b;
     Some \<lparr>red = r, green = g, blue = b\<rparr>
   }"

end
