(* ===== verification/Log.thy ===== *)
theory Log
  imports Register_Dump Kprintf_Numbers Khash Kcolor
begin

text \<open>
  \<^verbatim>\<open>include/kernel/lib/kdebug.h\<close>: the macros that write log messages. A source file chooses its
  label, its level and whether it uses colours before it includes the header; that choice is a
  \<open>log_module\<close>. The macros return the characters they write, in order. The two static variables of
  the file are a \<open>log_state\<close>. What the kernel does besides logging does not depend on any of it, so
  the other theories leave the messages out; a \<open>kpanicln\<close> or a failed \<open>VERIFY\<close> is \<open>None\<close> there, and
  \<open>verify_abstracts\<close> connects the two.
\<close>

section \<open>Definitions\<close>

definition PANIC_LEVEL :: int where "PANIC_LEVEL = 0"
definition WARNING_LEVEL :: int where "WARNING_LEVEL = 1"
definition DEBUG_LEVEL :: int where "DEBUG_LEVEL = 2"

lemmas level_defs = PANIC_LEVEL_def WARNING_LEVEL_def DEBUG_LEVEL_def

record log_module =
  LOG_LABEL :: "u8 list"
  LOG_LEVEL :: int
  LOG_COLORED_OUTPUT :: bool

text \<open>The values of a file that defines none of the three.\<close>

definition default_module :: log_module where
  "default_module = \<lparr>LOG_LABEL = bytes ''Unknown'', LOG_LEVEL = DEBUG_LEVEL, LOG_COLORED_OUTPUT = True\<rparr>"

record log_state =
  initialised_module_color :: bool
  label_color :: k_rgb_color

definition ESC_RESET_COLOR :: "u8 list" where
  "ESC_RESET_COLOR = 27 # bytes ''[0m''"

definition debug_warning_color :: k_rgb_color where
  "debug_warning_color = \<lparr>red = 249, green = 115, blue = 31\<rparr>"

definition debug_panic_color :: k_rgb_color where
  "debug_panic_color = \<lparr>red = 236, green = 55, blue = 19\<rparr>"

definition HUE_SEED :: u32 where "HUE_SEED = 0xf9136546"
definition SATURATION_SEED :: u32 where "SATURATION_SEED = 0x70b5bb43"
definition LIGHTNESS_SEED :: u32 where "LIGHTNESS_SEED = 0x8a4ef7c5"

definition clamped_hash :: "u8 list \<Rightarrow> u32 \<Rightarrow> int option" where
  "clamped_hash name seed = do {
     h \<leftarrow> k_hash_string_with_seed (name @ [0]) seed;
     c \<leftarrow> k_clamp_unsigned h 0 (unsigned_of_long LONG_MAX);
     Some (long_of_unsigned c)
   }"

definition INITIALISE_MODULE_COLOR_ONCE :: "log_module \<Rightarrow> log_state \<Rightarrow> log_state option" where
  "INITIALISE_MODULE_COLOR_ONCE m st =
     (if \<not> initialised_module_color st
      then do {
        hue_hash \<leftarrow> clamped_hash (LOG_LABEL m) HUE_SEED;
        saturation_hash \<leftarrow> clamped_hash (LOG_LABEL m) SATURATION_SEED;
        lightness_hash \<leftarrow> clamped_hash (LOG_LABEL m) LIGHTNESS_SEED;
        h \<leftarrow> k_project_long_onto_range hue_hash 0 359;
        s \<leftarrow> k_project_long_onto_range saturation_hash 70 90;
        l \<leftarrow> k_project_long_onto_range lightness_hash 50 80;
        rgb \<leftarrow> k_hsl_to_rgb \<lparr>hue = word_of_int h, saturation = word_of_int s, lightness = word_of_int l\<rparr>;
        Some (st\<lparr>label_color := rgb, initialised_module_color := True\<rparr>)
      }
      else Some st)"

definition PRINT_COLORED :: "u8 list \<Rightarrow> k_rgb_color \<Rightarrow> u8 list option" where
  "PRINT_COLORED str color =
     print (27 # bytes ''[38;2;%u;%u;%um'' @ str @ ESC_RESET_COLOR)
       [Number (ucast (red color)), Number (ucast (green color)), Number (ucast (blue color))]"

definition PRINT_COLORED_LABEL :: "log_module \<Rightarrow> log_state \<Rightarrow> (u8 list \<times> log_state) option" where
  "PRINT_COLORED_LABEL m st = do {
     st \<leftarrow> INITIALISE_MODULE_COLOR_ONCE m st;
     a \<leftarrow> PRINT_COLORED (bytes ''('' @ LOG_LABEL m @ bytes '') '') (label_color st);
     Some (a, st)
   }"

definition kdbgln :: "log_module \<Rightarrow> u8 list \<Rightarrow> argument list \<Rightarrow> log_state \<Rightarrow> (u8 list \<times> log_state) option" where
  "kdbgln m format args st =
     (if LOG_LEVEL m \<ge> DEBUG_LEVEL
      then if LOG_COLORED_OUTPUT m
        then do {
          (a, st) \<leftarrow> PRINT_COLORED_LABEL m st;
          b \<leftarrow> print format args;
          c \<leftarrow> print [10] [];
          Some (a @ b @ c, st)
        }
        else do {
          a \<leftarrow> print (bytes ''('' @ LOG_LABEL m @ bytes '') '') [];
          b \<leftarrow> print format args;
          c \<leftarrow> print [10] [];
          Some (a @ b @ c, st)
        }
      else Some ([], st))"

definition kwarnln :: "log_module \<Rightarrow> u8 list \<Rightarrow> argument list \<Rightarrow> log_state \<Rightarrow> (u8 list \<times> log_state) option" where
  "kwarnln m format args st =
     (if LOG_LEVEL m \<ge> WARNING_LEVEL
      then if LOG_COLORED_OUTPUT m
        then do {
          w \<leftarrow> PRINT_COLORED (bytes ''[WARNING] '') debug_warning_color;
          (a, st) \<leftarrow> PRINT_COLORED_LABEL m st;
          b \<leftarrow> print format args;
          c \<leftarrow> print [10] [];
          Some (w @ a @ b @ c, st)
        }
        else do {
          a \<leftarrow> print (bytes ''[WARNING] ('' @ LOG_LABEL m @ bytes '') '') [];
          b \<leftarrow> print format args;
          c \<leftarrow> print [10] [];
          Some (a @ b @ c, st)
        }
      else Some ([], st))"

text \<open>Whether the statement behind the macro is reached: \<open>halt_cpu\<close> does not return.\<close>

datatype continuation = Continues | Halts

definition kpanicln ::
  "log_module \<Rightarrow> u8 list \<Rightarrow> argument list \<Rightarrow> log_state \<Rightarrow> (u8 list \<times> log_state \<times> continuation) option" where
  "kpanicln m format args st =
     (if LOG_LEVEL m \<ge> PANIC_LEVEL
      then if LOG_COLORED_OUTPUT m
        then do {
          p \<leftarrow> PRINT_COLORED (bytes ''[PANIC] '') debug_panic_color;
          (a, st) \<leftarrow> PRINT_COLORED_LABEL m st;
          b \<leftarrow> print format args;
          c \<leftarrow> print (10 # bytes ''Halting System.'' @ [10]) [];
          Some (p @ a @ b @ c, st, Halts)
        }
        else do {
          a \<leftarrow> print (bytes ''[PANIC] ('' @ LOG_LABEL m @ bytes '') '') [];
          b \<leftarrow> print format args;
          c \<leftarrow> print (10 # bytes ''Halting System.'' @ [10]) [];
          Some (a @ b @ c, st, Halts)
        }
      else Some ([], st, Continues))"

text \<open>\<^verbatim>\<open>include/kernel/lib/kassertions.h\<close>; \<open>what\<close> is the text of the expression.\<close>

definition VERIFY ::
  "log_module \<Rightarrow> bool \<Rightarrow> u8 list \<Rightarrow> u8 list \<Rightarrow> u32 \<Rightarrow> u8 list \<Rightarrow> log_state \<Rightarrow>
   (u8 list \<times> log_state \<times> continuation) option" where
  "VERIFY m expression what file line function st =
     (if \<not> expression
      then kpanicln m (bytes ''ASSERTION FAILED: %s'' @ 10 # bytes ''%s:%u in %s'')
             [String what, String file, Number line, String function] st
      else Some ([], st, Continues))"

section \<open>What a format prints\<close>

text \<open>Text without a percent sign and without a terminator prints itself.\<close>

definition plain :: "u8 list \<Rightarrow> bool" where
  "plain p \<longleftrightarrow> (\<forall>c \<in> set p. c \<noteq> 0 \<and> c \<noteq> 37)"

lemma plain_simps [simp]:
  "plain []" "plain (c # p) \<longleftrightarrow> c \<noteq> 0 \<and> c \<noteq> 37 \<and> plain p" "plain (p @ q) \<longleftrightarrow> plain p \<and> plain q"
  by (auto simp: plain_def)

definition shift_output :: "u8 list \<Rightarrow> (int \<times> u8 list) option \<Rightarrow> (int \<times> u8 list) option" where
  "shift_output p x = map_option (\<lambda>(r, out). (r, p @ out)) x"

lemma shift_output_simps [simp]:
  "shift_output [] x = x" "shift_output p (shift_output q x) = shift_output (p @ q) x"
  "shift_output p None = None" "shift_output p (Some (r, out)) = Some (r, p @ out)"
  by (cases x; auto simp: shift_output_def)+

lemma loop_plain:
  assumes "plain p" "0 \<le> n" "n + int (length p) \<le> LONG_MAX" "position st = p @ q"
  shows "kprintf_loop st n = shift_output p (kprintf_loop (st\<lparr>position := q\<rparr>) (n + int (length p)))"
  using assms
proof (induction p arbitrary: st n)
  case (Cons c p)
  have l: "long (n + 1) = Some (n + 1)" using Cons.prems(2,3) by (auto simp: long_def in_long_def)
  have "kprintf_loop st n = shift_output [c] (kprintf_loop (advance st) (n + 1))"
    using Cons.prems(1,4) l by (subst kprintf_loop.simps) (simp add: peek_def shift_output_def)
  also have "kprintf_loop (advance st) (n + 1) =
      shift_output p (kprintf_loop ((advance st)\<lparr>position := q\<rparr>) (n + 1 + int (length p)))"
    using Cons.prems by (intro Cons.IH) (auto simp: advance_def)
  also have "(advance st)\<lparr>position := q\<rparr> = st\<lparr>position := q\<rparr>" by (simp add: advance_def)
  finally show ?case by (simp add: add.assoc)
next
  case Nil
  then have "st\<lparr>position := q\<rparr> = st" by (cases st) simp
  then show ?case by simp
qed

lemma loop_end: "kprintf_loop \<lparr>arguments = args, position = [], flags = fl, pad_width = w\<rparr> n = Some (n, [])"
  by (subst kprintf_loop.simps) (simp add: peek_def)

text \<open>\<^verbatim>\<open>%u\<close> without flags and width prints the decimal digits.\<close>

lemma decimal_length: "length (notation_of 10 (unat (w :: u32))) \<le> 32"
  using notation_of_length [of 10 "unat w" 32] unat_u32_less [of w] by simp

lemma loop_decimal:
  assumes "0 \<le> n" "n + 32 \<le> LONG_MAX"
  shows "kprintf_loop \<lparr>arguments = Number w # args, position = 37 # 117 # q, flags = 0, pad_width = 0\<rparr> n =
    shift_output (notation_of 10 (unat w)) (kprintf_loop \<lparr>arguments = args, position = q, flags = 0, pad_width = 0\<rparr>
      (n + int (length (notation_of 10 (unat w)))))"
proof -
  let ?ds = "notation_of 10 (unat w)"
  let ?st = "\<lparr>arguments = args, position = 117 # q, flags = 0, pad_width = 0\<rparr>"
  have "kprintf_format_and_output_number w 10 False ?st = Some (of_nat (length ?ds), ?ds)"
    using number_output [of 10 False ?st False w False] decimal_length [of w]
    by (simp add: number_body_def number_text_def number_width_def)
  moreover have "long_of_unsigned (of_nat (length ?ds)) = int (length ?ds)"
    using decimal_length [of w] by (simp add: long_of_unsigned_def signed_of_nat signed_take_bit_int_eq_self)
  ultimately have d: "kprintf_directive \<lparr>arguments = Number w # args, position = 117 # q, flags = 0, pad_width = 0\<rparr> =
      Some (int (length ?ds), ?ds, ?st)"
    by (simp add: kprintf_directive_def kprintf_set_flags_def kprintf_set_pad_width_def k_is_ascii_decimal_digit_def
        kprintf_handle_format_specifier_def peek_def va_arg_number_def)
  have l: "long (n + int (length ?ds)) = Some (n + int (length ?ds))"
    using assms decimal_length [of w] by (auto simp: long_def in_long_def)
  show ?thesis
    by (subst kprintf_loop.simps)
      (simp add: peek_def advance_def d l kprintf_reset_state_def shift_output_def)
qed

lemma print_plain: "plain p \<Longrightarrow> int (length p) \<le> LONG_MAX \<Longrightarrow> print p args = Some p"
  using loop_plain [of p 0 "kprintf_initialize_state p args" "[]"]
  by (simp add: print_def kprintf_output_def kprintf_initialize_state_def loop_end)

section \<open>The lines of the log\<close>

text \<open>The escape sequences around a coloured text, and the label of a module.\<close>

definition colored_text :: "k_rgb_color \<Rightarrow> u8 list \<Rightarrow> u8 list" where
  "colored_text c str = 27 # bytes ''[38;2;'' @ notation_of 10 (unat (red c)) @ bytes '';'' @
     notation_of 10 (unat (green c)) @ bytes '';'' @ notation_of 10 (unat (blue c)) @ bytes ''m'' @ str @
     27 # bytes ''[0m''"

definition label_text :: "log_module \<Rightarrow> log_state \<Rightarrow> u8 list" where
  "label_text m st =
     (let label = bytes ''('' @ LOG_LABEL m @ bytes '') ''
      in if LOG_COLORED_OUTPUT m then colored_text (label_color st) label else label)"

definition tag_text :: "log_module \<Rightarrow> k_rgb_color \<Rightarrow> u8 list \<Rightarrow> u8 list" where
  "tag_text m c tag = (if LOG_COLORED_OUTPUT m then colored_text c tag else tag)"

lemma unat_ucast_u8: "unat (ucast (w :: u8) :: u32) = unat w"
proof -
  have "unat w < 2 ^ LENGTH(8)" by (rule unsigned_less)
  then show ?thesis by (simp add: unsigned_ucast_eq take_bit_nat_eq_self)
qed

text \<open>A bound for the length of labels that is far from every limit.\<close>

definition printable :: "u8 list \<Rightarrow> bool" where
  "printable label \<longleftrightarrow> plain label \<and> length label \<le> 1000"

lemma PRINT_COLORED_text:
  assumes "plain str" "length str \<le> 1010"
  shows "PRINT_COLORED str c = Some (colored_text c str)"
proof -
  let ?r = "ucast (red c) :: u32" and ?g = "ucast (green c) :: u32" and ?b = "ucast (blue c) :: u32"
  let ?st = "\<lambda>args p. \<lparr>arguments = args, position = p, flags = 0, pad_width = 0\<rparr>"
  let ?d = "\<lambda>w. notation_of 10 (unat (w :: u32))"
  have tail: "kprintf_loop (?st [] (bytes ''m'' @ str @ ESC_RESET_COLOR)) n =
      Some (n + int (length str + 5), bytes ''m'' @ str @ ESC_RESET_COLOR)" if "0 \<le> n" "n \<le> 1000" for n
    using loop_plain [of "bytes ''m'' @ str @ ESC_RESET_COLOR" n "?st [] (bytes ''m'' @ str @ ESC_RESET_COLOR)" "[]"] assms that
    by (simp add: loop_end bytes_def ESC_RESET_COLOR_def)
  have sep: "kprintf_loop (?st args (bytes '';'' @ p)) n = shift_output (bytes '';'') (kprintf_loop (?st args p) (n + 1))"
    if "0 \<le> n" "n \<le> 1000" for n args p
    using loop_plain [of "bytes '';''" n "?st args (bytes '';'' @ p)" p] that by (simp add: bytes_def)
  have dec: "kprintf_loop (?st (Number w # args) (37 # 117 # p)) n = shift_output (?d w) (kprintf_loop (?st args p) (n + int (length (?d w))))"
    if "0 \<le> n" "n \<le> 1000" for n w args p
    using that by (intro loop_decimal) auto
  have form: "27 # bytes ''[38;2;%u;%u;%um'' @ str @ ESC_RESET_COLOR =
      (27 # bytes ''[38;2;'') @ 37 # 117 # bytes '';'' @ 37 # 117 # bytes '';'' @ 37 # 117 # bytes ''m'' @ str @ ESC_RESET_COLOR"
    by (simp add: bytes_def)
  have "kprintf_loop (?st [Number ?r, Number ?g, Number ?b] (27 # bytes ''[38;2;%u;%u;%um'' @ str @ ESC_RESET_COLOR)) 0 =
      shift_output (27 # bytes ''[38;2;'') (kprintf_loop (?st [Number ?r, Number ?g, Number ?b]
        (37 # 117 # bytes '';'' @ 37 # 117 # bytes '';'' @ 37 # 117 # bytes ''m'' @ str @ ESC_RESET_COLOR)) 7)"
    unfolding form using loop_plain [of "27 # bytes ''[38;2;''" 0 "?st [Number ?r, Number ?g, Number ?b] _"]
    by (simp add: bytes_def)
  then have "\<exists>n. kprintf_loop (?st [Number ?r, Number ?g, Number ?b] (27 # bytes ''[38;2;%u;%u;%um'' @ str @ ESC_RESET_COLOR)) 0 =
      Some (n, colored_text c str)"
    using decimal_length [of ?r] decimal_length [of ?g] decimal_length [of ?b]
    by (simp add: dec sep tail [unfolded ESC_RESET_COLOR_def] colored_text_def ESC_RESET_COLOR_def unat_ucast_u8)
  then show ?thesis
    by (auto simp: PRINT_COLORED_def print_def kprintf_output_def kprintf_initialize_state_def)
qed

lemma initialised_once:
  "INITIALISE_MODULE_COLOR_ONCE m st = Some st' \<Longrightarrow> initialised_module_color st'"
  "initialised_module_color st \<Longrightarrow> INITIALISE_MODULE_COLOR_ONCE m st = Some st"
  by (auto simp: INITIALISE_MODULE_COLOR_ONCE_def Option.bind_eq_Some_conv split: if_splits)

lemma print_newline: "print [10] [] = Some [10]" "print (10 # bytes ''Halting System.'' @ [10]) [] = Some (10 # bytes ''Halting System.'' @ [10])"
  by (simp_all add: print_plain bytes_def)

definition line_color :: "log_module \<Rightarrow> log_state \<Rightarrow> log_state option" where
  "line_color m st = (if LOG_COLORED_OUTPUT m then INITIALISE_MODULE_COLOR_ONCE m st else Some st)"

lemma line_color_once:
  assumes "line_color m st = Some st'"
  shows "line_color m st' = Some st'"
  using assms initialised_once by (auto simp: line_color_def split: if_splits)

lemma label_printable:
  assumes "printable (LOG_LABEL m)"
  shows "PRINT_COLORED (bytes ''('' @ LOG_LABEL m @ bytes '') '') c = Some (colored_text c (bytes ''('' @ LOG_LABEL m @ bytes '') ''))"
    and "print (bytes ''('' @ LOG_LABEL m @ bytes '') '') [] = Some (bytes ''('' @ LOG_LABEL m @ bytes '') '')"
    and "print (bytes ''[WARNING] ('' @ LOG_LABEL m @ bytes '') '') [] = Some (bytes ''[WARNING] '' @ bytes ''('' @ LOG_LABEL m @ bytes '') '')"
    and "print (bytes ''[PANIC] ('' @ LOG_LABEL m @ bytes '') '') [] = Some (bytes ''[PANIC] '' @ bytes ''('' @ LOG_LABEL m @ bytes '') '')"
  using assms by (simp_all add: printable_def PRINT_COLORED_text print_plain bytes_def)

lemma tags_printable:
  "PRINT_COLORED (bytes ''[WARNING] '') c = Some (colored_text c (bytes ''[WARNING] ''))"
  "PRINT_COLORED (bytes ''[PANIC] '') c = Some (colored_text c (bytes ''[PANIC] ''))"
  by (simp_all add: PRINT_COLORED_text bytes_def)

lemmas log_text_simps = line_color_def PRINT_COLORED_LABEL_def label_text_def tag_text_def label_printable
  tags_printable print_newline level_defs Let_def


text \<open>The module of \<^verbatim>\<open>kernel/lib/kfraction.c\<close>, which must not use colours.\<close>

definition fraction_module :: log_module where
  "fraction_module = \<lparr>LOG_LABEL = bytes ''Fraction'', LOG_LEVEL = WARNING_LEVEL, LOG_COLORED_OUTPUT = False\<rparr>"


text \<open>An assertion that holds prints nothing; one that fails never returns, whatever the module, unless its
  level is below that of panics. That is what \<open>verify\<close> stands for in the other theories.\<close>

lemma verify_abstracts:
  assumes "PANIC_LEVEL \<le> LOG_LEVEL m"
  shows "(\<exists>out st'. VERIFY m b what file line function st = Some (out, st', Continues)) \<longleftrightarrow> verify b = Some ()"
  using assms by (auto simp: VERIFY_def kpanicln_def verify_def Option.bind_eq_Some_conv)

end
