(* ===== verification/Start.thy ===== *)
theory Start
  imports Interrupt Scheduler_Init Log
begin

text \<open>
  \<^verbatim>\<open>kernel/start.c\<close> and \<^verbatim>\<open>arch/bsp/peripherals_asm.S\<close>: the start of the kernel, up to the
  endless loop of \<open>halt_cpu\<close> in which it waits for the first interrupt. Everything that is static
  in the source and has no initialiser is zero, which \<open>boot_kernel\<close> states for the scheduler.
\<close>

section \<open>Definitions\<close>

definition TIMER1_ENABLE_FLAG :: u32 where "TIMER1_ENABLE_FLAG = push_bit 1 1"
definition TIMER3_ENABLE_FLAG :: u32 where "TIMER3_ENABLE_FLAG = push_bit 3 1"
definition UART_ENABLE_FLAG :: u32 where "UART_ENABLE_FLAG = push_bit 25 1"

text \<open>\<^verbatim>\<open>ldr\<close>, \<^verbatim>\<open>orr\<close>, \<^verbatim>\<open>str\<close> on one register.\<close>

definition set_flag :: "env \<Rightarrow> peripherals_register_offsets \<Rightarrow> u32 \<Rightarrow> io \<Rightarrow> io" where
  "set_flag e offset flag d =
     (let (v, d) = volatile_read e (peripherals_register offset) d
      in volatile_write (peripherals_register offset) (v OR flag) d)"

definition enable_peripheral_interrupts :: "env \<Rightarrow> io \<Rightarrow> io" where
  "enable_peripheral_interrupts e d =
     (let d = set_flag e enable_IRQs_1 TIMER1_ENABLE_FLAG d;
          d = set_flag e enable_IRQs_1 TIMER3_ENABLE_FLAG d
      in set_flag e enable_IRQs_2 UART_ENABLE_FLAG d)"

definition module_color :: "u8 list \<Rightarrow> (k_hsl_color \<times> k_rgb_color) option" where
  "module_color name = do {
     hue_hash \<leftarrow> clamped_hash name HUE_SEED;
     saturation_hash \<leftarrow> clamped_hash name SATURATION_SEED;
     lightness_hash \<leftarrow> clamped_hash name LIGHTNESS_SEED;
     h \<leftarrow> k_project_long_onto_range hue_hash 0 359;
     s \<leftarrow> k_project_long_onto_range saturation_hash 70 90;
     l \<leftarrow> k_project_long_onto_range lightness_hash 50 80;
     let hsl = \<lparr>hue = word_of_int h, saturation = word_of_int s, lightness = word_of_int l\<rparr>;
     rgb \<leftarrow> k_hsl_to_rgb hsl;
     Some (hsl, rgb)
   }"

text \<open>The colour the preview shows for a label is the one of its messages.\<close>

lemma preview_color:
  assumes "\<not> initialised_module_color st"
  shows "INITIALISE_MODULE_COLOR_ONCE m st =
    map_option (\<lambda>(hsl, rgb). st\<lparr>label_color := rgb, initialised_module_color := True\<rparr>) (module_color (LOG_LABEL m))"
  using assms by (simp add: INITIALISE_MODULE_COLOR_ONCE_def module_color_def Let_def map_option_bind comp_def)

definition modules :: "u8 list list" where
  "modules = map bytes [''Unknown'', ''Interrupt'', ''Scheduler'', ''Kernel Start'', ''Color'',
     ''Intrusive List'', ''Ringbuffer'', ''Timing'', ''Userthread'']"

text \<open>The bytes 194, 176 are the degree sign in UTF-8, 27 is the escape character.\<close>

definition preview_module :: "nat \<Rightarrow> u8 list \<Rightarrow> u8 list option" where
  "preview_module i out = do {
     let name = modules ! i;
     (hsl, rgb) \<leftarrow> module_color name;
     a \<leftarrow> print (bytes ''hsl(%3u'' @ [194, 176] @ bytes '', %3u%%, %3u%%) -> '' @ [27] @
            bytes ''[38;2;%u;%u;%um%s'' @ [27] @ bytes ''[0m'' @ [10])
          [Number (ucast (hue hsl)), Number (ucast (saturation hsl)), Number (ucast (lightness hsl)),
           Number (ucast (red rgb)), Number (ucast (green rgb)), Number (ucast (blue rgb)), String name];
     Some (out @ a)
   }"

definition preview_module_colors :: "u8 list option" where
  "preview_module_colors = do {
     a \<leftarrow> print (bytes ''Previewing Module Colors (WIP)'' @ [10]) [];
     out \<leftarrow> for_upto 0 (length modules) preview_module a;
     b \<leftarrow> print [10] [];
     Some (out @ b)
   }"

definition print_menu :: "u8 list option" where
  "print_menu = print (bytes ''Willkommen in unserem Betriebssystem!'' @ [10] @
     bytes ''Um Prozesse und Threads zu testen, gebe Buchstaben ein.'' @ [10, 10]) []"

text \<open>\<open>log_colored_output\<close> is the preprocessor switch \<^verbatim>\<open>LOG_COLORED_OUTPUT\<close>.\<close>

definition start_kernel ::
  "bool \<Rightarrow> env \<Rightarrow> u8 list \<Rightarrow> mmu_state \<Rightarrow> (u32 \<Rightarrow> u8) \<Rightarrow> registers \<Rightarrow> cpu \<Rightarrow> io \<Rightarrow> (mmu_state \<times> kernel) option" where
  "start_kernel log_colored_output e buffer mmu m f c d = do {
     (uart, d) \<leftarrow> pl001_setup e buffer d;
     mmu \<leftarrow> mmu_configure e mmu;
     s \<leftarrow> scheduler_initialise e (boot_kernel (mmu_l1_table mmu) m f c d uart);
     colors \<leftarrow> (if log_colored_output then preview_module_colors else Some []);
     d \<leftarrow> send_all e colors (io_regs s);
     menu \<leftarrow> print_menu;
     d \<leftarrow> send_all e menu d;
     let d = enable_peripheral_interrupts e d;
     Some (mmu, s\<lparr>io_regs := systimer_reset e d\<rparr>)
   }"

section \<open>The start establishes the invariant\<close>

lemma start_kernel_ok:
  assumes "start_kernel col e buffer mmu m f c d = Some (mmu', s)"
    and "l2_stack_tables_address e mod KiB = 0" "length buffer = UART_INPUT_BUFFER_SIZE"
  shows "scheduler_ok e s (spawn 0 0 boot_lists)" "rb_valid (cache s)" "cpu_regs s = c" "rb_contents (cache s) = []"
proof -
  obtain uart d1 where u: "pl001_setup e buffer d = Some (uart, d1)" "rb_valid uart" "rb_contents uart = []"
    using pl001_setup_spec [OF assms(3)] by blast
  obtain mmu1 s1 d2 where m: "mmu_configure e mmu = Some mmu1"
      "scheduler_initialise e (boot_kernel (mmu_l1_table mmu1) m f c d1 uart) = Some s1"
      "s = s1\<lparr>io_regs := d2\<rparr>"
    using assms(1) u(1) by (auto simp: start_kernel_def Option.bind_eq_Some_conv Let_def)
  obtain s2 where s2: "scheduler_initialise e (boot_kernel (mmu_l1_table mmu1) m f c d1 uart) = Some s2"
      "scheduler_ok e s2 (spawn 0 0 boot_lists)" "cache s2 = uart" "cpu_regs s2 = c"
    by (rule initialise_ok [OF assms(2)])
  then show "scheduler_ok e s (spawn 0 0 boot_lists)" "rb_valid (cache s)" "cpu_regs s = c"
      "rb_contents (cache s) = []"
    using m(2,3) u(2,3) by simp_all
qed

section \<open>The start returns\<close>

text \<open>The serial port keeps getting ready: infinitely many reads of its flag register say so.\<close>

definition port_lives :: "env \<Rightarrow> bool" where
  "port_lives e \<longleftrightarrow> (\<forall>n. \<exists>i. volatile e (n + i) (pl001_register FR) AND TXFF = 0)"

lemma send_all_returns:
  assumes "port_lives e"
  shows "\<exists>d'. send_all e chs d = Some d'"
proof (induction chs arbitrary: d)
  case (Cons ch chs)
  obtain d1 where "pl001_send e ch d = Some d1"
    using assms pl001_send_iff [of e ch d] by (auto simp: port_lives_def)
  with Cons [of d1] show ?case by simp
qed simp

lemma print_menu_Some: "print_menu \<noteq> None"
  by code_simp

lemma start_kernel_returns:
  assumes "l2_stack_tables_address e mod KiB = 0" "length buffer = UART_INPUT_BUFFER_SIZE" "port_lives e"
  shows "\<exists>mmu' s. start_kernel False e buffer mmu m f c d = Some (mmu', s)"
proof -
  obtain uart d1 where u: "pl001_setup e buffer d = Some (uart, d1)"
    using pl001_setup_spec [OF assms(2)] by blast
  obtain mmu1 where m: "mmu_configure e mmu = Some mmu1" using mmu_configure_eq [OF assms(1)] by blast
  obtain s1 where s1: "scheduler_initialise e (boot_kernel (mmu_l1_table mmu1) m f c d1 uart) = Some s1"
    by (rule initialise_ok [OF assms(1)])
  obtain chs where menu: "print_menu = Some chs" using print_menu_Some by blast
  obtain d2 where d2: "send_all e chs (io_regs s1) = Some d2" using send_all_returns [OF assms(3)] by blast
  show ?thesis by (simp add: start_kernel_def u m s1 menu d2)
qed

end
