(* ===== verification/Kernel_Reach.thy ===== *)
theory Kernel_Reach
  imports Kernel_Run Start
begin

text \<open>
  The states the kernel can be in: the one \<open>start_kernel\<close> ends in, and from there one step for
  every interrupt or exception a handler returns from. Between two steps the interrupted code may
  change the registers and the memory (\<open>entered\<close>).
\<close>

section \<open>Steps\<close>

inductive kernel_step :: "env \<Rightarrow> kernel \<Rightarrow> kernel \<Rightarrow> bool" for e where
  step_irq: "entered s s1 \<Longrightarrow> irq_interrupt_handler e s1 = Some s2 \<Longrightarrow> kernel_step e s s2"
| step_software: "entered s s1 \<Longrightarrow> software_interrupt_handler e st s1 = Some s2 \<Longrightarrow> kernel_step e s s2"
| step_undefined: "entered s s1 \<Longrightarrow> undefined_instruction_interrupt_handler e st s1 = Some s2 \<Longrightarrow> kernel_step e s s2"
| step_prefetch: "entered s s1 \<Longrightarrow> prefetch_abort_interrupt_handler e st s1 = Some s2 \<Longrightarrow> kernel_step e s s2"
| step_data: "entered s s1 \<Longrightarrow> data_abort_interrupt_handler e st s1 = Some s2 \<Longrightarrow> kernel_step e s s2"
| step_reset: "entered s s1 \<Longrightarrow> reset_interrupt_handler e st s1 = Some s2 \<Longrightarrow> kernel_step e s s2"

inductive_cases kernel_stepE: "kernel_step e s s'"

inductive reachable :: "env \<Rightarrow> kernel \<Rightarrow> bool" for e where
  reachable_start: "length buffer = UART_INPUT_BUFFER_SIZE \<Longrightarrow>
    start_kernel col e buffer mmu m f c d = Some (mmu', s) \<Longrightarrow> reachable e s"
| reachable_step: "reachable e s \<Longrightarrow> kernel_step e s s' \<Longrightarrow> reachable e s'"

inductive_simps reachable_iff: "reachable e s"

section \<open>The invariant\<close>

definition resting_ok :: "env \<Rightarrow> kernel \<Rightarrow> bool" where
  "resting_ok e s \<longleftrightarrow> rb_valid (cache s) \<and> (\<exists>A. scheduler_ok e s A)"

lemma kernel_ok_resting: "kernel_ok e s \<Longrightarrow> resting_ok e s"
  by (auto simp: kernel_ok_def resting_ok_def)

lemma entered_kernel_ok: "resting_ok e s \<Longrightarrow> entered s s' \<Longrightarrow> kernel_ok e s'"
  by (metis resting_ok_def kernel_ok_def entered_ok(1,2) entered_mode mode_ok_iff)

lemma kernel_step_ok:
  assumes "kernel_step e s s'" "resting_ok e s"
  shows "kernel_ok e s'"
  using assms(1)
  by (cases rule: kernel_step.cases)
    (blast intro: irq_kernel_ok software_kernel_ok fault_kernel_ok entered_kernel_ok [OF assms(2)])+

lemma reachable_resting:
  assumes "reachable e s" "l2_stack_tables_address e mod KiB = 0"
  shows "resting_ok e s"
  using assms(1)
proof (induction rule: reachable.induct)
  case (reachable_start buffer col mmu m f c d mmu' s)
  from start_kernel_ok [OF reachable_start(2) assms(2) reachable_start(1)] show ?case
    unfolding resting_ok_def by blast
next
  case (reachable_step s s')
  from kernel_step_ok [OF reachable_step(2,3)] show ?case by (rule kernel_ok_resting)
qed

text \<open>The mode is the one of the thread that runs, after every step.\<close>

lemma kernel_step_mode:
  assumes "reachable e s" "kernel_step e s s'" "l2_stack_tables_address e mod KiB = 0"
  shows "get_spsr s' AND psr_mode = psr_mode_user \<longleftrightarrow> user_thread_runs s'"
  using kernel_step_ok [OF assms(2) reachable_resting [OF assms(1,3)]] mode_ok_iff
  unfolding kernel_ok_def by blast

end
