(* ===== verification/Example.thy ===== *)
theory Example
  imports Kernel_Reach
begin

text \<open>
  A concrete machine on which the theorems are exercised: the timer interrupt of the scheduler is
  always pending, the serial port always ready, the counter stands still and addresses are
  translated to themselves. \<open>started_kernel\<close> is its kernel after the start, and
  \<open>running_kernel\<close> after the first interrupt, with the first thread running.
\<close>

definition machine :: env where
  "machine = \<lparr>volatile = (\<lambda>n a. if a = systimer_register CS then M1 else 0), translate = (\<lambda>l1 a. a),
     user_main = 0x400000, sys_exit_thread = 0x400100, halt_cpu = 0x100000,
     l1_table_address = 0x304000, l2_stack_tables_address = 0x310000\<rparr>"

definition uart_memory :: "u8 list" where
  "uart_memory = replicate UART_INPUT_BUFFER_SIZE 0"

definition blank_mmu :: mmu_state where
  "blank_mmu = \<lparr>mmu_l1_table = (\<lambda>_. 0), mmu_l2_stack_tables = (\<lambda>_ _. 0),
     cp15_regs = \<lparr>TTBR0 = 0, DACR = 0, TTBCR = 0, SCTLR = 0\<rparr>\<rparr>"

definition system_mode :: cpu where
  "system_mode = \<lparr>spsr = psr_mode_system, sp_usr = 0, lr_usr = 0\<rparr>"

definition started_kernel :: kernel where
  "started_kernel = snd (the (start_kernel False machine uart_memory blank_mmu (\<lambda>_. 0) zero_registers system_mode
     \<lparr>reads = 0, writes = []\<rparr>))"

definition running_kernel :: kernel where
  "running_kernel = the (irq_interrupt_handler machine started_kernel)"

lemma machine_aligned: "l2_stack_tables_address machine mod KiB = 0"
  by (simp add: machine_def KiB_def)

lemma uart_memory_length: "length uart_memory = UART_INPUT_BUFFER_SIZE"
  by (simp add: uart_memory_def)

lemma machine_port: "port_lives machine"
  by (simp add: port_lives_def machine_def systimer_register_def SYSTIMER_BASE_def pl001_register_def UART_BASE_def)

lemma started_kernel_eq:
  obtains mmu where "start_kernel False machine uart_memory blank_mmu (\<lambda>_. 0) zero_registers system_mode
    \<lparr>reads = 0, writes = []\<rparr> = Some (mmu, started_kernel)"
  using start_kernel_returns [OF machine_aligned uart_memory_length machine_port]
  unfolding started_kernel_def by (metis option.sel snd_conv)

lemma started_kernel_ok:
  "reachable machine started_kernel" "scheduler_ok machine started_kernel (spawn 0 0 boot_lists)"
  "rb_valid (cache started_kernel)" "cpu_regs started_kernel = system_mode"
proof -
  obtain mmu where s: "start_kernel False machine uart_memory blank_mmu (\<lambda>_. 0) zero_registers system_mode
    \<lparr>reads = 0, writes = []\<rparr> = Some (mmu, started_kernel)" by (rule started_kernel_eq)
  show "reachable machine started_kernel"
    by (rule reachable_start [OF uart_memory_length s])
  show "scheduler_ok machine started_kernel (spawn 0 0 boot_lists)"
    "rb_valid (cache started_kernel)" "cpu_regs started_kernel = system_mode"
    using start_kernel_ok [OF s machine_aligned uart_memory_length] by simp_all
qed

lemma started_entered: "entered started_kernel started_kernel"
proof -
  have "\<not> user_thread_runs started_kernel"
    unfolding user_thread_runs_iff [OF started_kernel_ok(2)] by (simp add: spawn_def boot_lists_def)
  then show ?thesis
    unfolding entered_def
    by (intro exI [of _ "frame started_kernel"] exI [of _ system_mode] exI [of _ "mem started_kernel"])
      (simp add: started_kernel_ok(4) [symmetric], simp add: started_kernel_ok(4) system_mode_def psr_defs)
qed

definition running_lists :: sched where
  "running_lists = switch_lists (spawn 0 0 boot_lists)"

lemma running_lists_simps [simp]:
  "ready running_lists = []" "stalled running_lists = []" "waiting running_lists = []"
  "running running_lists = [0]" "finished running_lists = [1..<32]"
  "space running_lists = (\<lambda>_. [])(0 := [0])"
  by (simp_all add: running_lists_def switch_lists_def spawn_def boot_lists_def Let_def IDLE_THREAD_INDEX_def
      USER_THREAD_COUNT_def fun_eq_iff del: upt_rec_numeral)

lemma timer_pending:
  "stalltimer_pending machine d = (False, d\<lparr>reads := Suc (reads d)\<rparr>)"
  "systimer_pending machine d = (True, d\<lparr>reads := Suc (reads d)\<rparr>)"
  by (simp_all add: stalltimer_pending_def systimer_pending_def volatile_read_def machine_def M1_def M3_def)

lemma running_kernel_ok:
  "kernel_step machine started_kernel running_kernel" "scheduler_ok machine running_kernel running_lists"
  "mode_ok running_kernel running_lists" "rb_valid (cache running_kernel)"
proof -
  let ?A = "spawn 0 0 boot_lists"
  let ?d = "\<lambda>d. d\<lparr>reads := Suc (reads d)\<rparr>"
  let ?s0 = "started_kernel\<lparr>io_regs := ?d (io_regs started_kernel)\<rparr>"
  let ?s1 = "?s0\<lparr>io_regs := ?d (io_regs ?s0)\<rparr>"
  have ok: "scheduler_ok machine ?s1 ?A" "rb_valid (cache ?s1)" using started_kernel_ok by simp_all
  have "stall_sorted ?s1 ?A" by (simp add: stall_sorted_def spawn_def boot_lists_def)
  then obtain s3 where s3: "scheduler_round_robin machine normal ?s1 = Some s3"
      "scheduler_ok machine s3 (tick_lists ?A)" "cache s3 = cache ?s1"
    using normal_switch_ok [OF ok(1)] by metis
  have tick: "tick_lists ?A = running_lists"
    by (simp add: tick_lists_def running_lists_def spawn_def boot_lists_def)
  have "rb_valid (cache (reset_systimer machine s3))" "scheduler_ok machine (reset_systimer machine s3) running_lists"
    using s3 ok tick by simp_all
  from serve_uart_ok [OF this(2,1)] obtain s4 k where s4: "serve_uart machine (reset_systimer machine s3) = Some s4"
      "scheduler_ok machine s4 (running_lists\<lparr>waiting := drop k (waiting running_lists),
         ready := ready running_lists @ take k (waiting running_lists)\<rparr>)"
    by blast
  have "running_lists\<lparr>waiting := drop k (waiting running_lists),
      ready := ready running_lists @ take k (waiting running_lists)\<rparr> = running_lists" by simp
  with s4(2) have ok4: "scheduler_ok machine s4 running_lists" by (simp only:)
  have irq: "irq_interrupt_handler machine started_kernel = Some s4"
    using s3(1) s4(1) by (simp add: irq_unfold timer_pending)
  then have s: "running_kernel = s4" by (simp add: running_kernel_def)
  show step: "kernel_step machine started_kernel running_kernel"
    unfolding s by (rule step_irq [OF started_entered irq])
  show ok: "scheduler_ok machine running_kernel running_lists" unfolding s by (rule ok4)
  have "resting_ok machine started_kernel" using started_kernel_ok by (auto simp: resting_ok_def)
  from kernel_step_ok [OF step this] show "rb_valid (cache running_kernel)" by (simp add: kernel_ok_def)
  from kernel_step_mode [OF started_kernel_ok(1) step machine_aligned] show "mode_ok running_kernel running_lists"
    by (simp add: mode_ok_iff [OF ok])
qed

lemma running_reachable: "reachable machine running_kernel"
  by (rule reachable_step [OF started_kernel_ok(1) running_kernel_ok(1)])

lemma running_free_slot:
  obtains i where "i < THREADS_PER_ADDRESS_SPACE"
    "\<not> slots_used (running_kernel\<lparr>frame := f\<rparr>) (pid (blocks (running_kernel\<lparr>frame := f\<rparr>) 0)) i"
    "\<forall>j < i. slots_used (running_kernel\<lparr>frame := f\<rparr>) (pid (blocks (running_kernel\<lparr>frame := f\<rparr>) 0)) j"
proof -
  let ?p = "pid (blocks running_kernel 0)"
  have own: "owned running_kernel running_lists" by (rule scheduler_okD(4) [OF running_kernel_ok(2)])
  have live: "live running_lists = {0}" by (auto simp: live_def USER_THREAD_COUNT_def)
  have "\<exists>i. i < THREADS_PER_ADDRESS_SPACE \<and> \<not> slots_used running_kernel ?p i"
  proof (rule ccontr)
    assume n: "\<not> ?thesis"
    have "?p < ADDRESS_SPACE_COUNT" using own live by (simp add: owned_def)
    then have "slots_used running_kernel ?p i \<longleftrightarrow> pid_slot (blocks running_kernel 0) = i" if "i < 4" for i
      using own live that by (simp add: owned_def THREADS_PER_ADDRESS_SPACE_def)
    from this [of 0] this [of 1] n show False by (auto simp: THREADS_PER_ADDRESS_SPACE_def)
  qed
  then obtain i where i: "i < THREADS_PER_ADDRESS_SPACE \<and> \<not> slots_used running_kernel ?p i" by blast
  define k where "k = (LEAST i. i < THREADS_PER_ADDRESS_SPACE \<and> \<not> slots_used running_kernel ?p i)"
  have k: "k < THREADS_PER_ADDRESS_SPACE \<and> \<not> slots_used running_kernel ?p k"
    unfolding k_def by (rule LeastI [of _ i]) (rule i)
  moreover have "\<forall>j < k. slots_used running_kernel ?p j"
    using k not_less_Least unfolding k_def by (metis (mono_tags, lifting) order.strict_trans)
  ultimately show thesis using that [of k] by simp
qed

section \<open>Several threads\<close>

text \<open>The first thread creates two processes (\<open>busy_kernel\<close>) and then goes to sleep for one second
  (\<open>sleeping_kernel\<close>).\<close>

definition call :: "u32 \<Rightarrow> u32 \<Rightarrow> kernel \<Rightarrow> kernel" where
  "call no r0 s = snd (the (dispatch_syscall machine no (s\<lparr>frame := zero_registers\<lparr>general := (\<lambda>_. 0)(0 := r0)\<rparr>\<rparr>)))"

definition busy_kernel :: kernel where
  "busy_kernel = call SYSCALL_CREATE_PROCESS_NO 0 (call SYSCALL_CREATE_PROCESS_NO 0 running_kernel)"

definition busy_lists :: sched where
  "busy_lists = spawn 2 2 (spawn 1 1 running_lists)"

definition sleeping_kernel :: kernel where
  "sleeping_kernel = call SYSCALL_STALL_THREAD_NO 1000 busy_kernel"

definition sleeping_lists :: sched where
  "sleeping_lists = busy_lists\<lparr>ready := [2], running := [1], stalled := [0]\<rparr>"

lemma busy_lists_simps [simp]:
  "ready busy_lists = [1, 2]" "stalled busy_lists = []" "waiting busy_lists = []" "running busy_lists = [0]"
  by (simp_all add: busy_lists_def spawn_def)

lemma sleeping_lists_simps [simp]:
  "ready sleeping_lists = [2]" "stalled sleeping_lists = [0]" "waiting sleeping_lists = []" "running sleeping_lists = [1]"
  by (simp_all add: sleeping_lists_def)

lemma create_call:
  assumes "scheduler_ok machine s A" "p < ADDRESS_SPACE_COUNT" "space A p = []" "\<forall>q < p. space A q \<noteq> []"
  shows "scheduler_ok machine (call SYSCALL_CREATE_PROCESS_NO 0 s) (spawn (hd (finished A)) p A) \<and>
    (\<forall>t. stall_until (blocks (call SYSCALL_CREATE_PROCESS_NO 0 s) t) = stall_until (blocks s t))"
proof -
  let ?s = "s\<lparr>frame := zero_registers\<lparr>general := (\<lambda>_. 0)(0 := 0)\<rparr>\<rparr>"
  have ok: "scheduler_ok machine ?s A" using assms(1) by simp
  obtain s' sz t where "dispatch_syscall machine SYSCALL_CREATE_PROCESS_NO ?s = Some (0, s')"
      "scheduler_ok machine s' (spawn t p A)" "t = hd (finished A)"
      "blocks s' = (blocks ?s)(t := started machine p 0 (general (frame ?s) 0) sz (blocks ?s t))"
    by (rule create_process_syscall_ok [OF ok _ _ assms(2-4)]) (auto simp: zero_registers_def)
  then show ?thesis by (simp add: call_def started_def Let_def)
qed

lemma busy_kernel_ok: "scheduler_ok machine busy_kernel busy_lists"
proof -
  have upt: "[1..<32] = 1 # 2 # [3..<32]" by (simp add: upt_conv_Cons del: upt_rec_numeral)
  have "finished (spawn 1 1 running_lists) = tl (finished running_lists)" by (simp add: spawn_def)
  then have h1: "hd (finished running_lists) = 1" and f1: "finished (spawn 1 1 running_lists) = 2 # [3..<32]"
    unfolding running_lists_simps upt by (simp_all only: list.sel)
  have 1: "scheduler_ok machine (call SYSCALL_CREATE_PROCESS_NO 0 running_kernel) (spawn 1 1 running_lists)"
    using create_call [OF running_kernel_ok(2), of 1] by (simp add: ADDRESS_SPACE_COUNT_def h1)
  have sp: "\<forall>q < 2. space (spawn 1 1 running_lists) q \<noteq> []" "space (spawn 1 1 running_lists) 2 = []"
    by (auto simp: spawn_def less_2_cases_iff)
  have "hd (finished (spawn 1 1 running_lists)) = 2" unfolding f1 by simp
  with create_call [OF 1 _ sp(2,1)] show ?thesis
    unfolding busy_kernel_def busy_lists_def by (metis numeral_less_iff ADDRESS_SPACE_COUNT_def semiring_norm(76,78))
qed

lemma sleep_ticks: "ktiming_milliseconds_to_hertz 1000 0 = Some (1000000, 0)" "ktiming_milliseconds_to_hertz 1 0 = Some (1000, 0)"
  by code_simp+

lemma machine_counter: "volatile machine n (systimer_register CLO) = 0"
  by (simp add: machine_def systimer_register_def)

lemma sleeping_kernel_ok:
  "scheduler_ok machine sleeping_kernel sleeping_lists" "stall_until (blocks sleeping_kernel 0) = 1000000"
proof -
  let ?s = "busy_kernel\<lparr>frame := zero_registers\<lparr>general := (\<lambda>_. 0)(0 := 1000)\<rparr>\<rparr>"
  let ?B = "stall_lists 0 (\<lambda>x. stall_until (blocks ?s x)) 1000000 busy_lists"
  have ok: "scheduler_ok machine ?s busy_lists" using busy_kernel_ok by simp
  have B: "?B = sleeping_lists"
    by (simp add: stall_lists_def yield_lists_def insert_sorted_list_def sleeping_lists_def next_thread_def)
  obtain s' k where s': "dispatch_syscall machine SYSCALL_STALL_THREAD_NO ?s = Some (0, s')"
      "scheduler_ok machine s' (wake k ?B)" "(\<forall>m::nat. TOCTOU_PAD < (1000000 :: u32)) \<Longrightarrow> k = 0"
      "stall_until (blocks s' 0) = 1000000"
    by (rule stall_thread_ok [OF ok, of 0 1000000 0])
      (auto simp: stall_sorted_def IDLE_THREAD_INDEX_def USER_THREAD_COUNT_def sleep_ticks machine_counter)
  have "sleeping_kernel = s'" using s'(1) by (simp add: sleeping_kernel_def call_def)
  moreover have "k = 0" by (rule s'(3)) (simp add: TOCTOU_PAD_def)
  ultimately show "scheduler_ok machine sleeping_kernel sleeping_lists" "stall_until (blocks sleeping_kernel 0) = 1000000"
    using s'(2,4) B by simp_all
qed

end
