(* ===== verification/Protection.thy ===== *)
theory Protection
  imports Mmu_L1
begin

text \<open>
  What the tables of \<^verbatim>\<open>kernel/mmu.c\<close> allow once they are built: which parts of the memory a
  user program can read, write and execute, where the stacks are, and what the constructor of
  sections makes of the permissions it is given.
\<close>

text \<open>Entries of the translation tables and the records of \<^verbatim>\<open>include/kernel/mmu.h\<close> are the same
  thing: reading the fields of a word and writing them back gives the word, for all four kinds of entries,
  and the fields of a written record are those of the record, so that the bit fields cover all 32 bits and
  do not overlap.\<close>

theorem entry_round_trips:
  "pack_l1_section (unpack_l1_section w) = w \<and> unpack_l1_section (pack_l1_section s) = s \<and>
   pack_l2_handle (unpack_l2_handle w) = w \<and> unpack_l2_handle (pack_l2_handle h) = h \<and>
   pack_l2_small_page (unpack_l2_small_page w) = w \<and> unpack_l2_small_page (pack_l2_small_page p) = p \<and>
   pack_l1_fault (unpack_l1_fault w) = w \<and> unpack_l1_fault (pack_l1_fault f) = f"
  by (intro conjI pack_unpack_l1_section unpack_pack_l1_section pack_unpack_l2_handle unpack_pack_l2_handle
      pack_unpack_l2_small_page unpack_pack_l2_small_page pack_unpack_l1_fault unpack_pack_l1_fault)

section \<open>The first level table\<close>

lemma l1_content_type:
  assumes "k < 1011"
  shows "l1_entry_get_type (l1_content e old k) = Some
    (if k = 0 \<or> 16 \<le> k \<and> k < 86 \<or> 128 \<le> k \<and> k < 1008 then fault
     else if 86 \<le> k \<and> k < 90 \<or> 122 \<le> k \<and> k < 128 then handle else section_type)"
  using assms by (simp add: l1_content_def type_of_fault type_of_handle section_at_type)

lemma l1_content_access:
  assumes "k < 1011" "l1_entry_get_type (l1_content e old k) = Some section_type"
  defines "s \<equiv> unpack_l1_section (l1_content e old k)"
  shows "user_read s \<longleftrightarrow> k = 4 \<or> k = 5 \<or> k = 6" "user_write s \<longleftrightarrow> k = 6" "user_exec s \<longleftrightarrow> k = 4"
    "kernel_exec s \<longleftrightarrow> k = 1" "kernel_write s \<longleftrightarrow> \<not> (k = 1 \<or> k = 2 \<or> k = 5 \<or> k = 15)"
  using assms(1,2) unfolding s_def
  by (auto simp: l1_content_def type_of_fault type_of_handle section_at_unpack access_defs split: if_splits)

text \<open>C26. The first level table after \<open>initialise_l1_table\<close>, for all addresses below the end of the
  devices: user programs can read exactly their code, their constants and their data, write only the
  data and execute only the code; the kernel executes only its own code and cannot write code or
  constants; there are no entries below the code, between the sections of the program and the stacks,
  and between the stacks and the devices, and the entries of the stacks lead to second level tables.\<close>

theorem initial_protection:
  assumes "l2_stack_tables_address e mod KiB = 0" "k < 1011"
  shows "\<exists>table. initialise_l1_table e old = Some table \<and>
    (l1_entry_get_type (table k) = Some fault \<longleftrightarrow> k = 0 \<or> k \<in> {16..<86} \<or> k \<in> {128..<1008}) \<and>
    (l1_entry_get_type (table k) = Some handle \<longleftrightarrow> k \<in> {86..<90} \<or> k \<in> {122..<128}) \<and>
    (l1_entry_get_type (table k) = Some section_type \<longrightarrow>
      (let s = unpack_l1_section (table k)
       in (user_read s \<longleftrightarrow> k \<in> {4, 5, 6}) \<and> (user_write s \<longleftrightarrow> k = 6) \<and> (user_exec s \<longleftrightarrow> k = 4) \<and>
          (kernel_exec s \<longleftrightarrow> k = 1) \<and> (kernel_write s \<longleftrightarrow> k \<notin> {1, 2, 5, 15})))"
proof (intro exI conjI impI)
  show "initialise_l1_table e old = Some (l1_content e old)" by (rule initialise_l1_table_eq [OF assms(1)])
  show "l1_entry_get_type (l1_content e old k) = Some fault \<longleftrightarrow> k = 0 \<or> k \<in> {16..<86} \<or> k \<in> {128..<1008}"
    "l1_entry_get_type (l1_content e old k) = Some handle \<longleftrightarrow> k \<in> {86..<90} \<or> k \<in> {122..<128}"
    using assms(2) by (auto simp: l1_content_type)
  assume "l1_entry_get_type (l1_content e old k) = Some section_type"
  from l1_content_access [OF assms(2) this] show "let s = unpack_l1_section (l1_content e old k)
       in (user_read s \<longleftrightarrow> k \<in> {4, 5, 6}) \<and> (user_write s \<longleftrightarrow> k = 6) \<and> (user_exec s \<longleftrightarrow> k = 4) \<and>
          (kernel_exec s \<longleftrightarrow> k = 1) \<and> (kernel_write s \<longleftrightarrow> k \<notin> {1, 2, 5, 15})"
    by (simp add: Let_def)
qed

definition plain_env :: env where
  "plain_env = \<lparr>volatile = (\<lambda>_ _. 0), translate = (\<lambda>_ a. a), user_main = 0x400000,
     sys_exit_thread = 0x400100, halt_cpu = 0x100200, l1_table_address = 0x310000,
     l2_stack_tables_address = 0x320000\<rparr>"

theorem initial_protection_witness:
  "\<exists>table. initialise_l1_table plain_env (\<lambda>_. 0) = Some table \<and> user_write (unpack_l1_section (table 6)) \<and>
    \<not> user_exec (unpack_l1_section (table 6))"
proof -
  have "l2_stack_tables_address plain_env mod KiB = 0" by (simp add: plain_env_def KiB_def)
  from initial_protection [OF this, of 6 "\<lambda>_. 0"] obtain table where
    t: "initialise_l1_table plain_env (\<lambda>_. 0) = Some table"
      "l1_entry_get_type (table 6) = Some section_type \<longrightarrow>
        user_write (unpack_l1_section (table 6)) \<and> \<not> user_exec (unpack_l1_section (table 6))"
    unfolding Let_def by auto
  have "table = l1_content plain_env (\<lambda>_. 0)"
    using t(1) initialise_l1_table_eq [of plain_env "\<lambda>_. 0"] by (simp add: plain_env_def KiB_def)
  then have "l1_entry_get_type (table 6) = Some section_type" by (simp add: l1_content_type)
  with t show ?thesis by auto
qed

section \<open>The stacks\<close>

lemma page_fields [simp]:
  "p_XN (user_page b) = 1" "p_AP2 (user_page b) = 0" "p_AP1_0 (user_page b) = 3"
  "p_base_address (user_page b) = ucast (b div (4 * KiB))"
  "p_XN (kernel_page b) = 1" "p_AP2 (kernel_page b) = 0" "p_AP1_0 (kernel_page b) = 1"
  "p_base_address (kernel_page b) = ucast (b div (4 * KiB))"
  by (simp_all add: user_page_def kernel_page_def)

text \<open>C27. The second level tables: the lowest page of every stack is a guard page, the others map the
  256 pages of the stack in order, without execution; both levels can write the stacks of the threads
  (tables 0 to 31), and only the kernel its own (32 to 37).\<close>

theorem stack_pages:
  assumes "i < STACK_COUNT" "j < L2_STACK_TABLE_SIZE"
  shows "\<exists>new. initialise_l2_stack_tables tables = Some new \<and>
    (if j = 0 then new i j = 0
     else let p = unpack_l2_small_page (new i j)
       in p_base_address p = ucast ((USER_STACK_BOTTOM_ADDRESS + of_nat i * STACK_SIZE + of_nat j * 4 * KiB) div (4 * KiB)) \<and>
          p_XN p = 1 \<and> p_AP2 p = 0 \<and> p_AP1_0 p = (if i < USER_STACK_COUNT then 3 else 1))"
proof (intro exI conjI)
  show "initialise_l2_stack_tables tables = Some (stack_tables tables)" by (rule initialise_l2_stack_tables_eq)
  have b: "KERNEL_STACK_BOTTOM_ADDRESS + of_nat (i - 32) * STACK_SIZE = USER_STACK_BOTTOM_ADDRESS + of_nat i * STACK_SIZE"
    if "32 \<le> i"
    using that by (simp add: memory_map_defs of_nat_diff algebra_simps)
  have c: "i < 38" "j < 256" using assms by (simp_all add: STACK_COUNT_def USER_STACK_COUNT_def KERNEL_STACK_COUNT_def L2_STACK_TABLE_SIZE_def)
  show "if j = 0 then stack_tables tables i j = 0
     else let p = unpack_l2_small_page (stack_tables tables i j)
       in p_base_address p = ucast ((USER_STACK_BOTTOM_ADDRESS + of_nat i * STACK_SIZE + of_nat j * 4 * KiB) div (4 * KiB)) \<and>
          p_XN p = 1 \<and> p_AP2 p = 0 \<and> p_AP1_0 p = (if i < USER_STACK_COUNT then 3 else 1)"
  proof (cases "i < 32")
    case True
    then show ?thesis
      using c by (simp add: stack_tables_def stack_table_def unpack_pack_l2_small_page USER_STACK_COUNT_def)
  next
    case False
    with b have "KERNEL_STACK_BOTTOM_ADDRESS + of_nat (i - 32) * STACK_SIZE = USER_STACK_BOTTOM_ADDRESS + of_nat i * STACK_SIZE"
      by simp
    with False show ?thesis
      using c by (simp add: stack_tables_def stack_table_def unpack_pack_l2_small_page USER_STACK_COUNT_def)
  qed
qed

theorem stack_pages_witness:
  "\<exists>new. initialise_l2_stack_tables (\<lambda>_ _. 7) = Some new \<and> new 3 0 = 0 \<and> p_AP1_0 (unpack_l2_small_page (new 35 9)) = 1"
proof -
  have "3 < STACK_COUNT" "35 < STACK_COUNT" "0 < L2_STACK_TABLE_SIZE" "9 < L2_STACK_TABLE_SIZE"
    by (simp_all add: STACK_COUNT_def USER_STACK_COUNT_def KERNEL_STACK_COUNT_def L2_STACK_TABLE_SIZE_def)
  from stack_pages [OF this(1,3), of "\<lambda>_ _. 7"] stack_pages [OF this(2,4), of "\<lambda>_ _. 7"] show ?thesis
    by (auto simp: Let_def USER_STACK_COUNT_def)
qed

section \<open>Sections from permissions\<close>

text \<open>C28. A section that \<open>get_l1_section\<close> makes grants exactly what was asked for, with reading added
  to executing, for every combination it accepts - except that it also lets user programs execute
  what they can read when only the kernel was to execute it.\<close>

theorem section_grants:
  assumes "get_l1_section base kp up = Some s" "kp < 8" "up < 8"
  shows "grants kp up s \<and> s_base_address s = ucast (base div MiB) \<and> base mod MiB = 0"
proof (intro conjI)
  show "grants kp up s" by (rule get_l1_section_grants [OF assms(2,3,1)])
  show "s_base_address s = ucast (base div MiB)" "base mod MiB = 0"
    using assms(1)
    by (auto simp: get_l1_section_def l1_section_set_base_address_def Let_def Option.bind_eq_Some_conv split: if_splits)
qed

theorem section_grants_witness:
  "user_exec (the (get_l1_section 0 (KREAD OR KEXEC) UREAD)) \<and> UREAD AND UEXEC = 0"
proof -
  have s: "get_l1_section 0 (KREAD OR KEXEC) UREAD = Some (the (get_l1_section 0 (KREAD OR KEXEC) UREAD))"
    by code_simp
  have "grants (KREAD OR KEXEC) UREAD (the (get_l1_section 0 (KREAD OR KEXEC) UREAD))"
    using section_grants [OF s] by (simp add: permission_defs)
  then show ?thesis by (simp add: grants_def permission_defs)
qed

end
