(* ===== verification/Fraction_Arithmetic.thy ===== *)
theory Fraction_Arithmetic
  imports Ktiming
begin

text \<open>
  What the fractions of \<^verbatim>\<open>kernel/lib/kfraction.c\<close> compute as long as the products fit into a
  \<^verbatim>\<open>long\<close>, that multiplication always ends, and for which times the conversions of
  \<^verbatim>\<open>kernel/lib/ktiming.c\<close> are exact.
\<close>

section \<open>Fractions and their values\<close>

definition fits :: "int \<Rightarrow> bool" where
  "fits x \<longleftrightarrow> \<bar>x\<bar> \<le> LONG_MAX"

definition proper :: "k_fraction \<Rightarrow> bool" where
  "proper f \<longleftrightarrow> 0 < denominator f \<and> fits (denominator f) \<and> fits (numerator f)"

definition val :: "k_fraction \<Rightarrow> rat" where
  "val f = of_int (numerator f) / of_int (denominator f)"

lemma fits_in_long [simp]: "fits x \<Longrightarrow> in_long x" "fits x \<Longrightarrow> x \<noteq> LONG_MIN"
  by (auto simp: fits_def in_long_def)

lemma fits_le: "fits y \<Longrightarrow> \<bar>x\<bar> \<le> \<bar>y\<bar> \<Longrightarrow> fits x"
  by (simp add: fits_def)

lemma sdiv_dvd:
  assumes "g dvd a" "g \<noteq> 0"
  shows "a sdiv g = a div (g :: int)"
proof -
  from assms(1) obtain c where a: "a = g * c" ..
  have "a sdiv g = sgn a * sgn g * \<bar>c\<bar>"
    using assms(2) by (simp add: a signed_divide_int_def abs_mult)
  also have "\<dots> = sgn c * \<bar>c\<bar>" using assms(2) by (simp add: a sgn_mult flip: mult.assoc)
  finally show ?thesis using assms(2) by (simp add: a sgn_mult_abs)
qed

lemma abs_div_le: "g dvd a \<Longrightarrow> g \<noteq> 0 \<Longrightarrow> \<bar>a div g\<bar> \<le> \<bar>a :: int\<bar>"
  by (auto elim!: dvdE simp: abs_mult mult_le_cancel_right1)

lemma compact_eq:
  assumes "fits (numerator f)" "fits (denominator f)" "denominator f \<noteq> 0"
  defines "g \<equiv> gcd (numerator f) (denominator f)"
  shows "k_fraction_compact f = Some (f\<lparr>numerator := numerator f div g, denominator := denominator f div g\<rparr>)"
proof -
  have g: "g dvd numerator f" "g dvd denominator f" "g \<noteq> 0" using assms(3) by (simp_all add: g_def)
  have "fits (numerator f div g)" "fits (denominator f div g)"
    using fits_le [OF assms(1) abs_div_le [OF g(1,3)]] fits_le [OF assms(2) abs_div_le [OF g(2,3)]] .
  moreover have "k_gcd (numerator f) (denominator f) = Some g"
    unfolding g_def using assms(1,2) by (simp add: k_gcd_eq)
  ultimately show ?thesis
    using g by (simp add: k_fraction_compact_def long_div_def sdiv_dvd)
qed

lemma create_eq:
  assumes "fits a" "fits b" "b \<noteq> 0"
  shows "k_fraction_create a b = Some \<lparr>numerator = a div gcd a b, denominator = b div gcd a b\<rparr>"
  using assms by (simp add: k_fraction_create_def compact_eq)

lemma div_gcd_value:
  assumes "(b :: int) \<noteq> 0"
  shows "(of_int (a div gcd a b) / of_int (b div gcd a b) :: rat) = of_int a / of_int b"
proof -
  have "gcd a b dvd a" "gcd a b dvd b" "gcd a b \<noteq> 0" using assms by simp_all
  then show ?thesis
    using assms by (simp add: of_int_div divide_simps)
qed

lemma div_gcd_pos: "0 < (b :: int) \<Longrightarrow> 0 < b div gcd a b"
  by (simp add: pos_imp_zdiv_pos_iff gcd_le2_int)

text \<open>A fraction made from two numbers has their quotient as its value and is in lowest terms.\<close>

lemma fraction_create:
  assumes "fits a" "fits b" "b \<noteq> 0"
  shows "\<exists>f. k_fraction_create a b = Some f \<and> val f = of_int a / of_int b \<and>
    coprime (numerator f) (denominator f) \<and> \<bar>numerator f\<bar> \<le> \<bar>a\<bar> \<and> \<bar>denominator f\<bar> \<le> \<bar>b\<bar> \<and> denominator f \<noteq> 0"
proof (intro exI conjI)
  show "k_fraction_create a b = Some \<lparr>numerator = a div gcd a b, denominator = b div gcd a b\<rparr>"
    by (rule create_eq [OF assms])
  show "val \<lparr>numerator = a div gcd a b, denominator = b div gcd a b\<rparr> = of_int a / of_int b"
    using div_gcd_value [OF assms(3)] by (simp add: val_def)
qed (use assms(3) in \<open>simp_all add: abs_div_le div_gcd_coprime dvd_div_eq_0_iff\<close>)

section \<open>Exact operations\<close>

text \<open>When all the cross products fit, nothing has to be rounded.\<close>

definition comparable :: "k_fraction \<Rightarrow> k_fraction \<Rightarrow> bool" where
  "comparable a b \<longleftrightarrow> proper a \<and> proper b \<and> fits (numerator a * denominator b) \<and>
     fits (numerator b * denominator a) \<and> fits (denominator a * denominator b)"

lemma comparable_sym: "comparable a b \<Longrightarrow> comparable b a"
  by (simp add: comparable_def mult.commute)

definition shared_denominator :: "k_fraction \<Rightarrow> k_fraction \<Rightarrow> int" where
  "shared_denominator a b = lcm (denominator a) (denominator b)"

lemma common_sym: "shared_denominator a b = shared_denominator b a"
  by (simp add: shared_denominator_def lcm.commute)

lemma common_quotient:
  assumes "0 < da" "0 < (db :: int)"
  shows "0 < lcm da db" "0 < lcm da db div da" "lcm da db div da \<le> db" "lcm da db div da * da = lcm da db"
proof -
  show pos: "0 < lcm da db" using assms by (simp add: lcm_pos_int)
  show q: "lcm da db div da * da = lcm da db" by simp
  then show "0 < lcm da db div da" using pos assms(1) by (metis zero_less_mult_pos2)
  have "lcm da db dvd da * db" by (simp add: lcm_least)
  then have "lcm da db \<le> da * db" using assms by (intro zdvd_imp_le) simp_all
  then have "lcm da db div da * da \<le> db * da" using q by (simp add: mult.commute)
  then show "lcm da db div da \<le> db" using assms(1) by (metis mult_le_cancel_right_pos)
qed

lemma scaled_fits:
  assumes "comparable a b"
  shows "fits (numerator a * (shared_denominator a b div denominator a))" "fits (shared_denominator a b)"
    "k_lcm (denominator a) (denominator b) = Some (shared_denominator a b)"
    "long_div (shared_denominator a b) (denominator a) = Some (shared_denominator a b div denominator a)"
    "k_fraction_scaled_numerator a (shared_denominator a b) = Some (numerator a * (shared_denominator a b div denominator a))"
proof -
  let ?q = "shared_denominator a b div denominator a"
  have d: "0 < denominator a" "0 < denominator b" using assms by (simp_all add: comparable_def proper_def)
  note q = common_quotient [OF d, folded shared_denominator_def]
  have "\<bar>numerator a * ?q\<bar> \<le> \<bar>numerator a * denominator b\<bar>"
    using q(2,3) d by (simp add: abs_mult mult_left_mono)
  then show n: "fits (numerator a * ?q)" using assms fits_le unfolding comparable_def by blast
  have "\<bar>shared_denominator a b\<bar> \<le> \<bar>denominator a * denominator b\<bar>"
    using q d by (metis abs_of_pos mult.commute mult_pos_pos mult_right_mono order_less_imp_le)
  then show f: "fits (shared_denominator a b)" using assms fits_le unfolding comparable_def by blast
  then show "k_lcm (denominator a) (denominator b) = Some (shared_denominator a b)"
    using assms d by (simp add: k_lcm_eq comparable_def proper_def shared_denominator_def)
  have "shared_denominator a b sdiv denominator a = ?q" using q(1) d by (intro sdiv_nonneg) simp_all
  moreover have "\<bar>?q\<bar> \<le> \<bar>denominator b\<bar>" using q(2,3) by simp
  then have "fits ?q" using assms fits_le unfolding comparable_def proper_def by blast
  ultimately show l: "long_div (shared_denominator a b) (denominator a) = Some ?q"
    using d by (simp add: long_div_def)
  show "k_fraction_scaled_numerator a (shared_denominator a b) = Some (numerator a * ?q)"
    using l n by (simp add: k_fraction_scaled_numerator_def)
qed

lemma val_scaled:
  assumes "comparable a b"
  shows "val a = of_int (numerator a * (shared_denominator a b div denominator a)) / of_int (shared_denominator a b)"
proof -
  have d: "0 < denominator a" "0 < denominator b" using assms by (simp_all add: comparable_def proper_def)
  note q = common_quotient [OF d, folded shared_denominator_def]
  then have "of_int (shared_denominator a b) = (of_int (shared_denominator a b div denominator a) * of_int (denominator a) :: rat)"
    by (metis of_int_mult)
  then show ?thesis using q(2) d by (simp add: val_def field_simps)
qed

text \<open>Comparison: two fractions with positive denominators whose cross products fit into a \<^verbatim>\<open>long\<close>
  are compared by their values, without overflow.\<close>

theorem fraction_order:
  assumes "comparable a b"
  shows "k_fraction_lt a b = Some (val a < val b) \<and> k_fraction_eq a b = Some (val a = val b)"
proof -
  note A = scaled_fits [OF assms] and B = scaled_fits [OF comparable_sym [OF assms], unfolded common_sym [of b a]]
  have pos: "0 < shared_denominator a b"
    using assms common_quotient(1) by (simp add: comparable_def proper_def shared_denominator_def)
  have "val b = of_int (numerator b * (shared_denominator a b div denominator b)) / of_int (shared_denominator a b)"
    using val_scaled [OF comparable_sym [OF assms]] by (simp add: common_sym [of b a])
  with val_scaled [OF assms] pos
  have "val a < val b \<longleftrightarrow> numerator a * (shared_denominator a b div denominator a) < numerator b * (shared_denominator a b div denominator b)"
    "val a = val b \<longleftrightarrow> numerator a * (shared_denominator a b div denominator a) = numerator b * (shared_denominator a b div denominator b)"
    by (simp_all add: divide_strict_right_mono divide_less_cancel of_int_less_iff del: of_int_mult)
  then show ?thesis
    by (simp add: k_fraction_lt_def k_fraction_eq_def A B)
qed

theorem fraction_order_witness:
  "k_fraction_lt \<lparr>numerator = 1, denominator = 3\<rparr> \<lparr>numerator = 1, denominator = 2\<rparr> =
      Some (val \<lparr>numerator = 1, denominator = 3\<rparr> < val \<lparr>numerator = 1, denominator = 2\<rparr>) \<and>
    k_fraction_eq \<lparr>numerator = 1, denominator = 3\<rparr> \<lparr>numerator = 1, denominator = 2\<rparr> =
      Some (val \<lparr>numerator = 1, denominator = 3\<rparr> = val \<lparr>numerator = 1, denominator = 2\<rparr>)"
  by (rule fraction_order) (simp add: comparable_def proper_def fits_def)

lemma scale_eq:
  assumes "comparable a b"
  shows "k_fraction_scalar_multiply a (shared_denominator a b div denominator a) =
    (0, \<lparr>numerator = numerator a * (shared_denominator a b div denominator a), denominator = shared_denominator a b, \<dots> = k_fraction.more a\<rparr>)"
proof -
  have d: "0 < denominator a" "0 < denominator b" using assms by (simp_all add: comparable_def proper_def)
  note q = common_quotient [OF d, folded shared_denominator_def]
  show ?thesis
    using q(2,4) scaled_fits(1,2) [OF assms]
    by (simp add: k_fraction_scalar_multiply_def mult.commute [of "denominator a"])
qed

lemma add_loop_eq:
  assumes "comparable a b" "fits (numerator a * denominator b + numerator b * denominator a)"
  shows "\<exists>n d. k_fraction_add_loop a b = Some (n, d) \<and> fits n \<and> fits d \<and> d \<noteq> 0 \<and>
    (of_int n / of_int d :: rat) = val a + val b"
proof -
  let ?qa = "shared_denominator a b div denominator a" and ?qb = "shared_denominator a b div denominator b"
  let ?a = "\<lparr>numerator = numerator a * ?qa, denominator = shared_denominator a b\<rparr>"
    and ?b = "\<lparr>numerator = numerator b * ?qb, denominator = shared_denominator a b\<rparr>"
  have d: "0 < denominator a" "0 < denominator b" using assms by (simp_all add: comparable_def proper_def)
  note A = scaled_fits [OF assms(1)] and B = scaled_fits [OF comparable_sym [OF assms(1)], unfolded common_sym [of b a]]
  note qa = common_quotient [OF d, folded shared_denominator_def]
  have vb: "val b = of_int (numerator b * ?qb) / of_int (shared_denominator a b)"
    using val_scaled [OF comparable_sym [OF assms(1)]] by (simp add: common_sym [of b a])
  \<comment> \<open>The sum over the product of the denominators is a multiple of the one over the common denominator.\<close>
  obtain c where c: "denominator a * denominator b = shared_denominator a b * c" and "0 < c"
  proof -
    have "shared_denominator a b dvd denominator a * denominator b" by (simp add: shared_denominator_def lcm_least)
    then obtain c where "denominator a * denominator b = shared_denominator a b * c" ..
    moreover from this have "0 < c" using d qa(1) by (metis mult_pos_pos zero_less_mult_pos)
    ultimately show thesis using that by blast
  qed
  have "denominator b = ?qa * c" "denominator a = ?qb * c"
  proof -
    have "denominator a * denominator b = denominator a * (?qa * c)"
      using c qa(4) by (metis mult.assoc mult.commute)
    then show "denominator b = ?qa * c" using d by simp
    have "?qb * denominator b = shared_denominator a b" by (simp add: shared_denominator_def)
    then have "denominator b * denominator a = denominator b * (?qb * c)"
      using c by (metis mult.assoc mult.commute)
    then show "denominator a = ?qb * c" using d by simp
  qed
  then have "numerator a * denominator b + numerator b * denominator a = (numerator a * ?qa + numerator b * ?qb) * c"
    by (metis distrib_right mult.assoc)
  then have "\<bar>numerator a * ?qa + numerator b * ?qb\<bar> \<le> \<bar>numerator a * denominator b + numerator b * denominator a\<bar>"
    using \<open>0 < c\<close> by (simp add: abs_mult mult_le_cancel_left1)
  then have s: "fits (numerator a * ?qa + numerator b * ?qb)" using fits_le [OF assms(2)] by blast
  have v: "(of_int (numerator a * ?qa + numerator b * ?qb) / of_int (shared_denominator a b) :: rat) = val a + val b"
    unfolding val_scaled [OF assms(1)] vb of_int_add by (simp add: add_divide_distrib)
  have stop: "k_fraction_add_loop ?a ?b = Some (numerator a * ?qa + numerator b * ?qb, shared_denominator a b)"
    using s by (simp add: k_fraction_add_loop.simps [of ?a])
  show ?thesis
  proof (cases "denominator a = denominator b \<and> in_long (numerator a + numerator b)")
    case True
    then have "k_fraction_add_loop a b = Some (numerator a + numerator b, denominator a)"
      by (simp add: k_fraction_add_loop.simps [of a])
    moreover have "shared_denominator a b = denominator a" "?qa = 1" "?qb = 1" using True d by (simp_all add: shared_denominator_def)
    ultimately show ?thesis using s v A(2) d by (metis mult.right_neutral less_irrefl)
  next
    case False
    have "k_fraction_add_scale a b (shared_denominator a b) = Some (?a, ?b)"
      using scale_eq [OF assms(1)] scale_eq [OF comparable_sym [OF assms(1)], unfolded common_sym [of b a]]
      by (subst k_fraction_add_scale.simps) (simp add: A(4) B(4))
    moreover have "k_fraction_add_shrink ?a ?b = Some (?a, ?b)"
      using s by (subst k_fraction_add_shrink.simps) simp
    ultimately have "k_fraction_add_loop a b = k_fraction_add_loop ?a ?b"
      using False by (subst k_fraction_add_loop.simps) (auto simp: A(3))
    with stop s v A(2) qa(1) show ?thesis by auto
  qed
qed

text \<open>C34. Sum and product are exact when the products of numerators and denominators fit into a
  \<^verbatim>\<open>long\<close>: the functions return, the product leaves the error code alone, and the values are those of the
  rational numbers.\<close>

theorem fraction_arithmetic:
  assumes "comparable a b"
  shows "(fits (numerator a * denominator b + numerator b * denominator a) \<longrightarrow>
      (\<exists>r. k_fraction_add a b = Some r \<and> val r = val a + val b)) \<and>
    (fits (numerator a * numerator b) \<longrightarrow>
      (\<exists>r. k_fraction_multiply a b error = Some (r, error) \<and> val r = val a * val b))"
proof (intro conjI impI)
  assume "fits (numerator a * denominator b + numerator b * denominator a)"
  from add_loop_eq [OF assms this] obtain n d where nd: "k_fraction_add_loop a b = Some (n, d)" "fits n" "fits d" "d \<noteq> 0"
      "(of_int n / of_int d :: rat) = val a + val b" by blast
  then show "\<exists>r. k_fraction_add a b = Some r \<and> val r = val a + val b"
    using create_eq [OF nd(2-4)] div_gcd_value [OF nd(4), of n] by (simp add: k_fraction_add_def val_def)
next
  assume n: "fits (numerator a * numerator b)"
  have d: "fits (denominator a * denominator b)" "denominator a * denominator b \<noteq> 0"
    using assms by (auto simp: comparable_def proper_def)
  have "k_fraction_multiply_loop a b = Some (Some (numerator a * numerator b, denominator a * denominator b))"
    using n d(1) by (subst k_fraction_multiply_loop.simps) simp
  then show "\<exists>r. k_fraction_multiply a b error = Some (r, error) \<and> val r = val a * val b"
    using create_eq [OF n d] div_gcd_value [OF d(2), of "numerator a * numerator b"]
    by (simp add: k_fraction_multiply_def val_def)
qed

theorem fraction_arithmetic_witness:
  "\<exists>r. k_fraction_add \<lparr>numerator = 1, denominator = 6\<rparr> \<lparr>numerator = - 1, denominator = 4\<rparr> = Some r \<and>
    val r = val \<lparr>numerator = 1, denominator = 6\<rparr> + val \<lparr>numerator = - 1, denominator = 4\<rparr>"
proof -
  have "comparable \<lparr>numerator = 1, denominator = 6\<rparr> \<lparr>numerator = - 1, denominator = 4\<rparr>"
    by (simp add: comparable_def proper_def fits_def)
  from fraction_arithmetic [OF this, of 0] show ?thesis by (simp add: fits_def)
qed

section \<open>Multiplication ends\<close>

text \<open>Each loss of precision makes a denominator smaller; a whole number cannot lose any.\<close>

lemma downcast_step:
  assumes "proper a" "0 \<le> numerator a" "denominator a \<noteq> 1"
  shows "\<exists>a'. k_fraction_downcast_precision a = Some (True, a') \<and> proper a' \<and> 0 \<le> numerator a' \<and>
    denominator a' < denominator a"
proof -
  define n d where "n = numerator a - numerator a mod 2" and "d = denominator a - denominator a mod 2"
  define g where "g = gcd n d"
  have "2 \<le> denominator a" using assms by (simp add: proper_def)
  then have B: "0 \<le> n" "n \<le> numerator a" "2 \<le> d" "d \<le> denominator a" "2 dvd n" "2 dvd d"
    unfolding n_def d_def using assms(2) by presburger+
  then have F: "fits n" "fits d" using assms(1,2) by (auto simp: proper_def fits_def)
  have "2 dvd g" using B(5,6) by (simp add: g_def)
  moreover have pos: "0 < g" using B(3) by (simp add: g_def gcd_pos_int)
  ultimately have g: "2 \<le> g" by (simp add: zdvd_imp_le)
  have "numerator a smod 2 = numerator a mod 2" "denominator a smod 2 = denominator a mod 2"
    using assms(2) \<open>2 \<le> denominator a\<close> by (simp_all add: smod_nonneg)
  moreover have "(if numerator a mod 2 \<noteq> 0 then long (numerator a - 1) else Some (numerator a)) = Some n"
    "(if denominator a mod 2 \<noteq> 0 then long (denominator a - 1) else Some (denominator a)) = Some d"
    using F unfolding n_def d_def by (auto simp: mod2_eq_if split: if_splits)
  moreover have "k_fraction_compact (a\<lparr>numerator := n, denominator := d\<rparr>) =
      Some (a\<lparr>numerator := n div g, denominator := d div g\<rparr>)"
    using compact_eq [of "a\<lparr>numerator := n, denominator := d\<rparr>"] B(3) F by (simp add: g_def)
  ultimately have "k_fraction_downcast_precision a = Some (True, a\<lparr>numerator := n div g, denominator := d div g\<rparr>)"
    using assms(3) by (simp add: k_fraction_downcast_precision_def)
  moreover have "fits (n div g)" "fits (d div g)"
    using pos fits_le [OF F(1) abs_div_le] fits_le [OF F(2) abs_div_le] by (simp_all add: g_def)
  moreover have "d div g < d" using g B(3) by (intro int_div_less_self) simp_all
  then have "d div g < denominator a" using B(4) by simp
  moreover have "0 < d div g" using B(3) unfolding g_def by (intro div_gcd_pos) simp
  moreover have "0 \<le> n div g" using B(1) pos by (simp add: pos_imp_zdiv_nonneg_iff)
  ultimately show ?thesis by (simp add: proper_def)
qed

lemma downcast_either_step:
  assumes "proper a" "0 \<le> numerator a" "proper b" "0 \<le> numerator b"
  shows "k_fraction_downcast_either a b = Some (False, a, b) \<or>
    (\<exists>a' b'. k_fraction_downcast_either a b = Some (True, a', b') \<and> proper a' \<and> 0 \<le> numerator a' \<and>
      proper b' \<and> 0 \<le> numerator b' \<and> denominator a' + denominator b' < denominator a + denominator b)"
proof (cases "denominator a = 1")
  case False
  with downcast_step [OF assms(1,2)] assms(3,4) show ?thesis
    by (auto simp: k_fraction_downcast_either_def)
next
  case True
  then have a: "k_fraction_downcast_precision a = Some (False, a)" by (simp add: k_fraction_downcast_precision_def)
  show ?thesis
  proof (cases "denominator b = 1")
    case False
    with downcast_step [OF assms(3,4)] assms(1,2) a show ?thesis
      by (auto simp: k_fraction_downcast_either_def)
  next
    case True
    then have "k_fraction_downcast_precision b = Some (False, b)" by (simp add: k_fraction_downcast_precision_def)
    with a show ?thesis by (simp add: k_fraction_downcast_either_def)
  qed
qed

lemma multiply_loop_returns:
  assumes "proper a" "0 \<le> numerator a" "proper b" "0 \<le> numerator b"
  shows "k_fraction_multiply_loop a b = Some None \<or>
    (\<exists>n d. k_fraction_multiply_loop a b = Some (Some (n, d)) \<and> fits n \<and> fits d \<and> 0 \<le> n \<and> 0 < d)"
  using assms
proof (induction "nat (denominator a + denominator b)" arbitrary: a b rule: less_induct)
  case less
  show ?case
  proof (cases "in_long (numerator a * numerator b) \<and> in_long (denominator a * denominator b)")
    case True
    then show ?thesis
      using less.prems by (subst (2) k_fraction_multiply_loop.simps) (auto simp: proper_def fits_def in_long_def abs_mult)
  next
    case False
    then have u: "k_fraction_multiply_loop a b = (do {
        (ok, a_cpy, b_cpy) \<leftarrow> k_fraction_downcast_either a b;
        if ok then k_fraction_multiply_loop a_cpy b_cpy else Some None
      })"
      by (subst k_fraction_multiply_loop.simps) simp
    from downcast_either_step [OF less.prems] show ?thesis
    proof (elim disjE exE conjE)
      fix a' b'
      assume s: "k_fraction_downcast_either a b = Some (True, a', b')" "proper a'" "0 \<le> numerator a'"
        "proper b'" "0 \<le> numerator b'" "denominator a' + denominator b' < denominator a + denominator b"
      then have "nat (denominator a' + denominator b') < nat (denominator a + denominator b)"
        by (simp add: proper_def)
      from less.hyps [OF this s(2-5)] show ?thesis by (simp add: u s(1))
    qed (simp add: u)
  qed
qed

text \<open>C35. Multiplication of fractions that are not negative always ends: with a fraction in lowest
  terms, or with the error and the first factor when both have become whole numbers whose product
  still does not fit.\<close>

theorem fraction_multiply_returns:
  assumes "proper a" "0 \<le> numerator a" "proper b" "0 \<le> numerator b"
  shows "k_fraction_multiply a b error = Some (a, - K_EINVAL) \<or>
    (\<exists>r. k_fraction_multiply a b error = Some (r, error) \<and> proper r \<and> 0 \<le> numerator r \<and>
      coprime (numerator r) (denominator r))"
  using multiply_loop_returns [OF assms]
proof (elim disjE exE conjE)
  fix n d assume "k_fraction_multiply_loop a b = Some (Some (n, d))" and nd: "fits n" "fits d" "0 \<le> n" "0 < d"
  moreover have "d \<noteq> 0" using nd(4) by simp
  note create_eq [OF nd(1,2) this]
  moreover have "proper \<lparr>numerator = n div gcd n d, denominator = d div gcd n d\<rparr>"
    using nd fits_le [OF nd(1) abs_div_le] fits_le [OF nd(2) abs_div_le] by (simp add: proper_def div_gcd_pos)
  ultimately show ?thesis
    by (simp add: k_fraction_multiply_def div_gcd_coprime pos_imp_zdiv_nonneg_iff)
qed (simp add: k_fraction_multiply_def)

theorem fraction_multiply_returns_witness:
  "k_fraction_multiply \<lparr>numerator = 123456789, denominator = 1000\<rparr> \<lparr>numerator = 1000000, denominator = 1\<rparr> 0 =
      Some (\<lparr>numerator = 123456789, denominator = 1000\<rparr>, - K_EINVAL) \<or>
    (\<exists>r. k_fraction_multiply \<lparr>numerator = 123456789, denominator = 1000\<rparr> \<lparr>numerator = 1000000, denominator = 1\<rparr> 0 =
        Some (r, 0) \<and> proper r \<and> 0 \<le> numerator r \<and> coprime (numerator r) (denominator r))"
  by (rule fraction_multiply_returns) (simp_all add: proper_def fits_def)

section \<open>Times\<close>

lemma whole_number_of_val:
  assumes "proper r" "0 \<le> numerator r"
  shows "k_fraction_to_whole_number r = Some \<lfloor>val r\<rfloor>"
proof -
  have d: "0 < denominator r" using assms(1) by (simp add: proper_def)
  then have "numerator r sdiv denominator r = numerator r div denominator r"
    using assms(2) by (simp add: sdiv_nonneg)
  moreover have "0 \<le> numerator r div denominator r" "numerator r div denominator r \<le> numerator r"
    using assms(2) d zdiv_mono2 [of "numerator r" 1 "denominator r"] by (simp_all add: pos_imp_zdiv_nonneg_iff)
  then have "in_long (numerator r div denominator r)" using assms(1) by (auto simp: proper_def fits_def in_long_def)
  ultimately show ?thesis
    using d by (simp add: k_fraction_to_whole_number_def long_div_def val_def floor_divide_of_int_eq)
qed

lemma create_proper:
  assumes "fits a" "fits b" "0 \<le> a" "0 < b"
  shows "\<exists>f. k_fraction_create a b = Some f \<and> proper f \<and> 0 \<le> numerator f \<and> numerator f \<le> a \<and>
    denominator f \<le> b \<and> val f = of_int a / of_int b"
proof -
  have b: "b \<noteq> 0" using assms(4) by simp
  have g: "0 < gcd a b" using b by (simp add: gcd_pos_int)
  have "0 \<le> a div gcd a b" "a div gcd a b \<le> a" "0 < b div gcd a b" "b div gcd a b \<le> b"
    using assms(3,4) g abs_div_le [of "gcd a b" a] abs_div_le [of "gcd a b" b] div_gcd_pos [OF assms(4), of a]
    by (auto simp: pos_imp_zdiv_nonneg_iff)
  then show ?thesis
    using assms(1,2) create_eq [OF assms(1,2) b] div_gcd_value [OF b, of a]
    by (auto simp: proper_def fits_def val_def)
qed

lemma multiply_whole:
  assumes "proper a" "0 \<le> numerator a" "proper b" "0 \<le> numerator b" "denominator b = 1"
    and "numerator a * numerator b \<le> LONG_MAX"
  shows "\<exists>r. k_fraction_multiply a b error = Some (r, error) \<and> proper r \<and> 0 \<le> numerator r \<and> val r = val a * val b"
proof -
  have n: "fits (numerator a * numerator b)" using assms by (simp add: fits_def)
  have d: "fits (denominator a * denominator b)" "0 < denominator a * denominator b"
    using assms by (auto simp: proper_def)
  have "k_fraction_multiply_loop a b = Some (Some (numerator a * numerator b, denominator a * denominator b))"
    using n d(1) by (subst k_fraction_multiply_loop.simps) simp
  moreover have "0 \<le> numerator a * numerator b" using assms(2,4) by simp
  from create_proper [OF n d(1) this d(2)] obtain r where
    "k_fraction_create (numerator a * numerator b) (denominator a * denominator b) = Some r"
    "proper r" "0 \<le> numerator r" "val r = val a * val b"
    by (auto simp: val_def)
  ultimately show ?thesis by (simp add: k_fraction_multiply_def)
qed

lemma small_word:
  assumes "unat w < 2147483648"
  obtains n where "0 \<le> n" "n = int (unat w)" "long_of_unsigned w = n" "w = word_of_int n"
proof -
  have "sint w = signed_take_bit 31 (uint w)" by (simp add: sint_uint)
  moreover have u: "uint w = int (unat w)" by simp
  have "LONG_MIN \<le> uint w" "uint w < 2147483648" unfolding u using assms by linarith+
  then have "- (2 ^ 31) \<le> uint w" "uint w < 2 ^ 31" by simp_all
  then have "signed_take_bit 31 (uint w) = uint w" by (rule signed_take_bit_int_eq_self)
  ultimately have s: "sint w = int (unat w)" by simp
  show thesis by (rule that [of "int (unat w)"]) (simp_all add: long_of_unsigned_def s del: uint_nat)
qed

lemma frequency: "k_fraction_create SYSTIMER_FREQUENCY_HZ 1 = Some \<lparr>numerator = 1000000, denominator = 1\<rparr>"
  "k_fraction_create 1000 1 = Some \<lparr>numerator = 1000, denominator = 1\<rparr>"
  by (simp_all add: create_eq fits_def SYSTIMER_FREQUENCY_HZ_def)

lemma milliseconds_exact:
  assumes "unat ms \<le> 2147"
  shows "ktiming_milliseconds_to_hertz ms error = (if error < 0 then Some (0, error) else Some (ms * 1000, error))"
proof -
  have "unat ms < 2147483648" using assms by simp
  then obtain n where n: "0 \<le> n" "n = int (unat ms)" "long_of_unsigned ms = n" "ms = word_of_int n"
    by (rule small_word)
  have le: "n \<le> 2147" using assms n(2) by linarith
  then have "fits n" "fits 1000" using n(1) by (simp_all add: fits_def)
  from create_proper [OF this n(1)] obtain s where s: "k_fraction_create n 1000 = Some s" "proper s" "0 \<le> numerator s"
      "numerator s \<le> n" "val s = of_int n / of_int 1000" by auto
  have "numerator s * 1000000 \<le> LONG_MAX" using s(4) le by linarith
  then obtain r where r: "k_fraction_multiply s \<lparr>numerator = 1000000, denominator = 1\<rparr> error = Some (r, error)"
      "proper r" "0 \<le> numerator r" "val r = val s * val \<lparr>numerator = 1000000, denominator = 1\<rparr>"
    using multiply_whole [OF s(2,3), of "\<lparr>numerator = 1000000, denominator = 1\<rparr>" error] by (auto simp: proper_def fits_def)
  then have "val r = of_int (n * 1000)" unfolding s(5) by (simp add: val_def)
  then have "k_fraction_to_whole_number r = Some (n * 1000)"
    using whole_number_of_val [OF r(2,3)] by (metis floor_of_int)
  moreover have "unsigned_of_long (n * 1000) = ms * 1000" by (simp add: unsigned_of_long_def n(4))
  ultimately show ?thesis
    using s(1) r(1) by (simp add: ktiming_milliseconds_to_hertz_def n(3) frequency)
qed

lemma hertz_exact:
  assumes "unat hz \<le> 2147483"
  shows "ktiming_hertz_to_milliseconds hz = Some (hz div 1000)"
proof -
  have "unat hz < 2147483648" using assms by simp
  then obtain n where n: "0 \<le> n" "n = int (unat hz)" "long_of_unsigned hz = n" "hz = word_of_int n"
    by (rule small_word)
  have le: "n \<le> 2147483" using assms n(2) by linarith
  then have "fits n" "fits 1000000" using n(1) by (simp_all add: fits_def)
  from create_proper [OF this n(1)] obtain s where s: "k_fraction_create n SYSTIMER_FREQUENCY_HZ = Some s" "proper s"
      "0 \<le> numerator s" "numerator s \<le> n" "val s = of_int n / of_int 1000000" by (auto simp: SYSTIMER_FREQUENCY_HZ_def)
  have "numerator s * 1000 \<le> LONG_MAX" using s(4) le by linarith
  then obtain r where r: "k_fraction_multiply s \<lparr>numerator = 1000, denominator = 1\<rparr> 0 = Some (r, 0)"
      "proper r" "0 \<le> numerator r" "val r = val s * val \<lparr>numerator = 1000, denominator = 1\<rparr>"
    using multiply_whole [OF s(2,3), of "\<lparr>numerator = 1000, denominator = 1\<rparr>" 0] by (auto simp: proper_def fits_def)
  then have "val r = of_int n / of_int 1000" unfolding s(5) by (simp add: val_def)
  then have "\<lfloor>val r\<rfloor> = n div 1000" by (simp only: floor_divide_of_int_eq)
  then have "k_fraction_to_whole_number r = Some (n div 1000)"
    using whole_number_of_val [OF r(2,3)] by simp
  moreover have "n div 1000 = uint (hz div 1000)"
    by (simp add: n(2) uint_div_distrib)
  then have "unsigned_of_long (n div 1000) = hz div 1000"
    by (simp add: unsigned_of_long_def)
  ultimately show ?thesis
    using s(1) r(1) by (simp add: ktiming_hertz_to_milliseconds_def n(3) frequency k_fraction_multiply_unchecked_def)
qed

text \<open>C32. Conversions of times are exact up to about two seconds: 2147 milliseconds, and 2147483 ticks of
  the timer (with the fraction of a millisecond dropped).\<close>

theorem times_exact:
  "(0 \<le> error \<and> unat ms \<le> 2147 \<longrightarrow> ktiming_milliseconds_to_hertz ms error = Some (ms * 1000, error)) \<and>
   (unat hz \<le> 2147483 \<longrightarrow> ktiming_hertz_to_milliseconds hz = Some (hz div 1000))"
  using milliseconds_exact [of ms error] hertz_exact [of hz] by simp

theorem times_exact_witness:
  "ktiming_milliseconds_to_hertz 2147 0 = Some (2147000, 0) \<and> ktiming_hertz_to_milliseconds 2147483 = Some 2147"
  using times_exact [of 0 2147 2147483] by simp


end
