(* ===== verification/User_Fraction.thy ===== *)
theory User_Fraction
  imports Fraction_Arithmetic
begin

text \<open>
  \<^verbatim>\<open>user/lib/math.c\<close> and \<^verbatim>\<open>user/lib/fraction.c\<close>: the arithmetic of the library for user programs. It is a
  second copy of the code of the kernel with one difference: where multiplication in the kernel
  gives up with an error code, the user program panics. The structure for a fraction is declared again
  with the same fields. The theorems say that the copies agree, so what is proved of the
  kernel's functions holds for them.
\<close>

section \<open>Arithmetic\<close>

definition ABS :: "int \<Rightarrow> int option" where
  "ABS a = (if a \<ge> 0 then Some a else long (- a))"

function user_gcd_loop :: "int \<Rightarrow> int \<Rightarrow> int" where
  "user_gcd_loop a b = (if b \<noteq> 0 then user_gcd_loop b (a smod b) else a)"
  by pat_completeness auto
termination
  by (relation "measure (\<lambda>(a, b). nat \<bar>b\<bar>)") (auto simp: smod_int_alt_def abs_mult)

declare user_gcd_loop.simps [simp del]

definition user_gcd :: "int \<Rightarrow> int \<Rightarrow> int option" where
  "user_gcd a b = do {
     a \<leftarrow> ABS a;
     b \<leftarrow> ABS b;
     Some (user_gcd_loop a b)
   }"

definition user_lcm :: "int \<Rightarrow> int \<Rightarrow> int option" where
  "user_lcm a b = do {
     x \<leftarrow> ABS a;
     g \<leftarrow> user_gcd a b;
     q \<leftarrow> long_div x g;
     y \<leftarrow> ABS b;
     long (q * y)
   }"

definition clamp_unsigned :: "u32 \<Rightarrow> u32 \<Rightarrow> u32 \<Rightarrow> u32 option" where
  "clamp_unsigned num mn mx = do {
     verify (mn < mx);
     Some (if num < mn then mn else if num > mx then mx else num)
   }"

definition align8 :: "u32 \<Rightarrow> u32 option" where
  "align8 num = do {
     verify (UINT_MAX - 8 \<ge> num);
     Some (if num mod 8 \<noteq> 0 then num + 8 - (num mod 8) else num)
   }"

section \<open>Fractions\<close>

type_synonym fraction = k_fraction

definition EINVAL :: int where "EINVAL = 1"
definition ERANGE :: int where "ERANGE = 2"
definition EBUSY :: int where "EBUSY = 3"

definition fraction_compact :: "fraction \<Rightarrow> fraction option" where
  "fraction_compact a = do {
     factor \<leftarrow> user_gcd (numerator a) (denominator a);
     n \<leftarrow> long_div (numerator a) factor;
     d \<leftarrow> long_div (denominator a) factor;
     Some (a\<lparr>numerator := n, denominator := d\<rparr>)
   }"

definition fraction_create :: "int \<Rightarrow> int \<Rightarrow> fraction option" where
  "fraction_create a b = do {
     verify (b \<noteq> 0);
     fraction_compact \<lparr>numerator = a, denominator = b\<rparr>
   }"

definition fraction_from_number :: "int \<Rightarrow> fraction option" where
  "fraction_from_number a = fraction_create a 1"

definition fraction_to_whole_number :: "fraction \<Rightarrow> int option" where
  "fraction_to_whole_number a = long_div (numerator a) (denominator a)"

text \<open>Returns whether it could lower the precision, and the fraction.\<close>

definition fraction_downcast_precision :: "fraction \<Rightarrow> (bool \<times> fraction) option" where
  "fraction_downcast_precision a =
     (if denominator a = 1 then Some (False, a)
      else do {
        n \<leftarrow> (if numerator a smod 2 \<noteq> 0 then long (numerator a - 1) else Some (numerator a));
        d \<leftarrow> (if denominator a smod 2 \<noteq> 0 then long (denominator a - 1) else Some (denominator a));
        a \<leftarrow> fraction_compact (a\<lparr>numerator := n, denominator := d\<rparr>);
        Some (True, a)
      })"

text \<open>\<open>!downcast(a) && !downcast(b)\<close>: the second one only runs when the first one fails.\<close>

definition fraction_downcast_either ::
  "fraction \<Rightarrow> fraction \<Rightarrow> (bool \<times> fraction \<times> fraction) option" where
  "fraction_downcast_either a b = do {
     (ok, a) \<leftarrow> fraction_downcast_precision a;
     if ok then Some (True, a, b)
     else do {
       (ok, b) \<leftarrow> fraction_downcast_precision b;
       Some (ok, a, b)
     }
   }"

text \<open>The product \<open>numerator * (common / denominator)\<close> of the comparisons.\<close>

definition fraction_scaled_numerator :: "fraction \<Rightarrow> int \<Rightarrow> int option" where
  "fraction_scaled_numerator a common = do {
     q \<leftarrow> long_div common (denominator a);
     long (numerator a * q)
   }"

definition fraction_lt :: "fraction \<Rightarrow> fraction \<Rightarrow> bool option" where
  "fraction_lt a b = do {
     common \<leftarrow> user_lcm (denominator a) (denominator b);
     x \<leftarrow> fraction_scaled_numerator a common;
     y \<leftarrow> fraction_scaled_numerator b common;
     Some (x < y)
   }"

definition fraction_eq :: "fraction \<Rightarrow> fraction \<Rightarrow> bool option" where
  "fraction_eq a b = do {
     common \<leftarrow> user_lcm (denominator a) (denominator b);
     x \<leftarrow> fraction_scaled_numerator a common;
     y \<leftarrow> fraction_scaled_numerator b common;
     Some (x = y)
   }"

text \<open>Returns the error code and \<open>*out\<close>.\<close>

definition fraction_scalar_multiply :: "fraction \<Rightarrow> int \<Rightarrow> int \<times> fraction" where
  "fraction_scalar_multiply a scalar =
     (if scalar = 0 then (0, a\<lparr>numerator := 0\<rparr>)
      else if \<not> in_long (numerator a * scalar) \<or> \<not> in_long (denominator a * scalar)
      then (- ERANGE, a)
      else (0, a\<lparr>numerator := numerator a * scalar, denominator := denominator a * scalar\<rparr>))"

text \<open>The two inner loops of \<open>fraction_add\<close> and the outer one.\<close>

definition fraction_add_retry :: "fraction \<Rightarrow> fraction \<Rightarrow> (fraction \<times> fraction \<times> int) option" where
  "fraction_add_retry a_adj b_adj = do {
     a_adj \<leftarrow> fraction_compact a_adj;
     b_adj \<leftarrow> fraction_compact b_adj;
     (ok, a_adj, b_adj) \<leftarrow> fraction_downcast_either a_adj b_adj;
     verify ok;
     common_multiple \<leftarrow> user_lcm (denominator a_adj) (denominator b_adj);
     Some (a_adj, b_adj, common_multiple)
   }"

partial_function (option) fraction_add_scale ::
  "fraction \<Rightarrow> fraction \<Rightarrow> int \<Rightarrow> (fraction \<times> fraction) option" where
  "fraction_add_scale a_adj b_adj common_multiple = do {
     fa \<leftarrow> long_div common_multiple (denominator a_adj);
     let (ra, a_adj) = fraction_scalar_multiply a_adj fa;
     if ra < 0
     then do {
       (a_adj, b_adj, common_multiple) \<leftarrow> fraction_add_retry a_adj b_adj;
       fraction_add_scale a_adj b_adj common_multiple
     }
     else do {
       fb \<leftarrow> long_div common_multiple (denominator b_adj);
       let (rb, b_adj) = fraction_scalar_multiply b_adj fb;
       if rb < 0
       then do {
         (a_adj, b_adj, common_multiple) \<leftarrow> fraction_add_retry a_adj b_adj;
         fraction_add_scale a_adj b_adj common_multiple
       }
       else Some (a_adj, b_adj)
     }
   }"

declare fraction_add_scale.simps [code]

partial_function (option) fraction_add_shrink ::
  "fraction \<Rightarrow> fraction \<Rightarrow> (fraction \<times> fraction) option" where
  "fraction_add_shrink a_adj b_adj =
     (if denominator a_adj = denominator b_adj \<and> \<not> in_long (numerator a_adj + numerator b_adj)
      then do {
        (ok, a_adj, b_adj) \<leftarrow> fraction_downcast_either a_adj b_adj;
        verify ok;
        fraction_add_shrink a_adj b_adj
      }
      else Some (a_adj, b_adj))"

declare fraction_add_shrink.simps [code]

partial_function (option) fraction_add_loop ::
  "fraction \<Rightarrow> fraction \<Rightarrow> (int \<times> int) option" where
  "fraction_add_loop a_adj b_adj =
     (if denominator a_adj \<noteq> denominator b_adj \<or> \<not> in_long (numerator a_adj + numerator b_adj)
      then do {
        common_multiple \<leftarrow> user_lcm (denominator a_adj) (denominator b_adj);
        (a_adj, b_adj) \<leftarrow> fraction_add_scale a_adj b_adj common_multiple;
        (a_adj, b_adj) \<leftarrow> fraction_add_shrink a_adj b_adj;
        fraction_add_loop a_adj b_adj
      }
      else Some (numerator a_adj + numerator b_adj, denominator a_adj))"

declare fraction_add_loop.simps [code]

definition fraction_add :: "fraction \<Rightarrow> fraction \<Rightarrow> fraction option" where
  "fraction_add a b = do {
     (res_num_add, den) \<leftarrow> fraction_add_loop a b;
     fraction_create res_num_add den
   }"

definition fraction_change_sign :: "fraction \<Rightarrow> fraction option" where
  "fraction_change_sign a =
     (if denominator a < 0
      then do {
        d \<leftarrow> long (- denominator a);
        Some (a\<lparr>denominator := d\<rparr>)
      }
      else do {
        n \<leftarrow> long (- numerator a);
        Some (a\<lparr>numerator := n\<rparr>)
      })"

definition fraction_sub :: "fraction \<Rightarrow> fraction \<Rightarrow> fraction option" where
  "fraction_sub a b = do {
     b_negative \<leftarrow> fraction_change_sign b;
     fraction_add a b_negative
   }"

text \<open>The loop of \<open>fraction_multiply\<close>; it panics when neither factor can lose precision.\<close>

partial_function (option) fraction_multiply_loop :: "fraction \<Rightarrow> fraction \<Rightarrow> (int \<times> int) option" where
  "fraction_multiply_loop a_cpy b_cpy =
     (if \<not> in_long (numerator a_cpy * numerator b_cpy) \<or> \<not> in_long (denominator a_cpy * denominator b_cpy)
      then do {
        (ok, a_cpy, b_cpy) \<leftarrow> fraction_downcast_either a_cpy b_cpy;
        verify ok;
        fraction_multiply_loop a_cpy b_cpy
      }
      else Some (numerator a_cpy * numerator b_cpy, denominator a_cpy * denominator b_cpy))"

declare fraction_multiply_loop.simps [code]

definition fraction_multiply :: "fraction \<Rightarrow> fraction \<Rightarrow> fraction option" where
  "fraction_multiply a b = do {
     (num_mul, denom_mul) \<leftarrow> fraction_multiply_loop a b;
     fraction_create num_mul denom_mul
   }"

definition fraction_floor :: "fraction \<Rightarrow> fraction option" where
  "fraction_floor a = do {
     r \<leftarrow> long_mod (numerator a) (denominator a);
     n \<leftarrow> long (numerator a - r);
     fraction_create n (denominator a)
   }"

definition fraction_round :: "fraction \<Rightarrow> fraction option" where
  "fraction_round a = do {
     half \<leftarrow> fraction_create 1 2;
     added \<leftarrow> fraction_add a half;
     fraction_floor added
   }"

definition fraction_project_onto_range ::
  "fraction \<Rightarrow> fraction \<Rightarrow> fraction \<Rightarrow> fraction option" where
  "fraction_project_onto_range a mn mx = do {
     verify (numerator a \<le> denominator a);
     l \<leftarrow> fraction_lt mx mn;
     verify (\<not> l);
     diff \<leftarrow> fraction_sub mx mn;
     scaled \<leftarrow> fraction_multiply a diff;
     fraction_add scaled mn
   }"

definition project_long_onto_range :: "int \<Rightarrow> int \<Rightarrow> int \<Rightarrow> int option" where
  "project_long_onto_range a mn mx = do {
     f_scale \<leftarrow> fraction_create a LONG_MAX;
     f_min \<leftarrow> fraction_from_number mn;
     f_max \<leftarrow> fraction_from_number mx;
     f_projected \<leftarrow> fraction_project_onto_range f_scale f_min f_max;
     f_rounded \<leftarrow> fraction_round f_projected;
     fraction_to_whole_number f_rounded
   }"

section \<open>The copies agree\<close>

lemma user_gcd_loop_eq: "user_gcd_loop a b = k_gcd_loop a b"
proof (induction a b rule: k_gcd_loop.induct)
  case (1 a b)
  then show ?case by (simp add: user_gcd_loop.simps [of a b] k_gcd_loop.simps [of a b])
qed

lemma user_math_eq:
  "ABS = K_ABS" "user_gcd = k_gcd" "user_lcm = k_lcm" "clamp_unsigned = k_clamp_unsigned" "align8 = k_align8"
proof -
  show abs: "ABS = K_ABS" by (intro ext) (simp add: ABS_def K_ABS_def)
  show g: "user_gcd = k_gcd" by (intro ext) (simp add: user_gcd_def k_gcd_def abs user_gcd_loop_eq)
  show "user_lcm = k_lcm" by (intro ext) (simp add: user_lcm_def k_lcm_def abs g)
  show "clamp_unsigned = k_clamp_unsigned" by (intro ext) (simp add: clamp_unsigned_def k_clamp_unsigned_def)
  show "align8 = k_align8" by (intro ext) (simp add: align8_def k_align8_def)
qed

lemma fraction_basic_eq:
  "fraction_compact = k_fraction_compact" "fraction_create = k_fraction_create"
  "fraction_from_number = k_fraction_from_number" "fraction_to_whole_number = k_fraction_to_whole_number"
  "fraction_downcast_precision = k_fraction_downcast_precision"
  "fraction_downcast_either = k_fraction_downcast_either"
  "fraction_scaled_numerator = k_fraction_scaled_numerator"
  "fraction_scalar_multiply = k_fraction_scalar_multiply"
  "fraction_change_sign = k_fraction_change_sign"
proof -
  show c: "fraction_compact = k_fraction_compact"
    by (intro ext) (simp add: fraction_compact_def k_fraction_compact_def user_math_eq)
  show cr: "fraction_create = k_fraction_create"
    by (intro ext) (simp add: fraction_create_def k_fraction_create_def c)
  show "fraction_from_number = k_fraction_from_number"
    by (intro ext) (simp add: fraction_from_number_def k_fraction_from_number_def cr)
  show "fraction_to_whole_number = k_fraction_to_whole_number"
    by (intro ext) (simp add: fraction_to_whole_number_def k_fraction_to_whole_number_def)
  show d: "fraction_downcast_precision = k_fraction_downcast_precision"
    by (intro ext) (simp only: fraction_downcast_precision_def k_fraction_downcast_precision_def c)
  show "fraction_downcast_either = k_fraction_downcast_either"
    by (intro ext) (simp only: fraction_downcast_either_def k_fraction_downcast_either_def d)
  show "fraction_scaled_numerator = k_fraction_scaled_numerator"
    by (intro ext) (simp add: fraction_scaled_numerator_def k_fraction_scaled_numerator_def)
  show "fraction_scalar_multiply = k_fraction_scalar_multiply"
    by (intro ext) (simp add: fraction_scalar_multiply_def k_fraction_scalar_multiply_def ERANGE_def K_ERANGE_def)
  show "fraction_change_sign = k_fraction_change_sign"
    by (intro ext) (simp only: fraction_change_sign_def k_fraction_change_sign_def)
qed

lemma fraction_compare_eq: "fraction_lt = k_fraction_lt" "fraction_eq = k_fraction_eq"
  by (intro ext, simp add: fraction_lt_def k_fraction_lt_def fraction_eq_def k_fraction_eq_def
      user_math_eq fraction_basic_eq)+

text \<open>A loop has a result exactly when its copy has it.\<close>

lemma same_results:
  assumes "\<And>r. x = Some r \<Longrightarrow> y = Some r" "\<And>r. y = Some r \<Longrightarrow> x = Some r"
  shows "x = y"
  using assms by (cases x; cases y) auto

lemma add_retry_eq: "fraction_add_retry = k_fraction_add_retry"
  by (intro ext) (simp only: fraction_add_retry_def k_fraction_add_retry_def fraction_basic_eq user_math_eq)

lemma bind_case: "x \<bind> f = (case x of None \<Rightarrow> None | Some y \<Rightarrow> f y)"
  by (cases x) simp_all

lemmas loop_eqs = fraction_basic_eq user_math_eq add_retry_eq bind_case Let_def

lemma add_scale_eq: "fraction_add_scale a b m = k_fraction_add_scale a b m"
proof (rule same_results)
  fix r assume "fraction_add_scale a b m = Some r"
  then show "k_fraction_add_scale a b m = Some r"
  proof (rule fraction_add_scale.raw_induct [of "\<lambda>a b m r. k_fraction_add_scale a b m = Some r", rotated], goal_cases)
    case (1 f a b m r)
    then show ?case by (subst k_fraction_add_scale.simps) (cases r; auto simp: loop_eqs split: option.splits prod.splits if_splits)
  qed
next
  fix r assume "k_fraction_add_scale a b m = Some r"
  then show "fraction_add_scale a b m = Some r"
  proof (rule k_fraction_add_scale.raw_induct [of "\<lambda>a b m r. fraction_add_scale a b m = Some r", rotated], goal_cases)
    case (1 f a b m r)
    then show ?case by (subst fraction_add_scale.simps) (cases r; auto simp: loop_eqs split: option.splits prod.splits if_splits)
  qed
qed

lemma add_shrink_eq: "fraction_add_shrink a b = k_fraction_add_shrink a b"
proof (rule same_results)
  fix r assume "fraction_add_shrink a b = Some r"
  then show "k_fraction_add_shrink a b = Some r"
  proof (rule fraction_add_shrink.raw_induct [of "\<lambda>a b r. k_fraction_add_shrink a b = Some r", rotated], goal_cases)
    case (1 f a b r)
    then show ?case by (subst k_fraction_add_shrink.simps) (cases r; auto simp: loop_eqs split: option.splits prod.splits if_splits)
  qed
next
  fix r assume "k_fraction_add_shrink a b = Some r"
  then show "fraction_add_shrink a b = Some r"
  proof (rule k_fraction_add_shrink.raw_induct [of "\<lambda>a b r. fraction_add_shrink a b = Some r", rotated], goal_cases)
    case (1 f a b r)
    then show ?case by (subst fraction_add_shrink.simps) (cases r; auto simp: loop_eqs split: option.splits prod.splits if_splits)
  qed
qed

lemma add_loop_copy: "fraction_add_loop a b = k_fraction_add_loop a b"
proof (rule same_results)
  fix r assume "fraction_add_loop a b = Some r"
  then show "k_fraction_add_loop a b = Some r"
  proof (rule fraction_add_loop.raw_induct [of "\<lambda>a b r. k_fraction_add_loop a b = Some r", rotated], goal_cases)
    case (1 f a b r)
    then show ?case
      by (subst k_fraction_add_loop.simps) (cases r; auto simp: loop_eqs add_scale_eq add_shrink_eq split: option.splits prod.splits if_splits)
  qed
next
  fix r assume "k_fraction_add_loop a b = Some r"
  then show "fraction_add_loop a b = Some r"
  proof (rule k_fraction_add_loop.raw_induct [of "\<lambda>a b r. fraction_add_loop a b = Some r", rotated], goal_cases)
    case (1 f a b r)
    then show ?case
      by (subst fraction_add_loop.simps) (cases r; auto simp: loop_eqs add_scale_eq add_shrink_eq split: option.splits prod.splits if_splits)
  qed
qed

lemma fraction_sum_eq: "fraction_add = k_fraction_add" "fraction_sub = k_fraction_sub"
  "fraction_floor = k_fraction_floor" "fraction_round = k_fraction_round"
proof -
  show a: "fraction_add = k_fraction_add"
    by (intro ext) (simp add: fraction_add_def k_fraction_add_def add_loop_copy fraction_basic_eq)
  show "fraction_sub = k_fraction_sub"
    by (intro ext) (simp add: fraction_sub_def k_fraction_sub_def a fraction_basic_eq)
  show f: "fraction_floor = k_fraction_floor"
    by (intro ext) (simp add: fraction_floor_def k_fraction_floor_def fraction_basic_eq)
  show "fraction_round = k_fraction_round"
    by (intro ext) (simp add: fraction_round_def k_fraction_round_def a f fraction_basic_eq)
qed

lemma multiply_loop_user:
  assumes "k_fraction_multiply_loop a b = Some r"
  shows "fraction_multiply_loop a b = r"
  using assms
proof (rule k_fraction_multiply_loop.raw_induct [of "\<lambda>a b r. fraction_multiply_loop a b = r", rotated], goal_cases)
  case (1 f a b r)
  then show ?case
    by (subst fraction_multiply_loop.simps) (auto simp: loop_eqs split: option.splits if_splits prod.splits)
qed

lemma multiply_loop_kernel:
  assumes "fraction_multiply_loop a b = Some r"
  shows "k_fraction_multiply_loop a b = Some (Some r)"
  using assms
proof (rule fraction_multiply_loop.raw_induct [of "\<lambda>a b r. k_fraction_multiply_loop a b = Some (Some r)", rotated], goal_cases)
  case (1 f a b r)
  then show ?case
    by (subst k_fraction_multiply_loop.simps) (auto simp: loop_eqs split: option.splits if_splits prod.splits)
qed

lemma fraction_multiply_loop_eq:
  "fraction_multiply_loop a b = k_fraction_multiply_loop a b \<bind> (\<lambda>r. r)"
proof (cases "k_fraction_multiply_loop a b")
  case None
  then show ?thesis using multiply_loop_kernel [of a b] by (cases "fraction_multiply_loop a b") auto
next
  case (Some r)
  then show ?thesis using multiply_loop_user [OF Some] by simp
qed

text \<open>Multiplication gives the fraction of the kernel's function when that reports no error, and panics when
  it does.\<close>

lemma fraction_multiply_eq:
  "fraction_multiply a b = k_fraction_multiply a b 0 \<bind> (\<lambda>(r, error). if error < 0 then None else Some r)"
  by (cases "k_fraction_multiply_loop a b")
    (auto simp: fraction_multiply_def k_fraction_multiply_def fraction_multiply_loop_eq fraction_basic_eq K_EINVAL_def
      Option.bind_assoc split: option.splits prod.splits)

lemma fraction_multiply_unchecked:
  "fraction_multiply a b = Some r \<Longrightarrow> k_fraction_multiply_unchecked a b = Some r"
  by (auto simp: fraction_multiply_eq k_fraction_multiply_unchecked_def Option.bind_eq_Some_conv split: if_splits)

end
