(* ===== verification/User_Color.thy ===== *)
theory User_Color
  imports User_Fraction Kcolor
begin

text \<open>
  \<^verbatim>\<open>user/lib/color.c\<close>: the conversion of colours in the library for user programs, on its own
  fractions, and that every colour it computes is the one the kernel computes.
\<close>

section \<open>Definitions\<close>

type_synonym rgb_color = k_rgb_color
type_synonym hsl_color = k_hsl_color

definition hue_to_rgb :: "fraction \<Rightarrow> fraction \<Rightarrow> fraction \<Rightarrow> (fraction \<times> fraction) option" where
  "hue_to_rgb p q t = do {
     c0 \<leftarrow> fraction_from_number 0;
     c1 \<leftarrow> fraction_from_number 1;
     c1_6 \<leftarrow> fraction_create 1 6;
     c1_2 \<leftarrow> fraction_create 1 2;
     c2_3 \<leftarrow> fraction_create 2 3;
     c6 \<leftarrow> fraction_from_number 6;
     b \<leftarrow> fraction_lt t c0;
     t \<leftarrow> (if b then fraction_add t c1 else Some t);
     b \<leftarrow> fraction_lt c1 t;
     t \<leftarrow> (if b then fraction_sub t c1 else Some t);
     b \<leftarrow> fraction_lt t c1_6;
     if b
     then do {
       q_m_p \<leftarrow> fraction_sub q p;
       q_m_p_m_6 \<leftarrow> fraction_multiply q_m_p c6;
       q_m_p_m_6_m_t \<leftarrow> fraction_multiply q_m_p_m_6 t;
       r \<leftarrow> fraction_add p q_m_p_m_6_m_t;
       Some (r, t)
     }
     else do {
       b \<leftarrow> fraction_lt t c1_2;
       if b then Some (q, t)
       else do {
         b \<leftarrow> fraction_lt t c2_3;
         if b
         then do {
           q_m_p \<leftarrow> fraction_sub q p;
           tt_m_t \<leftarrow> fraction_sub c2_3 t;
           q_m_p_m_tt_m_t \<leftarrow> fraction_multiply q_m_p tt_m_t;
           q_m_p_m_tt_m_t_m_6 \<leftarrow> fraction_multiply q_m_p_m_tt_m_t c6;
           r \<leftarrow> fraction_add p q_m_p_m_tt_m_t_m_6;
           Some (r, t)
         }
         else Some (p, t)
       }
     }
   }"

text \<open>One channel of the result: scaled to 255, rounded and cut to a byte.\<close>

definition user_color_channel :: "fraction \<Rightarrow> fraction \<Rightarrow> u8 option" where
  "user_color_channel c255 x = do {
     x \<leftarrow> fraction_multiply x c255;
     x \<leftarrow> fraction_round x;
     n \<leftarrow> fraction_to_whole_number x;
     Some (word_of_int n)
   }"

definition hsl_to_rgb :: "hsl_color \<Rightarrow> rgb_color option" where
  "hsl_to_rgb hsl = do {
     verify (hue hsl < 360);
     verify (saturation hsl \<le> 100);
     verify (lightness hsl \<le> 100);
     c0 \<leftarrow> fraction_from_number 0;
     c1_3 \<leftarrow> fraction_create 1 3;
     c1_2 \<leftarrow> fraction_create 1 2;
     c1 \<leftarrow> fraction_from_number 1;
     c2 \<leftarrow> fraction_from_number 2;
     c255 \<leftarrow> fraction_from_number 255;
     h \<leftarrow> fraction_create (uint (hue hsl)) 360;
     s \<leftarrow> fraction_create (uint (saturation hsl)) 100;
     l \<leftarrow> fraction_create (uint (lightness hsl)) 100;
     grey \<leftarrow> fraction_eq s c0;
     (r, g, b) \<leftarrow>
       (if grey then Some (l, l, l)
        else do {
          dark \<leftarrow> fraction_lt l c1_2;
          q \<leftarrow> (if dark
               then do {
                 s_p_1 \<leftarrow> fraction_add s c1;
                 fraction_multiply l s_p_1
               }
               else do {
                 l_p_s \<leftarrow> fraction_add l s;
                 l_m_s \<leftarrow> fraction_multiply l s;
                 fraction_sub l_p_s l_m_s
               });
          l_m_2 \<leftarrow> fraction_multiply l c2;
          p \<leftarrow> fraction_sub l_m_2 q;
          h_p_ot \<leftarrow> fraction_add h c1_3;
          h_m_ot \<leftarrow> fraction_sub h c1_3;
          (r, h_p_ot) \<leftarrow> hue_to_rgb p q h_p_ot;
          (g, h) \<leftarrow> hue_to_rgb p q h;
          (b, h_m_ot) \<leftarrow> hue_to_rgb p q h_m_ot;
          Some (r, g, b)
        });
     r \<leftarrow> user_color_channel c255 r;
     g \<leftarrow> user_color_channel c255 g;
     b \<leftarrow> user_color_channel c255 b;
     Some \<lparr>red = r, green = g, blue = b\<rparr>
   }"

section \<open>Every result is that of the kernel\<close>

definition refines :: "'a option \<Rightarrow> 'a option \<Rightarrow> bool" where
  "refines x y \<longleftrightarrow> (\<forall>r. x = Some r \<longrightarrow> y = Some r)"

lemma refines_refl [intro!]: "refines x x"
  by (simp add: refines_def)

lemma refines_bind [intro!]:
  assumes "refines x y" "\<And>r. refines (f r) (g r)"
  shows "refines (x \<bind> f) (y \<bind> g)"
  using assms by (auto simp: refines_def Option.bind_eq_Some_conv)

lemma refines_if [intro!]: "refines x x' \<Longrightarrow> refines y y' \<Longrightarrow> refines (if b then x else y) (if b then x' else y')"
  by simp

lemma refines_prod [intro!]: "(\<And>x y. refines (f x y) (g x y)) \<Longrightarrow> refines (case p of (x, y) \<Rightarrow> f x y) (case p of (x, y) \<Rightarrow> g x y)"
  by (cases p) simp

lemma refines_multiply [intro!]: "refines (fraction_multiply a b) (k_fraction_multiply_unchecked a b)"
  by (simp add: refines_def fraction_multiply_unchecked)

lemmas fraction_eqs = fraction_basic_eq fraction_compare_eq fraction_sum_eq

lemma hue_refines: "refines (hue_to_rgb p q t) (k_hue_to_rgb p q t)"
  unfolding hue_to_rgb_def k_hue_to_rgb_def fraction_eqs by (intro refines_refl refines_bind refines_if refines_multiply)

lemma channel_refines: "refines (user_color_channel c x) (color_channel c x)"
  unfolding user_color_channel_def color_channel_def fraction_eqs by (intro refines_refl refines_bind refines_if refines_multiply)

lemma hsl_refines: "refines (hsl_to_rgb hsl) (k_hsl_to_rgb hsl)"
  unfolding hsl_to_rgb_def k_hsl_to_rgb_def fraction_eqs
  by (intro refines_bind refines_if refines_prod refines_multiply hue_refines channel_refines refines_refl)

lemma project_refines: "refines (project_long_onto_range a mn mx) (k_project_long_onto_range a mn mx)"
  unfolding project_long_onto_range_def k_project_long_onto_range_def fraction_project_onto_range_def
    k_fraction_project_onto_range_def fraction_eqs
  by (intro refines_bind refines_multiply refines_refl)

end
