(* ===== verification/User_Text.thy ===== *)
theory User_Text
  imports User_Fraction Khash Kprintf
begin

text \<open>
  \<^verbatim>\<open>user/lib/string.c\<close>, \<^verbatim>\<open>ascii.c\<close>, \<^verbatim>\<open>hash.c\<close>, \<^verbatim>\<open>error.c\<close> and \<^verbatim>\<open>printf.c\<close>: text in the library for
  user programs, with the same conventions as in \<^theory_text>\<open>Kstring\<close>, \<^theory_text>\<open>Khash\<close> and \<^theory_text>\<open>Kprintf\<close>. The
  characters that \<open>printf\<close> returns are handed one by one to the system call
  \<^verbatim>\<open>sys$output_character\<close>.
\<close>

section \<open>Strings\<close>

text \<open>The string is the array behind the pointer, up to its end; without a zero byte in it the
  loop reads past the array.\<close>

fun strlen :: "u8 list \<Rightarrow> nat option" where
  "strlen [] = None"
| "strlen (c # s) = (if c \<noteq> 0 then map_option Suc (strlen s) else Some 0)"

text \<open>Unlike in the kernel the pointers are checked even when nothing is copied.\<close>

definition memcpy ::
  "(u32 \<Rightarrow> u32) \<Rightarrow> u32 \<Rightarrow> u32 \<Rightarrow> u32 \<Rightarrow> (u32 \<Rightarrow> u8) \<Rightarrow> (u32 \<Rightarrow> u8) option" where
  "memcpy tr dst src n m = do {
     verify (dst \<noteq> 0);
     verify (src \<noteq> 0);
     Some (copy_bytes tr dst src (unat n) m)
   }"

definition error_string :: "int \<Rightarrow> string option" where
  "error_string code =
     (if code = - EINVAL then Some ''-EINVAL''
      else if code = - ERANGE then Some ''-ERANGE''
      else if code = - EBUSY then Some ''-EBUSY''
      else None)"

definition is_ascii_decimal_digit :: "u8 \<Rightarrow> bool" where
  "is_ascii_decimal_digit ch \<longleftrightarrow> ch \<ge> 48 \<and> ch \<le> 57"

definition parse_ascii_decimal_digit :: "u8 \<Rightarrow> u8 option" where
  "parse_ascii_decimal_digit ch = do {
     verify (ch \<ge> 48 \<and> ch \<le> 57);
     Some (ch - 48)
   }"

definition to_ascii_hexadecimal_digit :: "u8 \<Rightarrow> u8 option" where
  "to_ascii_hexadecimal_digit inp = do {
     verify (inp \<le> 15);
     if inp \<le> 9 then Some (inp + 48) else Some (inp + 97 - 10)
   }"

definition is_uppercase :: "u8 \<Rightarrow> bool" where
  "is_uppercase ch \<longleftrightarrow> ch > 64 \<and> ch < 91"

section \<open>Hashes\<close>

definition HASH_JEN_MIX :: "u32 \<Rightarrow> u32 \<Rightarrow> u32 \<Rightarrow> u32 \<times> u32 \<times> u32" where
  "HASH_JEN_MIX a b c =
     (let a = a - b; a = a - c; a = a XOR drop_bit 13 c;
          b = b - c; b = b - a; b = b XOR push_bit 8 a;
          c = c - a; c = c - b; c = c XOR drop_bit 13 b;
          a = a - b; a = a - c; a = a XOR drop_bit 12 c;
          b = b - c; b = b - a; b = b XOR push_bit 16 a;
          c = c - a; c = c - b; c = c XOR drop_bit 5 b;
          a = a - b; a = a - c; a = a XOR drop_bit 3 c;
          b = b - c; b = b - a; b = b XOR push_bit 10 a;
          c = c - a; c = c - b; c = c XOR drop_bit 15 b
      in (a, b, c))"

definition user_key_word :: "u8 list \<Rightarrow> nat \<Rightarrow> u32" where
  "user_key_word key i = ucast (key ! i) + push_bit 8 (ucast (key ! (i + 1))) +
     push_bit 16 (ucast (key ! (i + 2))) + push_bit 24 (ucast (key ! (i + 3)))"

function hash_jen_loop :: "u32 \<Rightarrow> u32 \<Rightarrow> u32 \<Rightarrow> u8 list \<Rightarrow> u32 \<times> u32 \<times> u32 \<times> u8 list" where
  "hash_jen_loop i j hashv key =
     (if length key \<ge> 12
      then let i = i + user_key_word key 0;
               j = j + user_key_word key 4;
               hashv = hashv + user_key_word key 8;
               (i, j, hashv) = HASH_JEN_MIX i j hashv
           in hash_jen_loop i j hashv (drop 12 key)
      else (i, j, hashv, key))"
  by pat_completeness auto
termination
  by (relation "measure (\<lambda>(i, j, hashv, key). length key)") auto

declare hash_jen_loop.simps [simp del]

text \<open>The cases of the \<^verbatim>\<open>switch\<close> fall through: case \<open>n\<close> adds the byte \<open>n - 1\<close>, for every
  \<open>n\<close> up to the number of bytes that are left.\<close>

definition user_tail_byte :: "u8 list \<Rightarrow> nat \<Rightarrow> nat \<Rightarrow> u32" where
  "user_tail_byte key n shift = (if n \<le> length key then push_bit shift (ucast (key ! (n - 1))) else 0)"

definition hash_jen :: "u8 list \<Rightarrow> u32 \<Rightarrow> u32" where
  "hash_jen key seed =
     (let (i, j, hashv, rest) = hash_jen_loop 0x9e3779b9 0x9e3779b9 seed key;
          hashv = hashv + of_nat (length key);
          hashv = hashv + user_tail_byte rest 11 24;
          hashv = hashv + user_tail_byte rest 10 16;
          hashv = hashv + user_tail_byte rest 9 8;
          j = j + user_tail_byte rest 8 24;
          j = j + user_tail_byte rest 7 16;
          j = j + user_tail_byte rest 6 8;
          j = j + user_tail_byte rest 5 0;
          i = i + user_tail_byte rest 4 24;
          i = i + user_tail_byte rest 3 16;
          i = i + user_tail_byte rest 2 8;
          i = i + user_tail_byte rest 1 0;
          (i, j, hashv) = HASH_JEN_MIX i j hashv
      in hashv)"

definition hash_string :: "u8 list \<Rightarrow> u32 option" where
  "hash_string str = do {
     n \<leftarrow> strlen str;
     Some (hash_jen (take n str) 0xfeedbeef)
   }"

definition hash_string_with_seed :: "u8 list \<Rightarrow> u32 \<Rightarrow> u32 option" where
  "hash_string_with_seed str seed = do {
     n \<leftarrow> strlen str;
     Some (hash_jen (take n str) seed)
   }"

section \<open>Output of one argument\<close>

definition user_MAX_NUMBER_PRINT_WIDTH :: nat where "user_MAX_NUMBER_PRINT_WIDTH = 32"
definition user_flag_zeropad :: u32 where "user_flag_zeropad = push_bit 0 1"
definition user_flag_hash :: u32 where "user_flag_hash = push_bit 1 1"

type_synonym printf_state = kprintf_state

definition user_SAFE_DECREMENT :: "u8 \<Rightarrow> u8 \<Rightarrow> u8" where
  "user_SAFE_DECREMENT a b = (if a > b then a - b else 0)"

text \<open>Each returns the number of characters and the characters.\<close>

definition printf_output_literal_percent :: "u32 \<times> u8 list" where
  "printf_output_literal_percent = (1, [37])"

definition printf_output_character :: "u8 \<Rightarrow> u32 \<times> u8 list" where
  "printf_output_character ch = (1, [ch])"

definition printf_output_string :: "u8 list \<Rightarrow> printf_state \<Rightarrow> u32 \<times> u8 list" where
  "printf_output_string str state =
     (let str = takeWhile (\<lambda>c. c \<noteq> 0) str;
          out = str @ replicate (unat (pad_width state) - length str) 32
      in (of_nat (length out), out))"

text \<open>The digits come out in reverse order. The caller's buffer is returned with their number.\<close>

function user_digits_loop :: "u32 \<Rightarrow> u8 \<Rightarrow> u8 list \<Rightarrow> nat \<Rightarrow> nat \<Rightarrow> (nat \<times> u8 list) option" where
  "user_digits_loop num base out digits max_length =
     (if base = 0 \<or> digits \<ge> length out then None
      else case to_ascii_hexadecimal_digit (ucast (num mod ucast base)) of
        None \<Rightarrow> None
      | Some d \<Rightarrow>
          if num div ucast base \<noteq> 0 \<and> Suc digits < max_length
          then user_digits_loop (num div ucast base) base (out[digits := d]) (Suc digits) max_length
          else Some (Suc digits, out[digits := d]))"
  by pat_completeness auto
termination
  by (relation "measure (\<lambda>(num, base, out, digits, max_length). max_length - digits)") auto

declare user_digits_loop.simps [simp del]

definition printf_base_less_eq_16_to_ascii :: "u32 \<Rightarrow> u8 \<Rightarrow> u8 list \<Rightarrow> nat \<Rightarrow> (nat \<times> u8 list) option" where
  "printf_base_less_eq_16_to_ascii num base out max_length = do {
     verify (base \<le> 16);
     user_digits_loop num base out 0 max_length
   }"

text \<open>\<open>buffer[length++] = ch\<close>; outside of the buffer the write has no defined result.\<close>

definition user_put_char :: "u8 \<Rightarrow> nat \<times> u8 list \<Rightarrow> (nat \<times> u8 list) option" where
  "user_put_char ch b = (case b of (n, buffer) \<Rightarrow>
     if n < length buffer then Some (Suc n, buffer[n := ch]) else None)"

text \<open>\<open>while (length < width) buffer[length++] = ch;\<close>\<close>

function user_pad_to :: "u8 \<Rightarrow> nat \<Rightarrow> nat \<times> u8 list \<Rightarrow> (nat \<times> u8 list) option" where
  "user_pad_to ch width b = (case b of (n, buffer) \<Rightarrow>
     if n < width
     then if n < length buffer then user_pad_to ch width (Suc n, buffer[n := ch]) else None
     else Some (n, buffer))"
  by pat_completeness auto
termination
  by (relation "measure (\<lambda>(ch, width, n, buffer). width - n)") auto

declare user_pad_to.simps [simp del]

definition printf_format_and_output_number ::
  "u32 \<Rightarrow> u8 \<Rightarrow> bool \<Rightarrow> printf_state \<Rightarrow> (u32 \<times> u8 list) option" where
  "printf_format_and_output_number num base is_negative state =
     (if base > 16 then Some (unsigned_of_long (- EINVAL), [])
      else do {
        b \<leftarrow> printf_base_less_eq_16_to_ascii num base (replicate user_MAX_NUMBER_PRINT_WIDTH 0) user_MAX_NUMBER_PRINT_WIDTH;
        let pad = (if unat (pad_width state) > user_MAX_NUMBER_PRINT_WIDTH
                   then of_nat user_MAX_NUMBER_PRINT_WIDTH else pad_width state);
        let zeropad = flags state AND user_flag_zeropad \<noteq> 0;
        let hash = flags state AND user_flag_hash \<noteq> 0;
        let pad = (if zeropad \<and> hash then user_SAFE_DECREMENT pad 2 else pad);
        let pad = (if zeropad \<and> is_negative then user_SAFE_DECREMENT pad 1 else pad);
        b \<leftarrow> (if zeropad then user_pad_to 48 (unat pad) b else Some b);
        b \<leftarrow> (if hash
              then do {
                b \<leftarrow> (if base = 16 then user_put_char 120 b else if base = 2 then user_put_char 98 b else Some b);
                user_put_char 48 b
              }
              else Some b);
        b \<leftarrow> (if is_negative then user_put_char 45 b else Some b);
        b \<leftarrow> user_pad_to 32 (unat pad) b;
        Some (of_nat (fst b), rev (take (fst b) (snd b)))
      })"

section \<open>Format specifiers\<close>

text \<open>Returns the number of characters or the negated error code, the characters and the state.\<close>

definition printf_handle_format_specifier :: "printf_state \<Rightarrow> (int \<times> u8 list \<times> printf_state) option" where
  "printf_handle_format_specifier state =
     (let c = peek (position state) in
      if c = 0 then Some (- EINVAL, [], state)
      else if c = 112 \<and> flags state AND user_flag_zeropad \<noteq> 0 then Some (- EINVAL, [], state)
      else if c = 37
      then (case printf_output_literal_percent of (n, out) \<Rightarrow> Some (long_of_unsigned n, out, state))
      else if c = 99
      then do {
        (w, state) \<leftarrow> va_arg_number state;
        let (n, out) = printf_output_character (ucast w);
        Some (long_of_unsigned n, out, state)
      }
      else if c = 115
      then do {
        (str, state) \<leftarrow> va_arg_string state;
        let (n, out) = printf_output_string str state;
        Some (long_of_unsigned n, out, state)
      }
      else if c = 98
      then do {
        (w, state) \<leftarrow> va_arg_number state;
        (n, out) \<leftarrow> printf_format_and_output_number w 2 False state;
        Some (long_of_unsigned n, out, state)
      }
      else if c = 120
      then do {
        (w, state) \<leftarrow> va_arg_number state;
        (n, out) \<leftarrow> printf_format_and_output_number w 16 False state;
        Some (long_of_unsigned n, out, state)
      }
      else if c = 112
      then do {
        let state = state\<lparr>flags := flags state OR user_flag_hash\<rparr>;
        (w, state) \<leftarrow> va_arg_number state;
        (n, out) \<leftarrow> printf_format_and_output_number w 16 False state;
        Some (long_of_unsigned n, out, state)
      }
      else if c = 117
      then do {
        (w, state) \<leftarrow> va_arg_number state;
        (n, out) \<leftarrow> printf_format_and_output_number w 10 False state;
        Some (long_of_unsigned n, out, state)
      }
      else if c = 105
      then do {
        (w, state) \<leftarrow> va_arg_number state;
        let num = long_of_unsigned w;
        let is_negative = num < 0;
        num \<leftarrow> (if is_negative then long (- num) else Some num);
        (n, out) \<leftarrow> printf_format_and_output_number (unsigned_of_long num) 10 is_negative state;
        Some (long_of_unsigned n, out, state)
      }
      else Some (- EINVAL, [], state))"

fun user_set_flags_loop :: "u8 list \<Rightarrow> u32 \<Rightarrow> u8 list \<times> u32" where
  "user_set_flags_loop [] fl = ([], fl)"
| "user_set_flags_loop (c # p) fl =
     (if c = 48 then user_set_flags_loop p (fl OR user_flag_zeropad)
      else if c = 35 then user_set_flags_loop p (fl OR user_flag_hash)
      else (c # p, fl))"

definition printf_set_flags :: "printf_state \<Rightarrow> printf_state" where
  "printf_set_flags state =
     (let (p, fl) = user_set_flags_loop (position state) (flags state)
      in state\<lparr>position := p, flags := fl\<rparr>)"

text \<open>\<open>Inl\<close> is the error return.\<close>

fun user_pad_width_loop :: "u8 list \<Rightarrow> u8 \<Rightarrow> (u8 list + u8 list \<times> u8) option" where
  "user_pad_width_loop [] converted = Some (Inr ([], converted))"
| "user_pad_width_loop (c # p) converted =
     (if is_ascii_decimal_digit c
      then do {
        digit \<leftarrow> parse_ascii_decimal_digit c;
        if uint converted * 10 + uint digit > 255 then Some (Inl (c # p))
        else user_pad_width_loop p (converted * 10 + digit)
      }
      else Some (Inr (c # p, converted)))"

definition printf_set_pad_width :: "printf_state \<Rightarrow> (int \<times> printf_state) option" where
  "printf_set_pad_width state = do {
     r \<leftarrow> user_pad_width_loop (position state) 0;
     case r of
       Inl p \<Rightarrow> Some (- EINVAL, state\<lparr>position := p\<rparr>)
     | Inr (p, converted) \<Rightarrow> Some (0, state\<lparr>position := p, pad_width := converted\<rparr>)
   }"

definition printf_initialize_state :: "u8 list \<Rightarrow> argument list \<Rightarrow> printf_state" where
  "printf_initialize_state format args = \<lparr>arguments = args, position = format, flags = 0, pad_width = 0\<rparr>"

definition printf_reset_state :: "printf_state \<Rightarrow> printf_state" where
  "printf_reset_state state = state\<lparr>flags := 0, pad_width := 0\<rparr>"

section \<open>The whole format\<close>

text \<open>From behind a percent sign to its specifier: the result of the specifier, or the error of
  the field width.\<close>

definition printf_directive :: "printf_state \<Rightarrow> (int \<times> u8 list \<times> printf_state) option" where
  "printf_directive state = do {
     let state = printf_set_flags state;
     (ret, state) \<leftarrow> printf_set_pad_width state;
     if ret < 0 then Some (ret, [], state)
     else printf_handle_format_specifier state
   }"


section \<open>The copies agree\<close>

lemma strlen_eq: "strlen = k_strlen"
proof
  show "strlen s = k_strlen s" for s by (induction s) simp_all
qed

lemma ascii_eq:
  "is_ascii_decimal_digit = k_is_ascii_decimal_digit" "parse_ascii_decimal_digit = k_parse_ascii_decimal_digit"
  "to_ascii_hexadecimal_digit = k_to_ascii_hexadecimal_digit" "is_uppercase = k_is_uppercase"
  by (intro ext, simp add: is_ascii_decimal_digit_def k_is_ascii_decimal_digit_def
      parse_ascii_decimal_digit_def k_parse_ascii_decimal_digit_def to_ascii_hexadecimal_digit_def
      k_to_ascii_hexadecimal_digit_def is_uppercase_def k_is_uppercase_def)+

lemma hash_parts_eq: "HASH_JEN_MIX = K_HASH_JEN_MIX" "user_key_word = key_word" "user_tail_byte = tail_byte"
  by (intro ext, simp only: HASH_JEN_MIX_def K_HASH_JEN_MIX_def,
      intro ext, simp only: user_key_word_def key_word_def,
      intro ext, simp only: user_tail_byte_def tail_byte_def)

lemma hash_jen_loop_eq: "hash_jen_loop i j h key = k_hash_jen_loop i j h key"
proof (induction "length key" arbitrary: i j h key rule: less_induct)
  case less
  obtain i2 j2 h2 where m: "K_HASH_JEN_MIX (i + key_word key 0) (j + key_word key 4) (h + key_word key 8) = (i2, j2, h2)"
    by (rule prod_cases3)
  show ?case
  proof (cases "12 \<le> length key")
    case True
    then have "hash_jen_loop i2 j2 h2 (drop 12 key) = k_hash_jen_loop i2 j2 h2 (drop 12 key)"
      by (intro less.hyps) simp
    with True show ?thesis
      unfolding hash_jen_loop.simps [of i j h key] k_hash_jen_loop.simps [of i j h key] hash_parts_eq Let_def m by simp
  next
    case False
    then show ?thesis
      unfolding hash_jen_loop.simps [of i j h key] k_hash_jen_loop.simps [of i j h key] by simp
  qed
qed

lemma hash_eq: "hash_jen = k_hash_jen" "hash_string = k_hash_string" "hash_string_with_seed = k_hash_string_with_seed"
proof -
  show j: "hash_jen = k_hash_jen"
    by (intro ext) (simp only: hash_jen_def k_hash_jen_def hash_parts_eq hash_jen_loop_eq)
  show "hash_string = k_hash_string" "hash_string_with_seed = k_hash_string_with_seed"
    by (intro ext, simp only: hash_string_def k_hash_string_def hash_string_with_seed_def k_hash_string_with_seed_def
        strlen_eq j)+
qed

lemma user_flags_eq: "user_flag_zeropad = flag_zeropad" "user_flag_hash = flag_hash"
  "user_MAX_NUMBER_PRINT_WIDTH = MAX_NUMBER_PRINT_WIDTH" "user_SAFE_DECREMENT = SAFE_DECREMENT" "EINVAL = K_EINVAL"
  by (simp_all add: user_flag_zeropad_def flag_zeropad_def user_flag_hash_def flag_hash_def
      user_MAX_NUMBER_PRINT_WIDTH_def MAX_NUMBER_PRINT_WIDTH_def user_SAFE_DECREMENT_def SAFE_DECREMENT_def
      fun_eq_iff EINVAL_def K_EINVAL_def)

lemma user_digits_loop_eq: "user_digits_loop num base out digits limit = digits_loop num base out digits limit"
proof (induction num base out digits limit rule: digits_loop.induct)
  case (1 num base out digits limit)
  then show ?case
    unfolding user_digits_loop.simps [of num base out digits limit] digits_loop.simps [of num base out digits limit] ascii_eq
    by (auto split: option.splits)
qed

lemma user_pad_to_eq: "user_pad_to ch width b = pad_to ch width b"
proof (induction ch width b rule: pad_to.induct)
  case (1 ch width b)
  then show ?case
    unfolding user_pad_to.simps [of ch width b] pad_to.simps [of ch width b] by (auto split: prod.splits)
qed

lemma user_put_char_eq: "user_put_char = put_char"
  by (intro ext) (simp only: user_put_char_def put_char_def)

lemma number_eq: "printf_format_and_output_number = kprintf_format_and_output_number"
  by (intro ext) (simp only: printf_format_and_output_number_def kprintf_format_and_output_number_def
      printf_base_less_eq_16_to_ascii_def kprintf_base_less_eq_16_to_ascii_def user_flags_eq
      user_digits_loop_eq user_pad_to_eq user_put_char_eq)

lemma specifier_eq: "printf_handle_format_specifier = kprintf_handle_format_specifier"
  by (intro ext) (simp only: printf_handle_format_specifier_def kprintf_handle_format_specifier_def number_eq
      user_flags_eq printf_output_literal_percent_def kprintf_output_literal_percent_def
      printf_output_character_def kprintf_output_character_def printf_output_string_def kprintf_output_string_def)

lemma user_set_flags_loop_eq: "user_set_flags_loop p fl = set_flags_loop p fl"
  by (induction p fl rule: set_flags_loop.induct) (simp_all add: user_flags_eq)

lemma user_pad_width_loop_eq: "user_pad_width_loop p n = pad_width_loop p n"
proof (induction p n rule: pad_width_loop.induct)
  case (2 c p n)
  then show ?case
    by (cases "k_parse_ascii_decimal_digit c") (simp_all add: ascii_eq)
qed simp

lemma directive_eq: "printf_directive = kprintf_directive"
  by (intro ext) (simp only: printf_directive_def kprintf_directive_def specifier_eq printf_set_flags_def kprintf_set_flags_def
      printf_set_pad_width_def kprintf_set_pad_width_def user_set_flags_loop_eq user_pad_width_loop_eq user_flags_eq)

lemma reset_eq: "printf_reset_state = kprintf_reset_state"
  by (intro ext) (simp only: printf_reset_state_def kprintf_reset_state_def)

section \<open>The whole format\<close>

function printf_loop :: "printf_state \<Rightarrow> int \<Rightarrow> (int \<times> u8 list) option" where
  "printf_loop state chars_written =
     (if peek (position state) = 0 then Some (chars_written, [])
      else if peek (position state) = 37
      then (case printf_directive (advance state) of
              None \<Rightarrow> None
            | Some (ret, out, state') \<Rightarrow>
                if ret < 0 then Some (ret, out)
                else (case long (chars_written + ret) of
                        None \<Rightarrow> None
                      | Some chars_written' \<Rightarrow>
                          map_option (\<lambda>(r, rest). (r, out @ rest))
                            (printf_loop (advance (printf_reset_state state')) chars_written')))
      else (case long (chars_written + 1) of
              None \<Rightarrow> None
            | Some chars_written' \<Rightarrow>
                map_option (\<lambda>(r, rest). (r, peek (position state) # rest))
                  (printf_loop (advance state) chars_written')))"
  by pat_completeness auto
termination
proof (relation "measure (\<lambda>(state, n). length (position state))", goal_cases)
  case (2 state n x ret y out state' n')
  then have "length (position state') \<le> length (tl (position state))"
    using kprintf_directive_position [of "advance state"] by (auto simp: directive_eq advance_def)
  moreover have "position state \<noteq> []" using 2(1) by (auto simp: peek_def)
  ultimately show ?case
    by (cases "position state"; cases "position state'") (auto simp: advance_def reset_eq kprintf_reset_state_def)
next
  case (3 state n n')
  then show ?case by (cases "position state") (auto simp: peek_def advance_def)
qed simp

declare printf_loop.simps [simp del]

text \<open>The result and the characters that are sent.\<close>

definition printf_output :: "u8 list \<Rightarrow> argument list \<Rightarrow> (int \<times> u8 list) option" where
  "printf_output format args = printf_loop (printf_initialize_state format args) 0"


lemma printf_loop_eq: "printf_loop state n = kprintf_loop state n"
proof (induction state n rule: kprintf_loop.induct)
  case (1 state n)
  then show ?case
    unfolding printf_loop.simps [of state n] kprintf_loop.simps [of state n]
    by (auto simp: directive_eq reset_eq split: option.splits prod.splits)
qed

lemma printf_output_eq: "printf_output format args = kprintf_output format args"
  by (simp add: printf_output_def kprintf_output_def printf_loop_eq printf_initialize_state_def kprintf_initialize_state_def)

end
