(* ===== verification/User_Log.thy ===== *)
theory User_Log
  imports Log User_Color User_Text
begin

text \<open>
  \<^verbatim>\<open>include/user/lib/debug.h\<close>: the log macros of the library for user programs. They print what the
  kernel's macros print, except that a panic ends the thread instead of the system and, unlike the
  kernel's, does not end the line before its notice.
\<close>

section \<open>Definitions\<close>

definition user_PANIC_LEVEL :: int where "user_PANIC_LEVEL = 0"
definition user_WARNING_LEVEL :: int where "user_WARNING_LEVEL = 1"
definition user_DEBUG_LEVEL :: int where "user_DEBUG_LEVEL = 2"

definition user_default_module :: log_module where
  "user_default_module = \<lparr>LOG_LABEL = bytes ''Unknown'', LOG_LEVEL = user_DEBUG_LEVEL, LOG_COLORED_OUTPUT = True\<rparr>"

definition user_ESC_RESET_COLOR :: "u8 list" where
  "user_ESC_RESET_COLOR = 27 # bytes ''[0m''"

definition user_debug_warning_color :: rgb_color where
  "user_debug_warning_color = \<lparr>red = 249, green = 115, blue = 31\<rparr>"

definition user_debug_panic_color :: rgb_color where
  "user_debug_panic_color = \<lparr>red = 236, green = 55, blue = 19\<rparr>"

definition user_HUE_SEED :: u32 where "user_HUE_SEED = 0xf9136546"
definition user_SATURATION_SEED :: u32 where "user_SATURATION_SEED = 0x70b5bb43"
definition user_LIGHTNESS_SEED :: u32 where "user_LIGHTNESS_SEED = 0x8a4ef7c5"

definition user_clamped_hash :: "u8 list \<Rightarrow> u32 \<Rightarrow> int option" where
  "user_clamped_hash name seed = do {
     h \<leftarrow> hash_string_with_seed (name @ [0]) seed;
     c \<leftarrow> clamp_unsigned h 0 (unsigned_of_long LONG_MAX);
     Some (long_of_unsigned c)
   }"

definition user_INITIALISE_MODULE_COLOR_ONCE :: "log_module \<Rightarrow> log_state \<Rightarrow> log_state option" where
  "user_INITIALISE_MODULE_COLOR_ONCE m st =
     (if \<not> initialised_module_color st
      then do {
        hue_hash \<leftarrow> user_clamped_hash (LOG_LABEL m) user_HUE_SEED;
        saturation_hash \<leftarrow> user_clamped_hash (LOG_LABEL m) user_SATURATION_SEED;
        lightness_hash \<leftarrow> user_clamped_hash (LOG_LABEL m) user_LIGHTNESS_SEED;
        h \<leftarrow> project_long_onto_range hue_hash 0 359;
        s \<leftarrow> project_long_onto_range saturation_hash 70 90;
        l \<leftarrow> project_long_onto_range lightness_hash 50 80;
        rgb \<leftarrow> hsl_to_rgb \<lparr>hue = word_of_int h, saturation = word_of_int s, lightness = word_of_int l\<rparr>;
        Some (st\<lparr>label_color := rgb, initialised_module_color := True\<rparr>)
      }
      else Some st)"

text \<open>A \<^verbatim>\<open>printf\<close> whose return value is dropped.\<close>

definition user_print :: "u8 list \<Rightarrow> argument list \<Rightarrow> u8 list option" where
  "user_print format args = map_option snd (printf_output format args)"

definition user_PRINT_COLORED :: "u8 list \<Rightarrow> rgb_color \<Rightarrow> u8 list option" where
  "user_PRINT_COLORED str color =
     user_print (27 # bytes ''[38;2;%u;%u;%um'' @ str @ user_ESC_RESET_COLOR)
       [Number (ucast (red color)), Number (ucast (green color)), Number (ucast (blue color))]"

definition user_PRINT_COLORED_LABEL :: "log_module \<Rightarrow> log_state \<Rightarrow> (u8 list \<times> log_state) option" where
  "user_PRINT_COLORED_LABEL m st = do {
     st \<leftarrow> user_INITIALISE_MODULE_COLOR_ONCE m st;
     a \<leftarrow> user_PRINT_COLORED (bytes ''('' @ LOG_LABEL m @ bytes '') '') (label_color st);
     Some (a, st)
   }"

definition dbgln :: "log_module \<Rightarrow> u8 list \<Rightarrow> argument list \<Rightarrow> log_state \<Rightarrow> (u8 list \<times> log_state) option" where
  "dbgln m format args st =
     (if LOG_LEVEL m \<ge> user_DEBUG_LEVEL
      then if LOG_COLORED_OUTPUT m
        then do {
          (a, st) \<leftarrow> user_PRINT_COLORED_LABEL m st;
          b \<leftarrow> user_print format args;
          c \<leftarrow> user_print [10] [];
          Some (a @ b @ c, st)
        }
        else do {
          a \<leftarrow> user_print (bytes ''('' @ LOG_LABEL m @ bytes '') '') [];
          b \<leftarrow> user_print format args;
          c \<leftarrow> user_print [10] [];
          Some (a @ b @ c, st)
        }
      else Some ([], st))"

definition warnln :: "log_module \<Rightarrow> u8 list \<Rightarrow> argument list \<Rightarrow> log_state \<Rightarrow> (u8 list \<times> log_state) option" where
  "warnln m format args st =
     (if LOG_LEVEL m \<ge> user_WARNING_LEVEL
      then if LOG_COLORED_OUTPUT m
        then do {
          w \<leftarrow> user_PRINT_COLORED (bytes ''[WARNING] '') user_debug_warning_color;
          (a, st) \<leftarrow> user_PRINT_COLORED_LABEL m st;
          b \<leftarrow> user_print format args;
          c \<leftarrow> user_print [10] [];
          Some (w @ a @ b @ c, st)
        }
        else do {
          a \<leftarrow> user_print (bytes ''[WARNING] ('' @ LOG_LABEL m @ bytes '') '') [];
          b \<leftarrow> user_print format args;
          c \<leftarrow> user_print [10] [];
          Some (a @ b @ c, st)
        }
      else Some ([], st))"

text \<open>Behind a panic the thread has ended with \<^verbatim>\<open>sys$exit_thread\<close>. Below the level of panics the header defines an
  empty \<^verbatim>\<open>panic\<close> instead of \<^verbatim>\<open>panicln\<close>, so that there is no such macro then.\<close>

datatype user_continuation = Exits

definition panicln ::
  "log_module \<Rightarrow> u8 list \<Rightarrow> argument list \<Rightarrow> log_state \<Rightarrow> (u8 list \<times> log_state \<times> user_continuation) option" where
  "panicln m format args st =
     (if LOG_LEVEL m \<ge> user_PANIC_LEVEL
      then if LOG_COLORED_OUTPUT m
        then do {
          p \<leftarrow> user_PRINT_COLORED (bytes ''[PANIC] '') user_debug_panic_color;
          (a, st) \<leftarrow> user_PRINT_COLORED_LABEL m st;
          b \<leftarrow> user_print format args;
          c \<leftarrow> user_print (bytes ''Exiting from thread.'' @ [10]) [];
          Some (p @ a @ b @ c, st, Exits)
        }
        else do {
          a \<leftarrow> user_print (bytes ''[PANIC] ('' @ LOG_LABEL m @ bytes '') '') [];
          b \<leftarrow> user_print format args;
          c \<leftarrow> user_print (bytes ''Exiting from thread.'' @ [10]) [];
          Some (a @ b @ c, st, Exits)
        }
      else None)"

section \<open>Agreement with the kernel\<close>

lemma user_log_eqs:
  "user_print = print" "user_PRINT_COLORED = PRINT_COLORED" "user_clamped_hash = clamped_hash"
  "user_debug_warning_color = debug_warning_color" "user_debug_panic_color = debug_panic_color"
  "user_HUE_SEED = HUE_SEED" "user_SATURATION_SEED = SATURATION_SEED" "user_LIGHTNESS_SEED = LIGHTNESS_SEED"
  "user_PANIC_LEVEL = PANIC_LEVEL" "user_WARNING_LEVEL = WARNING_LEVEL" "user_DEBUG_LEVEL = DEBUG_LEVEL"
  "user_default_module = default_module"
proof -
  show p: "user_print = print"
    by (intro ext) (simp add: user_print_def print_def printf_output_eq)
  show "user_PRINT_COLORED = PRINT_COLORED"
    by (intro ext) (simp add: user_PRINT_COLORED_def PRINT_COLORED_def p user_ESC_RESET_COLOR_def ESC_RESET_COLOR_def)
  show "user_clamped_hash = clamped_hash"
    by (intro ext) (simp add: user_clamped_hash_def clamped_hash_def hash_eq user_math_eq)
qed (simp_all add: user_debug_warning_color_def debug_warning_color_def user_debug_panic_color_def
  debug_panic_color_def user_HUE_SEED_def HUE_SEED_def user_SATURATION_SEED_def SATURATION_SEED_def
  user_LIGHTNESS_SEED_def LIGHTNESS_SEED_def level_defs user_PANIC_LEVEL_def user_WARNING_LEVEL_def
  user_DEBUG_LEVEL_def user_default_module_def default_module_def)

lemma label_refines: "refines (user_PRINT_COLORED_LABEL m st) (PRINT_COLORED_LABEL m st)"
  unfolding user_PRINT_COLORED_LABEL_def PRINT_COLORED_LABEL_def user_INITIALISE_MODULE_COLOR_ONCE_def
    INITIALISE_MODULE_COLOR_ONCE_def user_log_eqs
  by (intro refines_bind refines_if project_refines hsl_refines refines_refl)

text \<open>Every message that is printed is the one the kernel prints for the same module.\<close>

lemma user_messages_agree:
  "refines (dbgln m format args st) (kdbgln m format args st)"
  "refines (warnln m format args st) (kwarnln m format args st)"
  unfolding dbgln_def kdbgln_def warnln_def kwarnln_def user_log_eqs
  by (intro refines_bind refines_if refines_prod label_refines refines_refl)+

text \<open>A panic prints the message, its notice on the same line, and ends the thread.\<close>

lemma user_panic:
  assumes "printable (LOG_LABEL m)" "print format args = Some str" "panicln m format args st = Some (out, st', k)"
  shows "out = tag_text m debug_panic_color (bytes ''[PANIC] '') @ label_text m st' @ str @ bytes ''Exiting from thread.'' @ [10]"
    "k = Exits"
proof -
  have notice: "print (bytes ''Exiting from thread.'' @ [10]) [] = Some (bytes ''Exiting from thread.'' @ [10])"
    by (simp add: print_plain bytes_def)
  have level: "PANIC_LEVEL \<le> LOG_LEVEL m"
    using assms(3) by (simp add: panicln_def user_log_eqs split: if_splits)
  show "out = tag_text m debug_panic_color (bytes ''[PANIC] '') @ label_text m st' @ str @ bytes ''Exiting from thread.'' @ [10]"
  proof (cases "LOG_COLORED_OUTPUT m")
    case True
    obtain a where a: "user_PRINT_COLORED_LABEL m st = Some (a, st')"
      using assms(3) level True by (auto simp: panicln_def user_log_eqs Option.bind_eq_Some_conv)
    then have "PRINT_COLORED_LABEL m st = Some (a, st')" using label_refines by (auto simp: refines_def)
    then have "a = label_text m st'"
      using True assms(1) by (auto simp: PRINT_COLORED_LABEL_def label_text_def label_printable Let_def Option.bind_eq_Some_conv)
    then show ?thesis
      using assms(2,3) level True a by (auto simp: panicln_def user_log_eqs notice tag_text_def tags_printable)
  next
    case False
    then show ?thesis
      using assms level by (auto simp: panicln_def user_log_eqs notice tag_text_def label_text_def label_printable Let_def)
  qed
  show "k = Exits" by (cases k)
qed

end
