(* ===== verification/Label_Colors.thy ===== *)
theory Label_Colors
  imports Start User_Log
begin

text \<open>
  The colours of concrete log labels, computed from their hashes. The colour of the label \<^verbatim>\<open>Color\<close> has no defined
  value, so a kernel that shows the colours of its modules at its start, as it does unless colours are
  switched off, runs into a signed overflow before it reaches its idle loop. The label of the user library's \<^verbatim>\<open>printf.c\<close> has none either.
\<close>

section \<open>Evaluation of hashes\<close>

text \<open>The nine steps of the mixing, one at a time, so that each works on numerals.\<close>

fun mix_a :: "nat \<Rightarrow> u32 \<times> u32 \<times> u32 \<Rightarrow> u32 \<times> u32 \<times> u32" where
  "mix_a n (a, b, c) = ((a - b - c) XOR drop_bit n c, b, c)"

fun mix_b :: "nat \<Rightarrow> u32 \<times> u32 \<times> u32 \<Rightarrow> u32 \<times> u32 \<times> u32" where
  "mix_b n (a, b, c) = (a, (b - c - a) XOR push_bit n a, c)"

fun mix_c :: "nat \<Rightarrow> u32 \<times> u32 \<times> u32 \<Rightarrow> u32 \<times> u32 \<times> u32" where
  "mix_c n (a, b, c) = (a, b, (c - a - b) XOR drop_bit n b)"

lemma mix_steps:
  "K_HASH_JEN_MIX a b c =
    mix_c 15 (mix_b 10 (mix_a 3 (mix_c 5 (mix_b 16 (mix_a 12 (mix_c 13 (mix_b 8 (mix_a 13 (a, b, c)))))))))"
  unfolding K_HASH_JEN_MIX_def Let_def mix_a.simps mix_b.simps mix_c.simps by (rule refl)

text \<open>A label of at most eleven characters is hashed in one block.\<close>

lemma short_hash:
  assumes "length s < 12"
  shows "k_hash_jen s seed =
    snd (snd (K_HASH_JEN_MIX
      (0x9e3779b9 + tail_byte s 4 24 + tail_byte s 3 16 + tail_byte s 2 8 + tail_byte s 1 0)
      (0x9e3779b9 + tail_byte s 8 24 + tail_byte s 7 16 + tail_byte s 6 8 + tail_byte s 5 0)
      (seed + of_nat (length s) + tail_byte s 11 24 + tail_byte s 10 16 + tail_byte s 9 8)))"
  using assms by (simp add: k_hash_jen_def k_hash_jen_loop.simps Let_def case_prod_beta)

lemma hash_color: "k_hash_jen (bytes ''Color'') SATURATION_SEED = 1418277474"
  by (simp add: short_hash bytes_def tail_byte_def SATURATION_SEED_def mix_steps)

lemma hash_printf: "k_hash_jen (bytes ''printf'') LIGHTNESS_SEED = 1641697147"
  by (simp add: short_hash bytes_def tail_byte_def LIGHTNESS_SEED_def mix_steps)

section \<open>Labels without a colour\<close>

lemma clamped_hash_small:
  assumes "k_hash_jen name seed = h" "h \<le> 0x7FFFFFFF" "0 \<notin> set name"
  shows "clamped_hash name seed = Some (uint h)"
proof -
  have "unsigned_of_long LONG_MAX = 0x7FFFFFFF" "(0::u32) < 0x7FFFFFFF" by code_simp+
  moreover have "long_of_unsigned h = uint h"
    unfolding long_of_unsigned_def sint_uint
  proof (rule signed_take_bit_int_eq_self)
    show "- (2 ^ (LENGTH(32) - Suc 0)) \<le> uint h" by (rule order_trans [OF _ uint_ge_0]) simp
    show "uint h < 2 ^ (LENGTH(32) - Suc 0)" using assms(2) by (simp add: word_le_def)
  qed
  ultimately show ?thesis
    using k_hash_string_eq [OF assms(3), of "[]" seed] assms(1,2)
    by (auto simp: clamped_hash_def k_clamp_unsigned_def)
qed

lemma color_saturation: "clamped_hash (bytes ''Color'') SATURATION_SEED = Some 1418277474"
  using clamped_hash_small [OF hash_color] by (simp add: bytes_def)

lemma printf_lightness: "clamped_hash (bytes ''printf'') LIGHTNESS_SEED = Some 1641697147"
  using clamped_hash_small [OF hash_printf] by (simp add: bytes_def)

text \<open>The least common multiple in \<open>k_fraction_add\<close> exceeds a \<^verbatim>\<open>long\<close> in both projections.\<close>

lemma projection_overflows:
  "k_project_long_onto_range 1418277474 70 90 = None" "k_project_long_onto_range 1641697147 50 80 = None"
  by code_simp+

lemma color_undefined: "module_color (bytes ''Color'') = None"
  by (simp add: module_color_def color_saturation projection_overflows)

lemma preview_undefined: "preview_module_colors = None"
proof -
  have "for_upto 0 (length modules) preview_module a = None" for a
    by (rule for_upto_None [of _ 4]) (simp_all add: modules_def preview_module_def color_undefined)
  then show ?thesis by (simp add: preview_module_colors_def Option.bind_eq_None_conv)
qed

text \<open>So the start of the default build, which shows the colours, has no defined result.\<close>

lemma coloured_start: "start_kernel True e buffer mmu m f c d = None"
  by (simp add: start_kernel_def preview_undefined Option.bind_eq_None_conv case_prod_beta)

text \<open>The same happens to the first message of the user library's \<^verbatim>\<open>printf.c\<close>.\<close>

lemma printf_undefined:
  assumes "LOG_LABEL m = bytes ''printf''" "\<not> initialised_module_color st"
  shows "user_INITIALISE_MODULE_COLOR_ONCE m st = None"
proof -
  have "project_long_onto_range 1641697147 50 80 = None"
    using project_refines [of 1641697147 50 80] projection_overflows(2)
    by (cases "project_long_onto_range 1641697147 50 80") (simp_all add: refines_def)
  then show ?thesis
    using assms by (simp add: user_INITIALISE_MODULE_COLOR_ONCE_def user_log_eqs printf_lightness)
qed

end
