(* ===== verification/Register_Check.thy ===== *)
theory Register_Check
  imports Log
begin

text \<open>
  \<^verbatim>\<open>kernel/regcheck.c\<close>: a self-test of the exception stubs that can be called instead of the kernel's main
  program. It announces each check and runs it; the checks themselves are endurance loops in
  \<^verbatim>\<open>arch/cpu/regcheck_asm.S\<close>, which end in an undefined instruction when a register changes. What is modelled is
  which checks run, in which order, with which texts.
\<close>

section \<open>Definitions\<close>

datatype check = check_return_jump | check_registers | check_cpsr | check_spsr

datatype check_event = Prints "u8 list" | Runs check

definition introduction :: "u8 list" where
  "introduction =
    [10] @ bytes ''Bitte sicherstellen, dass waehrend der Tests Interrupts in ausreichender'' @ [10] @
      bytes ''Menge auftreten und auch durch euch behandelt werden!'' @ [10, 10] @
      bytes ''Die Dauer jedes Tests ist angegeben. Weicht sie stark ab, habt ihr'' @ [10] @
      bytes ''wahrscheinlich ein nicht durch die Tests abgedecktes Problem. (Zudem haengen'' @ [10] @
      bytes ''CPSR- und General-Purpose-Register-Test sehr voneinander ab: CPSR-Test braucht'' @ [10] @
      bytes ''Register, Register-Test brauch Flags. Also Registerdump kritisch betrachten.)'' @ [10, 10] @
      bytes ''Wenn eine Missstand festgestellt wird, wird eine Undef-Exception ausgel'' @ [195, 182] @
      bytes ''st.'' @ [10] @
      bytes ''Mittels objdump, Quellen und Registersatz sollte sich das Problem einkreisen'' @ [10] @
      bytes ''lassen.'' @ [10, 10] @ bytes ''(Alle Angaben ohne Gewaehr.)'' @ [10, 10]"

definition irq_mode_text :: "u8 list" where
  "irq_mode_text =
    bytes ''>>> Prozessor ist im IRQ-Modus => LR und SPSR verloren nach Interrupt'' @ [10] @
      bytes ''>>> (Insbesondere geht der R'' @ [195, 188] @
      bytes ''cksprung aus dem ersten Test schief.)'' @ [10, 10] @ bytes ''>>> Abbruch!'' @ [10]"

definition return_text :: "u8 list" where
  "return_text =
    bytes ''Pruefe richtige Ruecksprung-Adresse (ca. 5 Sekunden)'' @ [10]"

definition registers_text :: "u8 list" where
  "registers_text =
    bytes ''Pruefe auf Register-Aenderungen (R0-R14, ca. 10 Sekunden)'' @ [10]"

definition user_mode_text :: "u8 list" where
  "user_mode_text =
    [10] @ bytes ''>>> Prozessor ist im User-Modus => Keine Pruefung auf CPSR-Aenderungen,'' @ [10] @
      bytes ''>>> da dort Modus-Bits ge'' @ [195, 164] @ bytes ''ndert werden. (Wie w'' @ [195, 164] @
      bytes ''re es mit dem System-Modus?)'' @ [10, 10]"

definition cpsr_text :: "u8 list" where
  "cpsr_text =
    bytes ''Pruefe auf CPSR-Aenderungen (ca. 15 Sekunden)'' @ [10]"

definition no_spsr_text :: "u8 list" where
  "no_spsr_text =
    [10] @ bytes ''>>> Prozessor ist im User- oder System-Modus => Keine Pruefung auf SPSR-Aenderungen,'' @
      [10] @ bytes ''>>> da es dieses Register nicht gibt. (Wie w'' @ [195, 164] @
      bytes ''re es mit dem Supervisor-Modus?)'' @ [10, 10]"

definition spsr_text :: "u8 list" where
  "spsr_text =
    bytes ''Pruefe auf SPSR-Aenderungen (ca. 15 Sekunden)'' @ [10]"

definition done_text :: "u8 list" where
  "done_text =
    bytes ''Fertig! Es _scheint_ so, als wuerde es funktionieren.'' @ [10]"

lemmas check_texts = introduction_def irq_mode_text_def return_text_def registers_text_def user_mode_text_def
  cpsr_text_def no_spsr_text_def spsr_text_def done_text_def

text \<open>\<open>qemu\<close> is the preprocessor switch \<^verbatim>\<open>__QEMU__\<close>.\<close>

definition print_text :: "u8 list \<Rightarrow> check_event list option" where
  "print_text text = map_option (\<lambda>out. [Prints out]) (print text [])"

definition register_checker :: "bool \<Rightarrow> u32 \<Rightarrow> check_event list option" where
  "register_checker qemu status = do {
     let cpsr = status AND 0x1f;
     a \<leftarrow> print_text introduction;
     if cpsr = 0b10010
     then do {
       b \<leftarrow> print_text irq_mode_text;
       Some (a @ b)
     }
     else do {
       b \<leftarrow> print_text return_text;
       c \<leftarrow> print_text registers_text;
       d \<leftarrow> (if cpsr = 0b10000 then print_text user_mode_text
            else map_option (\<lambda>d. d @ [Runs check_cpsr]) (print_text cpsr_text));
       f \<leftarrow> (if cpsr = 0b10000 \<or> cpsr = 0b11111 then print_text no_spsr_text
            else map_option (\<lambda>f. f @ [Runs check_spsr]) (print_text spsr_text));
       g \<leftarrow> print_text done_text;
       Some (a @ b @ [Runs check_return_jump] @ c @ replicate (if qemu then 30 else 1) (Runs check_registers) @ d @ f @ g)
     }
   }"

section \<open>Which checks run\<close>

lemma texts_print:
  "print_text introduction = Some [Prints introduction]" "print_text irq_mode_text = Some [Prints irq_mode_text]"
  "print_text return_text = Some [Prints return_text]" "print_text registers_text = Some [Prints registers_text]"
  "print_text user_mode_text = Some [Prints user_mode_text]" "print_text cpsr_text = Some [Prints cpsr_text]"
  "print_text no_spsr_text = Some [Prints no_spsr_text]" "print_text spsr_text = Some [Prints spsr_text]"
  "print_text done_text = Some [Prints done_text]"
  by (simp_all add: print_text_def check_texts print_plain bytes_def)

fun checks_of :: "check_event list \<Rightarrow> check list" where
  "checks_of [] = []"
| "checks_of (Prints p # es) = checks_of es"
| "checks_of (Runs c # es) = c # checks_of es"

lemma checks_of_append [simp]: "checks_of (xs @ ys) = checks_of xs @ checks_of ys"
  by (induction xs rule: checks_of.induct) simp_all

lemma checks_of_replicate [simp]: "checks_of (replicate n (Runs c)) = replicate n c"
  by (induction n) simp_all

text \<open>In the mode of an interrupt nothing is checked, because the first check could not return; otherwise the return
  address and the registers are, the status outside of user mode only, and the saved status in the modes that have one.\<close>

lemma checks_by_mode:
  "\<exists>es. register_checker qemu status = Some es \<and>
    checks_of es =
      (let cpsr = status AND 0x1f; regs = check_return_jump # replicate (if qemu then 30 else 1) check_registers
       in if cpsr = 0x12 then [] else if cpsr = 0x10 then regs else if cpsr = 0x1f then regs @ [check_cpsr]
          else regs @ [check_cpsr, check_spsr])"
  by (simp add: register_checker_def texts_print Let_def)

end
