(* ===== verification/Exception_Stubs.thy ===== *)
theory Exception_Stubs
  imports Kernel_Reach
begin

text \<open>
  \<^verbatim>\<open>arch/cpu/interrupt_vector_table.S\<close> and \<^verbatim>\<open>user/lib/syscall.S\<close>: the code between an exception and its
  handler. A stub saves the sixteen registers below the stack pointer of the exception's mode, in the
  layout of the structure \<open>registers\<close>, calls the handler with their address, loads them back and returns with
  \<^verbatim>\<open>movs pc, lr\<close>. The memory of these stacks is a function from addresses to words.
\<close>

section \<open>Definitions\<close>

text \<open>What the stub sees of the processor: the general registers and the stack pointer and link register of
  the mode.\<close>

record exception_mode =
  exc_r :: "nat \<Rightarrow> u32"
  exc_sp :: u32
  exc_lr :: u32
  exc_stack :: "u32 \<Rightarrow> u32"

definition SAVED_REGS_COUNT :: nat where "SAVED_REGS_COUNT = 16"

text \<open>A store and a load of several registers: the lowest one is at the lowest address.\<close>

primrec store_words :: "u32 \<Rightarrow> (nat \<Rightarrow> u32) \<Rightarrow> nat \<Rightarrow> (u32 \<Rightarrow> u32) \<Rightarrow> (u32 \<Rightarrow> u32)" where
  "store_words a v 0 m = m"
| "store_words a v (Suc n) m = (store_words a v n m)(a + 4 * of_nat n := v n)"

text \<open>\<^verbatim>\<open>stmfd sp, {r0-r15}\<close>, without write back; what it stores for \<open>pc\<close> is \<open>stored_pc\<close>, an address in the
  stub, which depends on the processor.\<close>

definition stmfd_all :: "u32 \<Rightarrow> exception_mode \<Rightarrow> exception_mode" where
  "stmfd_all stored_pc x =
     x\<lparr>exc_stack := store_words (exc_sp x - of_nat (SAVED_REGS_COUNT * 4))
        (\<lambda>i. if i = 13 then exc_sp x else if i = 14 then exc_lr x else if i = 15 then stored_pc else exc_r x i)
        SAVED_REGS_COUNT (exc_stack x)\<rparr>"

text \<open>\<^verbatim>\<open>ldmfd sp, {r0-r14}\<close>\<close>

definition ldmfd_all :: "exception_mode \<Rightarrow> exception_mode" where
  "ldmfd_all x =
     x\<lparr>exc_r := (\<lambda>i. if i < 13 then exc_stack x (exc_sp x + 4 * of_nat i) else exc_r x i),
       exc_sp := exc_stack x (exc_sp x + 4 * 13), exc_lr := exc_stack x (exc_sp x + 4 * 14)\<rparr>"

text \<open>The structure \<open>registers\<close> at an address, as the handler reads and writes it.\<close>

definition registers_at :: "(u32 \<Rightarrow> u32) \<Rightarrow> u32 \<Rightarrow> registers" where
  "registers_at m a = \<lparr>general = (\<lambda>i. m (a + 4 * of_nat i)), sp = m (a + 4 * 13), lr = m (a + 4 * 14), pc = m (a + 4 * 15)\<rparr>"

definition write_registers :: "u32 \<Rightarrow> registers \<Rightarrow> (u32 \<Rightarrow> u32) \<Rightarrow> (u32 \<Rightarrow> u32)" where
  "write_registers a f m = store_words a (register_array f) SAVED_REGS_COUNT m"

text \<open>Two of the stubs correct the link register first.\<close>

definition corrects_lr :: "interrupt_type \<Rightarrow> bool" where
  "corrects_lr v \<longleftrightarrow> v = data_abort \<or> v = irq"

text \<open>The handler changes the frame; what it leaves in the rest of the stack is \<open>rest\<close>. The result is the
  state of the mode, the address that \<^verbatim>\<open>movs pc, lr\<close> continues at, and the kernel's state, whose \<^verbatim>\<open>SPSR\<close> it makes
  the status.\<close>

definition exception_stub ::
  "interrupt_type \<Rightarrow> u32 \<Rightarrow> (u32 \<Rightarrow> u32) \<Rightarrow> (kernel \<Rightarrow> kernel option) \<Rightarrow> exception_mode \<Rightarrow> kernel \<Rightarrow>
   (exception_mode \<times> u32 \<times> kernel) option" where
  "exception_stub v stored_pc rest handler x s = do {
     let x = (if corrects_lr v then x\<lparr>exc_lr := exc_lr x - 4\<rparr> else x);
     let x = stmfd_all stored_pc x;
     let x = x\<lparr>exc_sp := exc_sp x - of_nat (SAVED_REGS_COUNT * 4)\<rparr>;
     let a = exc_sp x;
     s \<leftarrow> handler (s\<lparr>frame := registers_at (exc_stack x) a\<rparr>);
     let x = x\<lparr>exc_stack := write_registers a (frame s) rest\<rparr>;
     let x = ldmfd_all x;
     Some (x, exc_lr x, s)
   }"

text \<open>The vector table. The entry for a reset goes to its handler without a stub, so the handler gets
  whatever is in \<open>r0\<close> as the address of the frame.\<close>

definition vector_handler :: "env \<Rightarrow> status \<Rightarrow> interrupt_type \<Rightarrow> kernel \<Rightarrow> kernel option" where
  "vector_handler e st v =
     (case v of
        reset \<Rightarrow> reset_interrupt_handler e st
      | undefined_instruction \<Rightarrow> undefined_instruction_interrupt_handler e st
      | software \<Rightarrow> software_interrupt_handler e st
      | prefetch_abort \<Rightarrow> prefetch_abort_interrupt_handler e st
      | data_abort \<Rightarrow> data_abort_interrupt_handler e st
      | irq \<Rightarrow> irq_interrupt_handler e)"

text \<open>The stubs of the system calls in the library for user programs: \<^verbatim>\<open>svc #n\<close>, then \<^verbatim>\<open>bx lr\<close>. An \<^verbatim>\<open>svc\<close> that is
  always executed has its number in the lower 24 bits. The numbers are those of the user's header.\<close>

datatype system_call = read_character | output_character | create_process | create_thread | stall_thread
  | exit_this_thread | get_time | get_thread_id

fun user_syscall_number :: "system_call \<Rightarrow> u32" where
  "user_syscall_number read_character = 1"
| "user_syscall_number output_character = 2"
| "user_syscall_number create_process = 3"
| "user_syscall_number create_thread = 4"
| "user_syscall_number stall_thread = 5"
| "user_syscall_number exit_this_thread = 6"
| "user_syscall_number get_time = 7"
| "user_syscall_number get_thread_id = 8"

definition system_call_stub :: "system_call \<Rightarrow> u32 list" where
  "system_call_stub c = [0xEF000000 OR user_syscall_number c, 0xE12FFF1E]"

text \<open>The number of a call in the kernel's header.\<close>

fun kernel_syscall_number :: "system_call \<Rightarrow> u32" where
  "kernel_syscall_number read_character = SYSCALL_READ_CHARACTER_NO"
| "kernel_syscall_number output_character = SYSCALL_OUTPUT_CHARACTER_NO"
| "kernel_syscall_number create_process = SYSCALL_CREATE_PROCESS_NO"
| "kernel_syscall_number create_thread = SYSCALL_CREATE_THREAD_NO"
| "kernel_syscall_number stall_thread = SYSCALL_STALL_THREAD_NO"
| "kernel_syscall_number exit_this_thread = SYSCALL_EXIT_THREAD_NO"
| "kernel_syscall_number get_time = SYSCALL_GET_TIME_NO"
| "kernel_syscall_number get_thread_id = SYSCALL_GET_THREAD_ID_NO"

section \<open>The frame\<close>

lemma store_words_other:
  "(\<And>i. i < n \<Longrightarrow> b \<noteq> a + 4 * of_nat i) \<Longrightarrow> store_words a v n m b = m b"
  by (induction n) (auto simp: less_Suc_eq)

lemma word_slots_distinct: "i < 16 \<Longrightarrow> j < 16 \<Longrightarrow> a + 4 * of_nat i = a + 4 * (of_nat j :: u32) \<Longrightarrow> i = j"
proof -
  assume le: "i < 16" "j < 16" and "a + 4 * of_nat i = a + 4 * (of_nat j :: u32)"
  then have "word_of_nat (4 * i) = (word_of_nat (4 * j) :: u32)" by simp
  then have "take_bit 32 (4 * i) = take_bit 32 (4 * j)" by (simp only: word_of_nat_eq_iff) simp
  with le show "i = j" by (simp add: take_bit_nat_eq_self)
qed

lemma store_words_at:
  assumes "i < n" "n \<le> 16"
  shows "store_words a v n m (a + 4 * of_nat i) = v i"
  using assms
proof (induction n)
  case (Suc n)
  then show ?case using word_slots_distinct [of i n a] by (cases "i = n") auto
qed simp

lemmas store_words_numerals =
  store_words_at [where n = 16 and i = 13, simplified] store_words_at [where n = 16 and i = 14, simplified]
  store_words_at [where n = 16 and i = 15, simplified]

lemma store_words_below:
  "store_words (a - 64) v 16 m (a - 12) = v 13" "store_words (a - 64) v 16 m (a - 8) = v 14"
  "store_words (a - 64) v 16 m (a - 4) = v 15"
  using store_words_numerals [where a = "a - 64"] by simp_all

lemma saved_frame:
  "registers_at (exc_stack (stmfd_all p x)) (exc_sp x - of_nat (SAVED_REGS_COUNT * 4)) =
    \<lparr>general = (\<lambda>i. exc_stack (stmfd_all p x) (exc_sp x - 64 + 4 * of_nat i)), sp = exc_sp x, lr = exc_lr x, pc = p\<rparr>"
  "i < 13 \<Longrightarrow> exc_stack (stmfd_all p x) (exc_sp x - 64 + 4 * of_nat i) = exc_r x i"
  by (simp_all add: registers_at_def stmfd_all_def SAVED_REGS_COUNT_def store_words_below store_words_at)

lemma restored_frame:
  fixes x :: exception_mode and f :: registers and m :: "u32 \<Rightarrow> u32"
  defines "y \<equiv> ldmfd_all (x\<lparr>exc_stack := write_registers (exc_sp x) f m\<rparr>)"
  shows "exc_sp y = sp f" "exc_lr y = lr f" "i < 13 \<Longrightarrow> exc_r y i = general f i"
  by (simp_all add: y_def ldmfd_all_def write_registers_def SAVED_REGS_COUNT_def store_words_numerals store_words_at
      register_array_def)

text \<open>What a stub does around any handler.\<close>

lemma exception_stub_result:
  assumes "exception_stub v p rest h x s = Some (x', a, s')"
  obtains g where "h (s\<lparr>frame := \<lparr>general = g, sp = exc_sp x,
      lr = (if corrects_lr v then exc_lr x - 4 else exc_lr x), pc = p\<rparr>\<rparr>) = Some s'"
    "\<And>i. i < 13 \<Longrightarrow> g i = exc_r x i" "exc_sp x' = sp (frame s')" "exc_lr x' = lr (frame s')" "a = lr (frame s')"
    "\<And>i. i < 13 \<Longrightarrow> exc_r x' i = general (frame s') i"
proof -
  define y where "y = (if corrects_lr v then x\<lparr>exc_lr := exc_lr x - 4\<rparr> else x)"
  define z where "z = (stmfd_all p y)\<lparr>exc_sp := exc_sp y - of_nat (SAVED_REGS_COUNT * 4)\<rparr>"
  have y: "exc_sp y = exc_sp x" "exc_r y = exc_r x" "exc_lr y = (if corrects_lr v then exc_lr x - 4 else exc_lr x)"
    by (simp_all add: y_def)
  have sp: "exc_sp (stmfd_all p y) = exc_sp y" by (simp add: stmfd_all_def)
  have h: "h (s\<lparr>frame := registers_at (exc_stack (stmfd_all p y)) (exc_sp y - of_nat (SAVED_REGS_COUNT * 4))\<rparr>) = Some s'"
    and x': "x' = ldmfd_all (z\<lparr>exc_stack := write_registers (exc_sp z) (frame s') rest\<rparr>)" "a = exc_lr x'"
    using assms by (auto simp: exception_stub_def Let_def sp z_def y_def [symmetric] Option.bind_eq_Some_conv)
  show ?thesis
  proof (rule that)
    show "h (s\<lparr>frame := \<lparr>general = (\<lambda>i. exc_stack (stmfd_all p y) (exc_sp y - 64 + 4 * of_nat i)), sp = exc_sp x,
        lr = (if corrects_lr v then exc_lr x - 4 else exc_lr x), pc = p\<rparr>\<rparr>) = Some s'"
      using h [unfolded saved_frame(1)] unfolding y .
  qed (use saved_frame(2) [where p = p and x = y] restored_frame [where x = z] y in \<open>simp_all add: x'\<close>)
qed

section \<open>The stack pointer in the frame\<close>

text \<open>No handler writes the stack pointer in the frame.\<close>

lemma set_result_sp [simp]: "sp (frame (set_result v s)) = sp (frame s)"
  by (simp add: set_result_def)

lemma reset_systimer_frame [simp]: "frame (reset_systimer e s) = frame s"
  by (simp add: reset_systimer_def)

lemma dispatch_sp:
  "dispatch_syscall e n s = Some (v, s') \<Longrightarrow> sp (frame s') = sp (frame s)"
  by (auto simp: dispatch_syscall_def Let_def case_prod_beta Option.bind_eq_Some_conv
      dest!: kept split: if_split_asm option.split_asm)

lemma unblock_input_kept [kept]:
  "scheduler_unblock_first_input_waiting_thread ch s = Some s' \<Longrightarrow> frame s' = frame s \<and> cpu_regs s' = cpu_regs s"
  by (auto simp: scheduler_unblock_first_input_waiting_thread_def Let_def Option.bind_eq_Some_conv dest!: kept)

lemma deliver_input_kept [kept]: "deliver_input s = Some s' \<Longrightarrow> frame s' = frame s \<and> cpu_regs s' = cpu_regs s"
proof (rule deliver_input.raw_induct [of "\<lambda>s s'. frame s' = frame s \<and> cpu_regs s' = cpu_regs s"])
  fix f s y
  assume "\<And>s s'. f s = Some s' \<Longrightarrow> frame s' = frame s \<and> cpu_regs s' = cpu_regs s"
    and "scheduler_exists_input_waiting_thread s \<bind> (\<lambda>waiting.
      if waiting \<and> pl001_has_unread_character (cache s)
      then pl001_read (cache s) \<bind> (\<lambda>(ch, c). scheduler_unblock_first_input_waiting_thread ch (s\<lparr>cache := c\<rparr>) \<bind> f)
      else Some s) = Some y"
  then show "frame y = frame s \<and> cpu_regs y = cpu_regs s"
    by (fastforce simp: Option.bind_eq_Some_conv dest: kept split: if_splits)
qed

lemma exit_thread_sp: "exit_thread e s = Some s' \<Longrightarrow> sp (frame s') = sp (frame s)"
  by (auto simp: exit_thread_def Option.bind_eq_Some_conv dest!: dispatch_sp split: if_split_asm)

lemma dump_frame: "dump e v st s = Some s' \<Longrightarrow> frame s' = frame s"
  using dump_io by fastforce

lemma vector_handler_sp:
  assumes "vector_handler e st v s = Some s'"
  shows "sp (frame s') = sp (frame s)"
proof (cases v)
  case software
  with assms show ?thesis
    by (auto simp: vector_handler_def software_interrupt_handler_def Let_def Option.bind_eq_Some_conv
        dest!: dispatch_sp exit_thread_sp dump_frame split: if_split_asm)
next
  case irq
  with assms show ?thesis
    by (auto simp: vector_handler_def irq_interrupt_handler_def Let_def case_prod_beta Option.bind_eq_Some_conv
        dest!: kept split: if_split_asm)
qed (use assms in \<open>auto simp: vector_handler_def reset_interrupt_handler_def undefined_instruction_interrupt_handler_def
    prefetch_abort_interrupt_handler_def data_abort_interrupt_handler_def Option.bind_eq_Some_conv
    dest!: exit_thread_sp dump_frame split: if_split_asm\<close>)

lemma stub_returns:
  assumes "\<And>f. h (s\<lparr>frame := f\<rparr>) \<noteq> None"
  shows "exception_stub v p rest h x s \<noteq> None"
  using assms by (simp add: exception_stub_def Let_def bind_eq_None_conv)

lemma stub_step:
  assumes "entered s0 s" "exception_stub v p rest (vector_handler e st v) x s = Some (x', a, s')"
  shows "kernel_step e s0 s'"
proof -
  obtain f where h: "vector_handler e st v (s\<lparr>frame := f\<rparr>) = Some s'"
    by (rule exception_stub_result [OF assms(2)])
  obtain f0 c m where "s = s0\<lparr>frame := f0, cpu_regs := c, mem := m\<rparr>"
      "spsr c AND psr_mode = psr_mode_user \<longleftrightarrow> user_thread_runs s0"
    using assms(1) unfolding entered_def by blast
  then have "entered s0 (s\<lparr>frame := f\<rparr>)"
    unfolding entered_def by (intro exI [of _ f] exI [of _ c] exI [of _ m]) simp
  with h show ?thesis by (cases v) (auto simp: vector_handler_def intro: kernel_step.intros)
qed

lemma stub_stack:
  assumes "exception_stub v p rest (vector_handler e st v) x s = Some (x', a, s')"
  shows "exc_sp x' = exc_sp x"
proof (rule exception_stub_result [OF assms])
  fix g
  assume "vector_handler e st v (s\<lparr>frame := \<lparr>general = g, sp = exc_sp x,
      lr = (if corrects_lr v then exc_lr x - 4 else exc_lr x), pc = p\<rparr>\<rparr>) = Some s'" and "exc_sp x' = sp (frame s')"
  with vector_handler_sp [OF this(1)] show ?thesis by simp
qed

text \<open>Without an interrupt of the system timer the handler leaves the frame and the banked registers alone.\<close>

lemma quiet_interrupt:
  assumes "\<And>n. volatile e n (systimer_register CS) AND M1 = 0" "irq_interrupt_handler e s = Some s'"
  shows "frame s' = frame s \<and> cpu_regs s' = cpu_regs s"
  using assms(2)
  by (auto simp: irq_interrupt_handler_def systimer_pending_def volatile_read_def assms(1) Let_def case_prod_beta
      Option.bind_eq_Some_conv dest!: kept split: if_split_asm)

lemma quiet_stub:
  assumes "\<And>n. volatile e n (systimer_register CS) AND M1 = 0"
    and "exception_stub irq p rest (vector_handler e st irq) x s = Some (x', a, s')"
  shows "a = exc_lr x - 4" "cpu_regs s' = cpu_regs s" "i < 13 \<Longrightarrow> exc_r x' i = exc_r x i"
proof -
  obtain g where g: "irq_interrupt_handler e (s\<lparr>frame := \<lparr>general = g, sp = exc_sp x, lr = exc_lr x - 4, pc = p\<rparr>\<rparr>) = Some s'"
    "\<And>i. i < 13 \<Longrightarrow> g i = exc_r x i" "a = lr (frame s')" "\<And>i. i < 13 \<Longrightarrow> exc_r x' i = general (frame s') i"
    using exception_stub_result [OF assms(2)] by (auto simp: corrects_lr_def vector_handler_def)
  from quiet_interrupt [OF assms(1) g(1)] g(2-4)
  show "a = exc_lr x - 4" "cpu_regs s' = cpu_regs s" "i < 13 \<Longrightarrow> exc_r x' i = exc_r x i" by simp_all
qed

section \<open>System calls\<close>

lemma user_numbers_agree: "user_syscall_number c = kernel_syscall_number c"
  by (cases c) (simp_all add: syscall_numbers)

lemma stub_instruction_decodes:
  assumes "load_instruction e a s = hd (system_call_stub c)"
  shows "is_valid_syscall e a s" "get_syscall_no e a s = kernel_syscall_number c"
proof -
  show "get_syscall_no e a s = kernel_syscall_number c"
    using assms by (cases c) (simp_all add: get_syscall_no_def system_call_stub_def syscall_numbers)
  then show "is_valid_syscall e a s"
    using assms by (cases c) (simp_all add: is_valid_syscall_def system_call_stub_def is_valid_syscall_no_def syscall_numbers)
qed

end
