(* ===== verification/Entry.thy ===== *)
theory Entry
  imports Exception_Stubs
begin

text \<open>
  \<^verbatim>\<open>arch/cpu/entry.S\<close> and \<^verbatim>\<open>_setup_ivt\<close> of \<^verbatim>\<open>arch/cpu/interrupt_vector_table.S\<close>: the first instructions on every core, up to the call
  of \<open>start_kernel\<close> on core 0. The stack pointers are those of \<^verbatim>\<open>include/arch/bsp/memory_map.h\<close>.
\<close>

section \<open>Definitions\<close>

definition USER_SYSTEM_SP :: u32 where "USER_SYSTEM_SP = KERNEL_STACK_TOP_ADDRESS"
definition SUPERVISOR_SP :: u32 where "SUPERVISOR_SP = KERNEL_STACK_TOP_ADDRESS - STACK_SIZE * 1"
definition ABORT_SP :: u32 where "ABORT_SP = KERNEL_STACK_TOP_ADDRESS - STACK_SIZE * 2"
definition IRQ_SP :: u32 where "IRQ_SP = KERNEL_STACK_TOP_ADDRESS - STACK_SIZE * 3"
definition UNDEFINED_INSTRUCTION_SP :: u32 where "UNDEFINED_INSTRUCTION_SP = KERNEL_STACK_TOP_ADDRESS - STACK_SIZE * 4"

text \<open>The registers the code reads and writes; \<open>mode_sp\<close> has the stack pointer of every mode, user and system
  mode share theirs.\<close>

record core =
  core_cpsr :: u32
  MPIDR :: u32
  core_SCTLR :: u32
  VBAR :: u32
  mode_sp :: "u32 \<Rightarrow> u32"

definition in_hypervisor_mode :: "core \<Rightarrow> bool" where
  "in_hypervisor_mode c \<longleftrightarrow> core_cpsr c AND 0x1F = 0x1A"

text \<open>The return from the hypervisor mode continues at \<^verbatim>\<open>_checkCores\<close> in supervisor mode.\<close>

definition exit_hyper :: "core \<Rightarrow> core" where
  "exit_hyper c = c\<lparr>core_cpsr := (core_cpsr c AND NOT 0x1F) OR 0x13\<rparr>"

text \<open>\<^verbatim>\<open>cps #m\<close>, then \<^verbatim>\<open>ldr sp, =a\<close>.\<close>

definition set_mode_sp :: "u32 \<Rightarrow> u32 \<Rightarrow> core \<Rightarrow> core" where
  "set_mode_sp m a c =
     c\<lparr>core_cpsr := (core_cpsr c AND NOT 0x1F) OR m, mode_sp := (mode_sp c)(m := a)\<rparr>"

definition setup_ivt :: "u32 \<Rightarrow> core \<Rightarrow> core" where
  "setup_ivt ivt c = c\<lparr>VBAR := ivt\<rparr>"

datatype started = Parked core | Starts core

definition start_core :: "u32 \<Rightarrow> core \<Rightarrow> started" where
  "start_core ivt c =
     (let c = (if in_hypervisor_mode c then exit_hyper c else c)
      in if MPIDR c AND 3 \<noteq> 0 then Parked (c\<lparr>core_cpsr := core_cpsr c OR 0xC0\<rparr>)
         else
           (let c = c\<lparr>core_SCTLR := core_SCTLR c OR 2\<rparr>;
                c = set_mode_sp psr_mode_IRQ IRQ_SP c;
                c = set_mode_sp psr_mode_supervisor SUPERVISOR_SP c;
                c = set_mode_sp psr_mode_abort ABORT_SP c;
                c = set_mode_sp psr_mode_undefined UNDEFINED_INSTRUCTION_SP c;
                c = set_mode_sp psr_mode_system USER_SYSTEM_SP c
            in Starts (setup_ivt ivt c)))"

section \<open>The start of a core\<close>

text \<open>The stacks of the kernel, in the order of their tops, with the one of the idle thread last.\<close>

definition kernel_stack_tops :: "u32 list" where
  "kernel_stack_tops = [USER_SYSTEM_SP, SUPERVISOR_SP, ABORT_SP, IRQ_SP, UNDEFINED_INSTRUCTION_SP, IDLE_THREAD_SP]"

lemma kernel_stack_top_eq:
  "kernel_stack_tops = map (\<lambda>i. KERNEL_STACK_TOP_ADDRESS - of_nat i * STACK_SIZE) [0..<KERNEL_STACK_COUNT]"
  by (simp add: kernel_stack_tops_def memory_map_defs USER_SYSTEM_SP_def SUPERVISOR_SP_def ABORT_SP_def IRQ_SP_def
      UNDEFINED_INSTRUCTION_SP_def upt_rec)

lemma start_core_result:
  "MPIDR c AND 3 = 0 \<Longrightarrow> \<exists>c'. start_core ivt c = Starts c' \<and> core_cpsr c' AND psr_mode = psr_mode_system \<and> VBAR c' = ivt \<and>
     core_SCTLR c' AND 2 = 2 \<and>
     map (mode_sp c') [psr_mode_system, psr_mode_supervisor, psr_mode_abort, psr_mode_IRQ, psr_mode_undefined] =
       butlast kernel_stack_tops"
  "MPIDR c AND 3 \<noteq> 0 \<Longrightarrow> \<exists>c'. start_core ivt c = Parked c' \<and> core_cpsr c' AND 0xC0 = 0xC0"
proof -
  have m: "(x AND NOT 0x1F OR 0x1f) AND 0x1f = (0x1f :: u32)" for x
    by (simp add: bit.conj_disj_distrib2)
  have s: "(x OR 2) AND 2 = (2 :: u32)" "(x OR 0xC0) AND 0xC0 = (0xC0 :: u32)" for x
    by (simp_all add: bit.conj_disj_distrib2)
  show "MPIDR c AND 3 = 0 \<Longrightarrow> \<exists>c'. start_core ivt c = Starts c' \<and> core_cpsr c' AND psr_mode = psr_mode_system \<and> VBAR c' = ivt \<and>
     core_SCTLR c' AND 2 = 2 \<and>
     map (mode_sp c') [psr_mode_system, psr_mode_supervisor, psr_mode_abort, psr_mode_IRQ, psr_mode_undefined] =
       butlast kernel_stack_tops"
    by (simp add: start_core_def Let_def set_mode_sp_def setup_ivt_def exit_hyper_def psr_defs kernel_stack_tops_def m s)
  show "MPIDR c AND 3 \<noteq> 0 \<Longrightarrow> \<exists>c'. start_core ivt c = Parked c' \<and> core_cpsr c' AND 0xC0 = 0xC0"
    by (simp add: start_core_def Let_def exit_hyper_def s)
qed

text \<open>The frame a stub saves on one of these stacks stays in its topmost page, far from the guard page at the lower end.\<close>

lemma frame_in_stack:
  assumes "i < KERNEL_STACK_COUNT" "k < SAVED_REGS_COUNT"
  shows "(kernel_stack_tops ! i - of_nat (SAVED_REGS_COUNT * 4) + 4 * of_nat k) div 4096 =
    (kernel_stack_tops ! i - 1) div 4096"
proof -
  have "i \<in> set [0..<6]" "k \<in> set [0..<16]"
    using assms by (simp_all add: KERNEL_STACK_COUNT_def SAVED_REGS_COUNT_def)
  moreover have "list_all (\<lambda>i. list_all (\<lambda>k. (kernel_stack_tops ! i - of_nat (SAVED_REGS_COUNT * 4) + 4 * of_nat k) div 4096 =
    (kernel_stack_tops ! i - 1) div 4096) [0..<16]) [0..<6]" by code_simp
  ultimately show ?thesis by (simp only: list_all_iff)
qed

end
