(* ===== verification/User_Program.thy ===== *)
theory User_Program
  imports User_Log
begin

text \<open>
  \<^verbatim>\<open>user/main.c\<close>: the program the kernel starts. For every character that arrives \<open>user_main\<close> creates a
  process, whose main thread stores the character and creates two threads that count together in one variable.
  Nothing orders their accesses, so a process is modelled with one step for every access to a shared variable and
  for every character that is printed, in any order of the threads. The results of the system calls that create
  threads are the kernel's and can be any.
\<close>

section \<open>Definitions\<close>

definition GLOBAL_COUNTER_LIMIT :: u32 where "GLOBAL_COUNTER_LIMIT = 110"

definition userthread :: log_module where
  "userthread = \<lparr>LOG_LABEL = bytes ''Userthread'', LOG_LEVEL = user_DEBUG_LEVEL, LOG_COLORED_OUTPUT = True\<rparr>"

text \<open>Where a thread in \<open>thread_main\<close> is, with its \<open>local_counter\<close>: at the condition of the loop, before
  and behind the read of the increment, before the arguments of \<^verbatim>\<open>printf\<close> are evaluated, while it prints, before
  \<^verbatim>\<open>sys$stall_thread\<close>, and behind the loop. \<open>Absent\<close> is a thread that has not been created.\<close>

datatype point = Absent | Test u32 | Load u32 | Store u32 u32 | Arguments u32 | Output u32 "u8 list" | Stall u32 | Done u32

text \<open>Where the main thread in \<open>process_main\<close> is: before it stores its argument, before it creates a thread, while it
  prints that it could not, and behind its end.\<close>

datatype main_point = Set_Char u8 | Create nat | Complain nat "u8 list" | Returned

record user_process =
  global_ch :: u8
  global_counter :: u32
  console :: "u8 list"
  log_of :: log_state
  main_at :: main_point
  worker :: "nat \<Rightarrow> point"
  thread_id :: "nat \<Rightarrow> u32"

fun thread_main :: "u32 \<Rightarrow> user_process \<Rightarrow> point \<Rightarrow> (user_process \<times> point) option" where
  "thread_main t s Absent = None"
| "thread_main t s (Test n) = Some (s, if global_counter s < GLOBAL_COUNTER_LIMIT then Load n else Done n)"
| "thread_main t s (Load n) = Some (s, Store n (global_counter s))"
| "thread_main t s (Store n v) = Some (s\<lparr>global_counter := v + 1\<rparr>, Arguments (n + 1))"
| "thread_main t s (Arguments n) =
     map_option (\<lambda>out. (s, Output n out))
       (user_print (bytes ''%c:%u (%u:%u)'' @ [10])
         [Number (ucast (global_ch s)), Number (global_counter s), Number t, Number n])"
| "thread_main t s (Output n (c # out)) = Some (s\<lparr>console := console s @ [c]\<rparr>, Output n out)"
| "thread_main t s (Output n []) = Some (s, Stall n)"
| "thread_main t s (Stall n) = Some (s, Test n)"
| "thread_main t s (Done n) = None"

definition next_create :: "nat \<Rightarrow> main_point" where
  "next_create k = (if k = 0 then Create 1 else Returned)"

inductive process_step :: "user_process \<Rightarrow> user_process \<Rightarrow> bool" where
  set_char: "main_at s = Set_Char ch \<Longrightarrow> process_step s (s\<lparr>global_ch := ch, main_at := Create 0\<rparr>)"
| created: "main_at s = Create k \<Longrightarrow>
    process_step s (s\<lparr>worker := (worker s)(k := Test 0), thread_id := (thread_id s)(k := t), main_at := next_create k\<rparr>)"
| refused: "main_at s = Create k \<Longrightarrow> ret < 0 \<Longrightarrow> error_string ret = Some reason \<Longrightarrow>
    warnln userthread (bytes ''Couldn't create thread. Reason: %s'') [String (bytes reason)] (log_of s) = Some (out, log') \<Longrightarrow>
    process_step s (s\<lparr>log_of := log', main_at := Complain k out\<rparr>)"
| complain: "main_at s = Complain k (c # out) \<Longrightarrow>
    process_step s (s\<lparr>console := console s @ [c], main_at := Complain k out\<rparr>)"
| complained: "main_at s = Complain k [] \<Longrightarrow> process_step s (s\<lparr>main_at := next_create k\<rparr>)"
| thread: "k < 2 \<Longrightarrow> thread_main (thread_id s k) s (worker s k) = Some (s', p) \<Longrightarrow>
    process_step s (s'\<lparr>worker := (worker s')(k := p)\<rparr>)"

inductive_cases process_stepE: "process_step s s'"

text \<open>A new process: its copy of the program's data, and its main thread with the argument.\<close>

definition new_process :: "u8 \<Rightarrow> log_state \<Rightarrow> user_process" where
  "new_process ch st = \<lparr>global_ch = 0, global_counter = 100, console = [], log_of = st, main_at = Set_Char ch,
     worker = (\<lambda>_. Absent), thread_id = (\<lambda>_. 0)\<rparr>"

text \<open>One round of \<open>user_main\<close>: for the character that was read and the result of \<^verbatim>\<open>sys$create_process\<close>, the
  argument the process gets and what is printed.\<close>

definition user_main_round :: "u8 \<Rightarrow> int \<Rightarrow> log_state \<Rightarrow> (u8 list \<times> u8 list \<times> log_state) option" where
  "user_main_round ch ret st =
     (if ret < 0
      then do {
        reason \<leftarrow> error_string ret;
        (out, st) \<leftarrow> warnln userthread (bytes ''Couldn't create process. Reason: %s'') [String (bytes reason)] st;
        Some ([ch], out, st)
      }
      else Some ([ch], [], st))"

section \<open>The lines\<close>

text \<open>A line always gets printed: the character, the counter, the thread and its own count.\<close>

definition line_text :: "u8 \<Rightarrow> u32 \<Rightarrow> u32 \<Rightarrow> u32 \<Rightarrow> u8 list" where
  "line_text ch g t n = ch # bytes '':'' @ notation_of 10 (unat g) @ bytes '' ('' @ notation_of 10 (unat t) @
     bytes '':'' @ notation_of 10 (unat n) @ bytes '')'' @ [10]"

lemma loop_character:
  assumes "0 \<le> n" "n + 1 \<le> LONG_MAX"
  shows "kprintf_loop \<lparr>arguments = Number w # args, position = 37 # 99 # q, flags = 0, pad_width = 0\<rparr> n =
    shift_output [ucast w] (kprintf_loop \<lparr>arguments = args, position = q, flags = 0, pad_width = 0\<rparr> (n + 1))"
proof -
  have d: "kprintf_directive \<lparr>arguments = Number w # args, position = 99 # q, flags = 0, pad_width = 0\<rparr> =
      Some (1, [ucast w], \<lparr>arguments = args, position = 99 # q, flags = 0, pad_width = 0\<rparr>)"
    by (simp add: kprintf_directive_def kprintf_set_flags_def kprintf_set_pad_width_def k_is_ascii_decimal_digit_def
        kprintf_handle_format_specifier_def kprintf_output_character_def long_of_unsigned_def peek_def va_arg_number_def)
  have "long (n + 1) = Some (n + 1)" using assms by (auto simp: long_def in_long_def)
  then show ?thesis
    by (subst kprintf_loop.simps) (simp add: peek_def advance_def d kprintf_reset_state_def shift_output_def)
qed

lemma ucast_ucast_u8: "(ucast (ucast (ch :: u8) :: u32) :: u8) = ch"
  by transfer (simp add: take_bit_take_bit)

lemma user_line:
  "user_print (bytes ''%c:%u (%u:%u)'' @ [10]) [Number (ucast ch), Number g, Number t, Number n] = Some (line_text ch g t n)"
proof -
  let ?st = "\<lambda>args p. \<lparr>arguments = args, position = p, flags = 0, pad_width = 0\<rparr>"
  let ?d = "\<lambda>w. notation_of 10 (unat (w :: u32))"
  have sep: "kprintf_loop (?st args (u @ p)) m = shift_output u (kprintf_loop (?st args p) (m + int (length u)))"
    if "plain u" "length u \<le> 3" "0 \<le> m" "m \<le> 1000" for m args p u
    using loop_plain [of u m "?st args (u @ p)" p] that by simp
  have sizes [simp]: "plain (bytes '':'')" "plain (bytes '' ('')" "plain (bytes '')'')"
      "length (bytes '':'') = 1" "length (bytes '' ('') = 2" "length (bytes '')'') = 1"
    by (simp_all add: bytes_def)
  note seps = sep [where u = "bytes '':''"] sep [where u = "bytes '' (''"] sep [where u = "bytes '')'' @ [10]" and p = "[]", simplified]
  have dec: "kprintf_loop (?st (Number w # args) (37 # 117 # p)) m = shift_output (?d w) (kprintf_loop (?st args p) (m + int (length (?d w))))"
    if "0 \<le> m" "m \<le> 1000" for m w args p
    using that by (intro loop_decimal) auto
  have form: "bytes ''%c:%u (%u:%u)'' @ [10] =
      37 # 99 # bytes '':'' @ 37 # 117 # bytes '' ('' @ 37 # 117 # bytes '':'' @ 37 # 117 # bytes '')'' @ [10]"
    by (simp add: bytes_def)
  have "\<exists>k. kprintf_loop (?st [Number (ucast ch), Number g, Number t, Number n] (bytes ''%c:%u (%u:%u)'' @ [10])) 0 =
      Some (k, line_text ch g t n)"
    unfolding form
    using decimal_length [of g] decimal_length [of t] decimal_length [of n]
    by (simp add: loop_character dec seps loop_end line_text_def ucast_ucast_u8)
  then show ?thesis
    by (auto simp: user_log_eqs print_def kprintf_output_def kprintf_initialize_state_def)
qed

end
