(* ===== verification/User_Counting.thy ===== *)
theory User_Counting
  imports User_Program
begin

text \<open>
  The threads of \<^theory_text>\<open>User_Program\<close> in every order of their steps: they end, and between which bounds the counter
  and the number of lines are, although increments can be lost.
\<close>

section \<open>Two counting threads\<close>

text \<open>What matters of a thread: its own count, the value it has read and not yet written back, whether it is
  between the condition and the write, and whether it has nothing left to do.\<close>

fun own_count :: "point \<Rightarrow> nat" where
  "own_count Absent = 0"
| "own_count (Test n) = unat n"
| "own_count (Load n) = unat n"
| "own_count (Store n v) = unat n"
| "own_count (Arguments n) = unat n"
| "own_count (Output n out) = unat n"
| "own_count (Stall n) = unat n"
| "own_count (Done n) = unat n"

fun held :: "point \<Rightarrow> nat option" where
  "held (Store n v) = Some (unat v)"
| "held _ = None"

fun pending :: "point \<Rightarrow> bool" where
  "pending (Load n) = True"
| "pending (Store n v) = True"
| "pending _ = False"

fun settled :: "point \<Rightarrow> bool" where
  "settled Absent = True"
| "settled (Done n) = True"
| "settled _ = False"

text \<open>A rank that every read of the counter lowers and no write raises: the least value in the counter or held by
  a thread, then whether the counter has it and which threads do not, or how many threads hold it, then the
  values the counter gets next.\<close>

definition holds_value :: "nat \<Rightarrow> nat option \<Rightarrow> nat" where
  "holds_value m h = (if h = Some m then 1 else 0)"

definition next_value :: "nat \<Rightarrow> nat option \<Rightarrow> nat" where
  "next_value g h = (case h of None \<Rightarrow> g | Some v \<Rightarrow> Suc v)"

definition least_value :: "nat \<Rightarrow> nat option \<Rightarrow> nat option \<Rightarrow> nat" where
  "least_value g p q = min g (min (case p of None \<Rightarrow> g | Some v \<Rightarrow> v) (case q of None \<Rightarrow> g | Some w \<Rightarrow> w))"

definition count_rank :: "nat \<Rightarrow> nat option \<Rightarrow> nat option \<Rightarrow> nat" where
  "count_rank g p q =
     (let m = least_value g p q in
      (((111 - m) * 2 + (if g = m then 1 else 0)) * 3 +
        (if g = m then 2 - (holds_value m p + holds_value m q) else holds_value m p + holds_value m q)) * 25 +
      (112 - next_value g p) + (112 - next_value g q))"

lemmas count_rank_defs = count_rank_def least_value_def holds_value_def next_value_def Let_def

lemma count_rank_sym: "count_rank g p q = count_rank g q p"
  by (simp add: count_rank_def least_value_def Let_def min.commute min.left_commute add.commute add.left_commute)

definition value_ok :: "nat \<Rightarrow> nat option \<Rightarrow> bool" where
  "value_ok b h \<longleftrightarrow> (\<forall>v. h = Some v \<longrightarrow> 100 \<le> v \<and> v \<le> b)"

text \<open>A greater least value lowers the rank, whatever else changes.\<close>

lemma rank_least:
  assumes "least_value g p q < least_value g' p' q'" "g' \<le> 111" "100 \<le> g'" "value_ok 110 p'" "value_ok 110 q'"
  shows "count_rank g' p' q' < count_rank g p q"
proof -
  define m m' where "m = least_value g p q" and "m' = least_value g' p' q'"
  define c where "c = (if g' = m' then 2 - (holds_value m' p' + holds_value m' q') else holds_value m' p' + holds_value m' q')"
  have "m' \<le> g'" by (simp add: m'_def least_value_def)
  then have m: "111 - m = Suc (111 - m') + (m' - Suc m)" using assms(1,2) by (simp add: m_def m'_def)
  have "100 \<le> next_value g' p'" "100 \<le> next_value g' q'"
    using assms(3-5) by (auto simp: next_value_def value_ok_def split: option.splits)
  then have n: "(112 - next_value g' p') + (112 - next_value g' q') \<le> 24" by linarith
  have c: "c \<le> 2" by (simp add: c_def holds_value_def)
  have "count_rank g' p' q' = (((111 - m') * 2 + (if g' = m' then 1 else 0)) * 3 + c) * 25 +
      ((112 - next_value g' p') + (112 - next_value g' q'))"
    by (simp add: count_rank_def Let_def c_def m'_def)
  also have "\<dots> \<le> (((111 - m') * 2 + 1) * 3 + 2) * 25 + 24"
    using n c by (intro add_mono mult_mono) simp_all
  also have "\<dots> < (111 - m) * 2 * 3 * 25" unfolding m by simp
  also have "\<dots> \<le> count_rank g p q" by (simp add: count_rank_def Let_def m_def)
  finally show ?thesis .
qed

lemma rank_load:
  assumes "100 \<le> g" "g \<le> 110" "value_ok 110 q"
  shows "count_rank g (Some g) q < count_rank g None q"
proof (cases q)
  case None
  then show ?thesis using assms by (simp add: count_rank_defs)
next
  case (Some w)
  then show ?thesis using assms by (cases "w < g"; cases "w = g") (auto simp: count_rank_defs value_ok_def min_def)
qed

lemma rank_store:
  assumes "100 \<le> g" "g \<le> 111" "100 \<le> v" "v \<le> 110" "value_ok 110 q"
  shows "count_rank (Suc v) None q \<le> count_rank g (Some v) q"
proof -
  define m where "m = least_value g (Some v) q"
  have le: "m \<le> least_value (Suc v) None q" "m \<le> v" "m \<le> g" by (auto simp: m_def least_value_def split: option.splits)
  show ?thesis
  proof (cases "m < least_value (Suc v) None q")
    case True
    then show ?thesis
      using rank_least [of g "Some v" q "Suc v" None q] assms by (simp add: m_def value_ok_def)
  next
    case False
    then have e: "least_value (Suc v) None q = m" using le(1) by simp
    then have q: "q = Some m" using le(2) by (cases q) (auto simp: least_value_def min_def split: if_splits)
    have n: "112 - next_value (Suc v) (Some m) \<le> 12" "next_value (Suc v) (Some m) = Suc m" "next_value g (Some m) = Suc m"
      using assms(5) by (auto simp: next_value_def value_ok_def q)
    have v: "112 - Suc v \<le> 12" "next_value (Suc v) None = Suc v" "next_value g (Some v) = Suc v"
      using assms(3) by (simp_all add: next_value_def)
    have h: "holds_value m (Some v) = (if v = m then 1 else 0)" "holds_value m (Some m) = 1" "holds_value m None = 0"
      by (simp_all add: holds_value_def)
    have "Suc v \<noteq> m" using le(2) by simp
    then show ?thesis
      using e [unfolded q] m_def [unfolded q] n v h unfolding q count_rank_def Let_def by simp
  qed
qed

text \<open>The invariant of two threads and their counter. The counter never passes 111: a thread that is between
  the condition and the write holds at most 110, and at most 109 unless the other thread is not there.\<close>

definition one_ok :: "nat \<Rightarrow> point \<Rightarrow> point \<Rightarrow> nat \<Rightarrow> bool" where
  "one_ok g p q n \<longleftrightarrow>
     (pending p \<longrightarrow> g \<le> (if pending q then 109 else 110)) \<and>
     (\<forall>v. held p = Some v \<longrightarrow> 100 \<le> v \<and> v \<le> 110 \<and> v \<le> 100 + n \<and> (v = 110 \<longrightarrow> \<not> pending q \<and> g = 110))"

definition bound_ok :: "nat \<Rightarrow> point \<Rightarrow> point \<Rightarrow> nat \<Rightarrow> bool" where
  "bound_ok g p q n \<longleftrightarrow> n + (if held p = None then 0 else 1) + (if held q = None then 0 else 1) +
     count_rank g (held p) (held q) \<le> 1799"

definition end_ok :: "nat \<Rightarrow> point \<Rightarrow> point \<Rightarrow> bool" where
  "end_ok g p q \<longleftrightarrow> (settled p \<and> settled q \<and> \<not> (p = Absent \<and> q = Absent) \<longrightarrow> 110 \<le> g)"

definition counting_ok :: "u32 \<Rightarrow> point \<Rightarrow> point \<Rightarrow> bool" where
  "counting_ok c p q \<longleftrightarrow>
     (let g = unat c; n = own_count p + own_count q in
      100 \<le> g \<and> g \<le> 111 \<and> g \<le> 100 + n \<and> one_ok g p q n \<and> one_ok g q p n \<and> bound_ok g p q n \<and> end_ok g p q)"

lemmas counting_defs = counting_ok_def one_ok_def bound_ok_def end_ok_def Let_def

lemma counting_sym: "counting_ok c p q \<Longrightarrow> counting_ok c q p"
  by (auto simp: counting_defs count_rank_sym [of _ "held p"] add.commute)

lemma counting_start: "counting_ok 100 Absent Absent"
  by (simp add: counting_defs count_rank_defs)

lemma counting_created: "counting_ok c Absent q \<Longrightarrow> counting_ok c (Test 0) q"
  by (auto simp: counting_defs)

lemma held_ok: "counting_ok c p q \<Longrightarrow> value_ok 110 (held q)"
  by (simp add: counting_defs value_ok_def)

text \<open>Steps that neither read nor write the counter for the increment.\<close>

lemma counting_same:
  assumes "counting_ok c p q" "held p = None" "held p' = None" "\<not> pending p'" "own_count p' = own_count p"
    "settled p' \<Longrightarrow> 110 \<le> unat c"
  shows "counting_ok c p' q"
  using assms by (auto simp: counting_defs)

lemma counting_enter:
  assumes "counting_ok c (Test n) q" "c < GLOBAL_COUNTER_LIMIT"
  shows "counting_ok c (Load n) q"
proof -
  have g: "unat c < 110" using assms(2) by (simp add: GLOBAL_COUNTER_LIMIT_def word_less_nat_alt)
  then show ?thesis using assms(1) by (auto simp: counting_defs)
qed

lemma counting_load:
  assumes "counting_ok c (Load n) q"
  shows "counting_ok c (Store n c) q" "count_rank (unat c) (Some (unat c)) (held q) < count_rank (unat c) None (held q)"
proof -
  have g: "100 \<le> unat c" "unat c \<le> 110" using assms by (auto simp: counting_defs split: if_splits)
  show r: "count_rank (unat c) (Some (unat c)) (held q) < count_rank (unat c) None (held q)"
    by (rule rank_load [OF g held_ok [OF assms]])
  show "counting_ok c (Store n c) q" using assms r by (auto simp: counting_defs split: if_splits)
qed

lemma counting_store:
  assumes "counting_ok c (Store n v) q"
  shows "counting_ok (v + 1) (Arguments (n + 1)) q"
    "count_rank (unat (v + 1)) None (held q) \<le> count_rank (unat c) (Some (unat v)) (held q)"
proof -
  have v: "100 \<le> unat c" "unat c \<le> 111" "100 \<le> unat v" "unat v \<le> 110" "unat n \<le> 1799"
    using assms by (auto simp: counting_defs)
  then have s: "unat (v + 1) = Suc (unat v)" "unat (n + 1) = Suc (unat n)"
    by (simp_all add: unat_word_ariths)
  show r: "count_rank (unat (v + 1)) None (held q) \<le> count_rank (unat c) (Some (unat v)) (held q)"
    unfolding s by (rule rank_store [OF v(1-4) held_ok [OF assms]])
  show "counting_ok (v + 1) (Arguments (n + 1)) q"
    using assms r by (auto simp: counting_defs s split: if_splits)
qed

text \<open>How far a thread is from its next read, and how much it still prints.\<close>

fun phase :: "point \<Rightarrow> nat" where
  "phase Absent = 7"
| "phase (Store n v) = 6"
| "phase (Arguments n) = 5"
| "phase (Output n out) = 4"
| "phase (Stall n) = 3"
| "phase (Test n) = 2"
| "phase (Load n) = 1"
| "phase (Done n) = 0"

fun unprinted :: "point \<Rightarrow> nat" where
  "unprinted (Output n out) = length out"
| "unprinted _ = 0"

lemma thread_counts:
  assumes "thread_main t s p = Some (s', p')" "counting_ok (global_counter s) p q"
  defines "rk \<equiv> \<lambda>s p. count_rank (unat (global_counter s)) (held p) (held q)"
  shows "counting_ok (global_counter s') p' q" "p \<noteq> Absent" "p' \<noteq> Absent"
    "rk s' p' < rk s p \<or> rk s' p' = rk s p \<and> (phase p' < phase p \<or> phase p' = phase p \<and> unprinted p' < unprinted p)"
    "main_at s' = main_at s" "worker s' = worker s" "thread_id s' = thread_id s"
proof -
  have "counting_ok (global_counter s') p' q \<and> p \<noteq> Absent \<and> p' \<noteq> Absent \<and>
    (rk s' p' < rk s p \<or> rk s' p' = rk s p \<and> (phase p' < phase p \<or> phase p' = phase p \<and> unprinted p' < unprinted p)) \<and>
    main_at s' = main_at s \<and> worker s' = worker s \<and> thread_id s' = thread_id s"
  proof (cases p)
    case (Test n)
    show ?thesis
    proof (cases "global_counter s < GLOBAL_COUNTER_LIMIT")
      case True
      then show ?thesis using assms(1) counting_enter [OF assms(2) [unfolded Test]] Test by (auto simp: rk_def)
    next
      case False
      then have "110 \<le> unat (global_counter s)" by (simp add: GLOBAL_COUNTER_LIMIT_def word_less_nat_alt)
      then have "counting_ok (global_counter s) (Done n) q"
        using counting_same [OF assms(2) [unfolded Test], of "Done n"] by simp
      then show ?thesis using assms(1) Test False by (auto simp: rk_def)
    qed
  next
    case (Load n)
    then show ?thesis using assms(1) counting_load [OF assms(2) [unfolded Load]] by (auto simp: rk_def)
  next
    case (Store n v)
    then show ?thesis using assms(1) counting_store [OF assms(2) [unfolded Store]] by (auto simp: rk_def)
  next
    case (Arguments n)
    then show ?thesis
      using assms(1) counting_same [OF assms(2) [unfolded Arguments], of "Output n _"] by (auto simp: rk_def)
  next
    case (Output n out)
    then show ?thesis
      using assms(1) counting_same [OF assms(2) [unfolded Output], of "Output n _"]
        counting_same [OF assms(2) [unfolded Output], of "Stall n"] by (cases out) (auto simp: rk_def)
  next
    case (Stall n)
    then show ?thesis
      using assms(1) counting_same [OF assms(2) [unfolded Stall], of "Test n"] by (auto simp: rk_def)
  qed (use assms(1) in simp_all)
  then show "counting_ok (global_counter s') p' q" "p \<noteq> Absent" "p' \<noteq> Absent"
    "rk s' p' < rk s p \<or> rk s' p' = rk s p \<and> (phase p' < phase p \<or> phase p' = phase p \<and> unprinted p' < unprinted p)"
    "main_at s' = main_at s" "worker s' = worker s" "thread_id s' = thread_id s" by blast+
qed

lemma thread_stuck: "thread_main t s p = None \<longleftrightarrow> settled p"
proof (cases p)
  case (Output n out)
  then show ?thesis by (cases out) simp_all
qed (simp_all add: user_line)

section \<open>The whole process\<close>

definition absent_from :: "nat \<Rightarrow> user_process \<Rightarrow> bool" where
  "absent_from k s \<longleftrightarrow> k < 2 \<and> (\<forall>i < 2. k \<le> i \<longrightarrow> worker s i = Absent)"

definition main_ok :: "user_process \<Rightarrow> bool" where
  "main_ok s \<longleftrightarrow>
     (case main_at s of
        Set_Char ch \<Rightarrow> absent_from 0 s
      | Create k \<Rightarrow> absent_from k s
      | Complain k out \<Rightarrow> absent_from k s
      | Returned \<Rightarrow> True)"

definition process_ok :: "user_process \<Rightarrow> bool" where
  "process_ok s \<longleftrightarrow> counting_ok (global_counter s) (worker s 0) (worker s 1) \<and> main_ok s"

fun main_phase :: "main_point \<Rightarrow> nat" where
  "main_phase (Set_Char ch) = 5"
| "main_phase (Create k) = 4 - 2 * k"
| "main_phase (Complain k out) = 3 - 2 * k"
| "main_phase Returned = 0"

fun complaint :: "main_point \<Rightarrow> nat" where
  "complaint (Complain k out) = length out"
| "complaint _ = 0"

definition progress :: "(user_process \<times> user_process) set" where
  "progress = measures [\<lambda>s. main_phase (main_at s), \<lambda>s. complaint (main_at s),
     \<lambda>s. count_rank (unat (global_counter s)) (held (worker s 0)) (held (worker s 1)),
     \<lambda>s. phase (worker s 0) + phase (worker s 1), \<lambda>s. unprinted (worker s 0) + unprinted (worker s 1)]"

lemma wf_progress: "wf progress"
  by (simp add: progress_def)

lemma thread_step_ok:
  assumes "process_ok s" "k < 2" "thread_main (thread_id s k) s (worker s k) = Some (s', p)"
  defines "s2 \<equiv> s'\<lparr>worker := (worker s')(k := p)\<rparr>"
  shows "process_ok s2" "(s2, s) \<in> progress"
proof -
  define j where "j = 1 - k"
  define q where "q = worker s j"
  have ok: "counting_ok (global_counter s) (worker s k) q"
    using assms(1,2) counting_sym by (cases "k = 0") (auto simp: process_ok_def q_def j_def less_2_cases_iff)
  note T = thread_counts [OF assms(3) ok]
  have k: "k = 0 \<or> k = 1" using assms(2) by auto
  have w: "worker s2 k = p" "worker s2 j = q" "main_at s2 = main_at s" "global_counter s2 = global_counter s'"
    using k T(6) by (auto simp: s2_def q_def j_def T(5))
  have "counting_ok (global_counter s2) (worker s2 0) (worker s2 1)"
    using k T(1) counting_sym w by (auto simp: j_def)
  moreover have "main_ok s2"
    using assms(1) T(2) k unfolding process_ok_def main_ok_def w(3)
    by (auto simp: absent_from_def s2_def T(6) split: main_point.splits)
  ultimately show "process_ok s2" by (simp add: process_ok_def)
  have r: "count_rank (unat (global_counter u)) (held (worker u 0)) (held (worker u 1)) =
      count_rank (unat (global_counter u)) (held (worker u k)) (held (worker u j))" for u
    using k by (auto simp: j_def intro: count_rank_sym)
  have sum: "f (worker u 0) + f (worker u 1) = f (worker u k) + f (worker u j)" for u and f :: "point \<Rightarrow> nat"
    using k by (auto simp: j_def)
  show "(s2, s) \<in> progress"
    unfolding progress_def measures_less r sum w q_def [symmetric] using T(4) w(3)
    by (auto simp: r sum w q_def [symmetric])
qed

lemma process_step_ok:
  assumes "process_step s s'" "process_ok s"
  shows "process_ok s' \<and> (s', s) \<in> progress"
  using assms
proof (cases rule: process_step.cases)
  case (created k t)
  with assms(2) have k: "k < 2" "worker s k = Absent" "k = 0 \<Longrightarrow> worker s 1 = Absent"
    by (auto simp: process_ok_def main_ok_def absent_from_def)
  then have "counting_ok (global_counter s) (worker s' 0) (worker s' 1)"
    using assms(2) created counting_created counting_sym
    by (cases "k = 0") (auto simp: process_ok_def less_2_cases_iff dest: counting_sym)
  with k created show ?thesis
    by (auto simp: process_ok_def main_ok_def absent_from_def next_create_def progress_def less_2_cases_iff)
next
  case (thread k s1 p)
  then show ?thesis using thread_step_ok [OF assms(2)] by blast
qed (auto simp: process_ok_def main_ok_def absent_from_def next_create_def progress_def less_2_cases_iff split: if_splits)

lemma new_process_ok: "process_ok (new_process ch st)"
  using counting_start by (simp add: process_ok_def main_ok_def absent_from_def new_process_def)

lemma reached_ok: "process_step\<^sup>*\<^sup>* (new_process ch st) s \<Longrightarrow> process_ok s"
  by (induction rule: rtranclp_induct) (auto simp: new_process_ok dest: process_step_ok)

text \<open>Every run ends.\<close>

lemma no_infinite_run:
  assumes "process_ok (run 0)" "\<forall>i. process_step (run i) (run (Suc i))"
  shows False
proof -
  have "process_ok (run i)" for i
    by (induction i) (use assms process_step_ok in blast)+
  then have "(run (Suc i), run i) \<in> progress" for i using assms(2) process_step_ok by blast
  with wf_progress show False using wf_no_infinite_down_chainE by blast
qed

lemma final_process:
  assumes "process_ok s" "\<And>s'. \<not> process_step s s'"
  shows "main_at s = Returned" "settled (worker s 0)" "settled (worker s 1)"
    "worker s 0 \<noteq> Absent \<or> worker s 1 \<noteq> Absent \<Longrightarrow> 110 \<le> unat (global_counter s)"
proof -
  show "main_at s = Returned"
  proof (cases "main_at s")
    case (Complain k out)
    then show ?thesis using assms(2) complain complained by (cases out) blast+
  qed (use assms(2) set_char created in blast)+
  have "settled (worker s k)" if "k < 2" for k
    using thread [OF that] assms(2) thread_stuck [of "thread_id s k" s "worker s k"]
    by (cases "thread_main (thread_id s k) s (worker s k)") auto
  then show st: "settled (worker s 0)" "settled (worker s 1)" by simp_all
  show "110 \<le> unat (global_counter s)" if "worker s 0 \<noteq> Absent \<or> worker s 1 \<noteq> Absent"
    using st that assms(1) by (auto simp: process_ok_def counting_defs)
qed

text \<open>C39. The processes of the user program end, in whatever order their threads run and whatever the system
  calls return: no run goes on for ever. When a process can do no more, its main thread has returned, every thread that
  was created has left its loop, the counter is 110 or 111 if there was one, and the threads have
  printed at least ten lines together. There can be more than ten, but not more than 1799, because the increments
  are not atomic and a late write takes the counter back.\<close>

theorem process_ends:
  "(\<nexists>run. run 0 = new_process ch st \<and> (\<forall>i. process_step (run i) (run (Suc i)))) \<and>
   (\<forall>s. process_step\<^sup>*\<^sup>* (new_process ch st) s \<longrightarrow>
     global_counter s \<le> 111 \<and> own_count (worker s 0) + own_count (worker s 1) \<le> 1799 \<and>
     ((\<nexists>s'. process_step s s') \<longrightarrow>
        main_at s = Returned \<and> settled (worker s 0) \<and> settled (worker s 1) \<and>
        (worker s 0 \<noteq> Absent \<or> worker s 1 \<noteq> Absent \<longrightarrow>
           110 \<le> global_counter s \<and> 10 \<le> own_count (worker s 0) + own_count (worker s 1))))"
proof (intro conjI allI impI)
  show "\<nexists>run. run 0 = new_process ch st \<and> (\<forall>i. process_step (run i) (run (Suc i)))"
    using no_infinite_run new_process_ok by metis
next
  fix s assume "process_step\<^sup>*\<^sup>* (new_process ch st) s"
  then have ok: "process_ok s" by (rule reached_ok)
  then show "global_counter s \<le> 111" "own_count (worker s 0) + own_count (worker s 1) \<le> 1799"
    by (auto simp: process_ok_def counting_defs word_le_nat_alt)
  assume fin: "\<nexists>s'. process_step s s'"
  then show "main_at s = Returned" "settled (worker s 0)" "settled (worker s 1)"
    using final_process [OF ok] by blast+
  assume "worker s 0 \<noteq> Absent \<or> worker s 1 \<noteq> Absent"
  with fin have g: "110 \<le> unat (global_counter s)" using final_process(4) [OF ok] by blast
  then show "110 \<le> global_counter s" by (simp add: word_le_nat_alt)
  from g show "10 \<le> own_count (worker s 0) + own_count (worker s 1)"
    using ok by (simp add: process_ok_def counting_defs)
qed

lemma final_exists:
  assumes "process_ok s"
  shows "\<exists>u. process_step\<^sup>*\<^sup>* s u \<and> (\<nexists>u'. process_step u u')"
  using assms
proof (induction s rule: wf_induct_rule [OF wf_progress])
  case (1 s)
  show ?case
  proof (cases "\<exists>s'. process_step s s'")
    case True
    then obtain s' where s': "process_step s s'" by blast
    from process_step_ok [OF this 1(2)] 1(1) obtain u where "process_step\<^sup>*\<^sup>* s' u" "\<nexists>u'. process_step u u'" by blast
    then show ?thesis using s' by (meson converse_rtranclp_into_rtranclp)
  qed blast
qed

lemma worker_stays:
  assumes "process_step s s'" "process_ok s" "worker s 0 \<noteq> Absent"
  shows "worker s' 0 \<noteq> Absent"
  using assms(1)
proof (cases rule: process_step.cases)
  case (thread k s1 p)
  have "counting_ok (global_counter s) (worker s k) (worker s (1 - k))"
    using thread(2) assms(2) counting_sym by (cases "k = 0") (auto simp: process_ok_def less_2_cases_iff)
  from thread_counts [OF thread(3) this] show ?thesis using thread(1) assms(3) by simp
qed (use assms(3) in simp_all)

definition first_worker :: "log_state \<Rightarrow> user_process" where
  "first_worker st = (new_process 97 st)\<lparr>global_ch := 97, worker := (\<lambda>_. Absent)(0 := Test 0),
     thread_id := (\<lambda>_. 0)(0 := 1), main_at := Create 1\<rparr>"

lemma first_worker_reached: "process_step\<^sup>*\<^sup>* (new_process 97 st) (first_worker st)"
proof -
  let ?s = "(new_process 97 st)\<lparr>global_ch := 97, main_at := Create 0\<rparr>"
  have "process_step (new_process 97 st) ?s" by (rule set_char) (simp add: new_process_def)
  moreover have "process_step ?s (first_worker st)"
    using created [of ?s 0 1] by (simp add: first_worker_def next_create_def new_process_def)
  ultimately show ?thesis by (rule converse_rtranclp_into_rtranclp [OF _ r_into_rtranclp])
qed

theorem process_ends_witness:
  "\<forall>st. \<exists>s. process_step\<^sup>*\<^sup>* (new_process 97 st) s \<and> main_at s = Returned \<and> 110 \<le> global_counter s \<and>
     global_counter s \<le> 111 \<and> 10 \<le> own_count (worker s 0) + own_count (worker s 1)"
proof
  fix st
  let ?s = "first_worker st"
  have ok: "process_ok ?s" by (rule reached_ok [OF first_worker_reached])
  from final_exists [OF ok] obtain u where u: "process_step\<^sup>*\<^sup>* ?s u" "\<nexists>u'. process_step u u'" by blast
  from u(1) ok have "process_ok u \<and> worker u 0 \<noteq> Absent"
  proof (induction rule: rtranclp_induct)
    case base
    then show ?case by (simp add: first_worker_def)
  next
    case (step y z)
    then show ?case using process_step_ok worker_stays by blast
  qed
  moreover have "process_step\<^sup>*\<^sup>* (new_process 97 st) u" using first_worker_reached u(1) by (rule rtranclp_trans)
  ultimately show "\<exists>s. process_step\<^sup>*\<^sup>* (new_process 97 st) s \<and> main_at s = Returned \<and> 110 \<le> global_counter s \<and>
     global_counter s \<le> 111 \<and> 10 \<le> own_count (worker s 0) + own_count (worker s 1)"
    using process_ends [of 97 st] u(2) by blast
qed

text \<open>An increment can be lost: two threads read the same value, both write its successor, and the counter has
  gone up by one for two increments.\<close>

definition two_workers :: "point \<Rightarrow> point \<Rightarrow> u32 \<Rightarrow> log_state \<Rightarrow> user_process" where
  "two_workers p q c st = (new_process 97 st)\<lparr>global_ch := 97, global_counter := c,
     worker := (\<lambda>_. Absent)(0 := p, 1 := q), thread_id := (\<lambda>_. 0)(0 := 1, 1 := 2), main_at := Returned\<rparr>"

lemma two_workers_step:
  "thread_main 1 (two_workers p q c st) p = Some (two_workers p q c' st, p') \<Longrightarrow>
     process_step (two_workers p q c st) (two_workers p' q c' st)"
  "thread_main 2 (two_workers p q c st) q = Some (two_workers p q c' st, q') \<Longrightarrow>
     process_step (two_workers p q c st) (two_workers p q' c' st)"
  using thread [of 0 "two_workers p q c st" "two_workers p q c' st" p'] thread [of 1 "two_workers p q c st" "two_workers p q c' st" q']
  by (simp_all add: two_workers_def new_process_def fun_upd_twist)

lemma lost_update:
  "process_step\<^sup>*\<^sup>* (new_process 97 st) (two_workers (Arguments 1) (Arguments 1) 101 st)"
proof -
  have steps: "process_step (first_worker st) (two_workers (Test 0) (Test 0) 100 st)"
    "process_step (two_workers (Test 0) (Test 0) 100 st) (two_workers (Load 0) (Test 0) 100 st)"
    "process_step (two_workers (Load 0) (Test 0) 100 st) (two_workers (Load 0) (Load 0) 100 st)"
    "process_step (two_workers (Load 0) (Load 0) 100 st) (two_workers (Store 0 100) (Load 0) 100 st)"
    "process_step (two_workers (Store 0 100) (Load 0) 100 st) (two_workers (Store 0 100) (Store 0 100) 100 st)"
    "process_step (two_workers (Store 0 100) (Store 0 100) 100 st) (two_workers (Arguments 1) (Store 0 100) 101 st)"
    "process_step (two_workers (Arguments 1) (Store 0 100) 101 st) (two_workers (Arguments 1) (Arguments 1) 101 st)"
    using created [of "first_worker st" 1 2]
    by (simp add: first_worker_def two_workers_def next_create_def new_process_def)
      (rule two_workers_step, simp add: two_workers_def GLOBAL_COUNTER_LIMIT_def)+
  show ?thesis
    by (rule rtranclp_trans [OF first_worker_reached])
      (rule converse_rtranclp_into_rtranclp, rule steps(1), rule converse_rtranclp_into_rtranclp, rule steps(2),
       rule converse_rtranclp_into_rtranclp, rule steps(3), rule converse_rtranclp_into_rtranclp, rule steps(4),
       rule converse_rtranclp_into_rtranclp, rule steps(5), rule converse_rtranclp_into_rtranclp, rule steps(6),
       rule r_into_rtranclp, rule steps(7))
qed

end
