(* ===== verification/User_Timing.thy ===== *)
theory User_Timing
  imports Prelude
begin

text \<open>
  \<^verbatim>\<open>user/lib/timing.c\<close>: busy waiting in user programs. \<open>clock i\<close> is the result of the \<open>i\<close>-th call of
  \<^verbatim>\<open>sys$get_time\<close>; the functions return the number of calls they made, or the number of rounds.
\<close>

section \<open>Definitions\<close>

partial_function (option) sleep_loop :: "(nat \<Rightarrow> u32) \<Rightarrow> u32 \<Rightarrow> nat \<Rightarrow> nat option" where
  "sleep_loop clock deadline i =
     (if clock i < deadline then sleep_loop clock deadline (Suc i) else Some (Suc i))"

declare sleep_loop.simps [code]

definition sleep_milliseconds :: "(nat \<Rightarrow> u32) \<Rightarrow> u32 \<Rightarrow> nat option" where
  "sleep_milliseconds clock ms =
     (let initial = clock 0
      in sleep_loop clock (initial + ms) 1)"

fun sleep_macgyver_loop :: "nat \<Rightarrow> nat \<Rightarrow> nat" where
  "sleep_macgyver_loop i 0 = i"
| "sleep_macgyver_loop i (Suc n) = sleep_macgyver_loop (Suc i) n"

definition sleep_macgyver :: "u32 \<Rightarrow> nat" where
  "sleep_macgyver instrs = sleep_macgyver_loop 0 (unat instrs)"

section \<open>When the wait ends\<close>

lemma sleep_loop_first:
  assumes "\<not> clock (i + k) < deadline" "\<And>j. j < k \<Longrightarrow> clock (i + j) < deadline"
  shows "sleep_loop clock deadline i = Some (Suc (i + k))"
  using assms
proof (induction k arbitrary: i)
  case 0
  then show ?case by (subst sleep_loop.simps) simp
next
  case (Suc k)
  have "sleep_loop clock deadline (Suc i) = Some (Suc (Suc i + k))"
    by (rule Suc.IH) (use Suc.prems(1) Suc.prems(2) [of "Suc _"] in simp_all)
  moreover have "clock i < deadline" using Suc.prems(2) [of 0] by simp
  ultimately show ?case by (subst sleep_loop.simps) simp
qed

text \<open>It ends at the first time that is not before the deadline, whose 32 bits may have wrapped around:
  then it ends at once.\<close>

lemma sleep_milliseconds_first:
  assumes "\<not> clock (Suc k) < clock 0 + ms" "\<And>j. j < k \<Longrightarrow> clock (Suc j) < clock 0 + ms"
  shows "sleep_milliseconds clock ms = Some (Suc (Suc k))"
  using sleep_loop_first [of clock 1 k "clock 0 + ms"] assms by (simp add: sleep_milliseconds_def Let_def)

lemma sleep_milliseconds_wrap:
  assumes "clock 0 + ms < clock 0" "clock 0 \<le> clock 1"
  shows "sleep_milliseconds clock ms = Some 2"
  using sleep_milliseconds_first [of clock 0 ms] assms by (simp add: not_less)

lemma sleep_macgyver_rounds: "sleep_macgyver instrs = unat instrs"
proof -
  have "sleep_macgyver_loop i n = i + n" for i n by (induction n arbitrary: i) auto
  then show ?thesis by (simp add: sleep_macgyver_def)
qed

end
