(* ===== verification/Spec2Isabelle.thy ===== *)
theory Spec2Isabelle
  imports Example Protection Fraction_Arithmetic Label_Colors Register_Check Entry User_Counting User_Timing
begin

text \<open>
  A model of bspraktOS, a small operating system kernel for a 32 bit ARM board, and the properties
  that make it correct.

  \<^bold>\<open>The program.\<close> The kernel starts in \<^verbatim>\<open>kernel/start.c\<close>, sets up the serial port, the timer, the
  memory management unit and the scheduler, and then waits as the idle thread. From there on it only
  runs in its exception handlers (\<^verbatim>\<open>kernel/interrupt.c\<close>): the timer interrupt switches threads, the
  interrupt of the serial port fills a ring buffer, a software interrupt is a system call, and an
  exception of a user thread ends it. The scheduler (\<^verbatim>\<open>kernel/scheduler.c\<close>) keeps 32 user threads
  in doubly linked lists and in eight processes of four slots each; a switch exchanges the saved
  registers and the part of the translation table that belongs to the process.

  \<^bold>\<open>How it is modelled.\<close> A function of the program is a function of the same name that takes the state
  it reads and returns the state it changes. A failed assertion, a panic, an access through a null
  pointer or outside of an array, an overflow of a signed number and a loop that does not end have
  no result (\<^verbatim>\<open>None\<close>). Unsigned numbers are words of their width, \<^verbatim>\<open>long\<close> is an integer with a range
  check at every operation. Reads of device registers come from the environment \<^verbatim>\<open>env\<close>, which may
  give any value at every read; writes are recorded. Translation of addresses by the hardware, the
  addresses that the linker chooses and the code of the user programs are parameters of \<^verbatim>\<open>env\<close> as well.

  \<^item> \<^verbatim>\<open>Prelude\<close>: assertions, the range of \<^verbatim>\<open>long\<close>, C division, bounded loops, and facts on words;
    \<^verbatim>\<open>include/kernel/lib/kassertions.h\<close>, \<^verbatim>\<open>kerror.h\<close>.
  \<^item> \<^verbatim>\<open>Kmath\<close>, \<^verbatim>\<open>Kstring\<close>, \<^verbatim>\<open>Khash\<close>, \<^verbatim>\<open>Kfraction\<close>, \<^verbatim>\<open>Ktiming\<close>, \<^verbatim>\<open>Kcolor\<close>, \<^verbatim>\<open>Kprintf\<close>: the files of the same
    name under \<^verbatim>\<open>kernel/lib\<close> (\<^verbatim>\<open>Kprintf\<close> also \<^verbatim>\<open>kascii.c\<close>). \<^verbatim>\<open>Fraction_Arithmetic\<close>: when the fractions and the
    conversions of times are exact; \<^verbatim>\<open>Kprintf_Numbers\<close>: what a printed number looks like.
  \<^item> \<^verbatim>\<open>Node_Lists\<close>, \<^verbatim>\<open>Intrusive_List\<close>: \<^verbatim>\<open>kernel/lib/kintrusive_list.c\<close> on an explicit heap of nodes. The
    locale \<open>node_lists\<close> states what the scheduler needs of lists of nodes: where a removed and an added
    node ends up and that nothing else changes; the heap model is its interpretation.
  \<^item> \<^verbatim>\<open>Fifo\<close>, \<^verbatim>\<open>Kringbuffer\<close>: \<^verbatim>\<open>kernel/lib/kringbuffer.c\<close>. The locale \<open>fifo\<close> states a bounded queue of blocks
    and proves what every history of calls preserves; the ring buffer is its interpretation.
  \<^item> \<^verbatim>\<open>Machine\<close>: the memory map (\<^verbatim>\<open>include/arch/bsp\<close>), device registers, processor modes, raw memory.
    \<^verbatim>\<open>Systimer\<close>, \<^verbatim>\<open>Pl001\<close>: \<^verbatim>\<open>arch/bsp/systimer.c\<close> and \<^verbatim>\<open>pl001.c\<close>. \<^verbatim>\<open>Fault_Status\<close>: \<^verbatim>\<open>arch/cpu\<close>.
  \<^item> \<^verbatim>\<open>Mmu\<close>: \<^verbatim>\<open>kernel/mmu.c\<close>, table entries as records with their bit layout. \<^verbatim>\<open>Mmu_Tables\<close> and \<^verbatim>\<open>Mmu_L1\<close>
    compute the tables that are built, \<^verbatim>\<open>Protection\<close> says what they allow.
  \<^item> \<^verbatim>\<open>Scheduler\<close>: \<^verbatim>\<open>kernel/scheduler.c\<close>, with the record \<^verbatim>\<open>kernel\<close> as the whole state. \<^verbatim>\<open>Scheduler_Spec\<close>
    relates the linked lists to plain lists of thread numbers (the record \<^verbatim>\<open>sched\<close>) and shows that every
    operation refines the operation on those; \<^verbatim>\<open>Scheduler_Integrity\<close> is about the run time check of
    the lists, \<^verbatim>\<open>Scheduler_Switch\<close> about the context switch, \<^verbatim>\<open>Scheduler_Invariant\<close> about the invariant
    \<open>scheduler_ok\<close> (lists, owners of slots, stacks), \<^verbatim>\<open>Scheduler_Init\<close> about its start and
    \<^verbatim>\<open>Scheduler_Frame\<close> about what operations leave alone.
  \<^item> \<^verbatim>\<open>Syscall\<close>, \<^verbatim>\<open>Syscall_Invariant\<close>: \<^verbatim>\<open>kernel/syscall_impl.c\<close>, all eight calls and what each does.
    \<^verbatim>\<open>Register_Dump\<close>, \<^verbatim>\<open>Interrupt\<close>, \<^verbatim>\<open>Start\<close>: the files of the same name under \<^verbatim>\<open>kernel\<close>.
  \<^item> \<^verbatim>\<open>Kernel_Run\<close>, \<^verbatim>\<open>Kernel_Reach\<close>: the handlers keep the invariant, and the states that a run of the
    kernel can reach (\<open>kernel_step\<close>, \<open>reachable\<close>). \<^verbatim>\<open>Example\<close>: a concrete machine and some of its states.
  \<^item> \<^verbatim>\<open>Exception_Stubs\<close>: the assembly between an exception and its handler (\<^verbatim>\<open>arch/cpu/interrupt_vector_table.S\<close>)
    and between a user program and its \<^verbatim>\<open>svc\<close> instruction (\<^verbatim>\<open>user/lib/syscall.S\<close>). \<^verbatim>\<open>Entry\<close>: \<^verbatim>\<open>arch/cpu/entry.S\<close>.
  \<^item> \<^verbatim>\<open>Log\<close>: the macros of \<^verbatim>\<open>include/kernel/lib/kdebug.h\<close>, as the characters they print. \<^verbatim>\<open>Label_Colors\<close>: the
    colours of some labels, one of them undefined. \<^verbatim>\<open>Register_Check\<close>: \<^verbatim>\<open>kernel/regcheck.c\<close>.
  \<^item> \<^verbatim>\<open>User_Fraction\<close>, \<^verbatim>\<open>User_Color\<close>, \<^verbatim>\<open>User_Text\<close>, \<^verbatim>\<open>User_Log\<close>, \<^verbatim>\<open>User_Timing\<close>: the library for user programs
    (\<^verbatim>\<open>user/lib\<close>, \<^verbatim>\<open>include/user/lib/debug.h\<close>), mostly second copies of the kernel's functions, and that the copies agree.
  \<^item> \<^verbatim>\<open>User_Program\<close>: \<^verbatim>\<open>user/main.c\<close>, with a step for every access to a shared variable. \<^verbatim>\<open>User_Counting\<close>: its
    threads end in every order of their steps.
  \<^item> This theory: the properties of the kernel as a whole.

  \<^bold>\<open>Loops.\<close> No loop has a bound that the program does not have. Loops over lists, over overdue threads,
  over received characters and loops that poll a device are partial functions, and that they end is
  proved: list loops because the lists are circular, the loops of the interrupt handler because each
  round removes a thread from a list, polling exactly when the device gets ready. The counting loops of the
  user program end by a lexicographic measure, whatever the order of their steps.

  \<^bold>\<open>What the properties show.\<close> In every reachable state the lists, slots and stacks of the threads are
  consistent, user threads run in user mode and are isolated from each other as long as they live;
  the handlers return; each system call does what it promises, errors included; and where the code
  falls short, the exact effect: the order of the stall list, the lost condition flags, stale
  mappings of stacks, lost precision of the fractions.

  \<^bold>\<open>Not modelled.\<close> The endurance loops of the self-test (\<^verbatim>\<open>arch/cpu/regcheck_asm.S\<close>, not called by the
  kernel), helpers nobody calls (\<^verbatim>\<open>get_current_sp\<close>, \<^verbatim>\<open>set_current_sp\<close>), build and link scripts. The messages of
  the log are modelled as such, but left out of the functions that write them: they read the state and change
  nothing but the output. What a C function keeps on the stack of its mode is arbitrary below the saved registers.
  Caches and the translation buffer of the processor are not part of the state.
\<close>

section \<open>The machine as a whole\<close>

text \<open>C1. In every state the kernel can rest in, from the end of \<open>start_kernel\<close> through any
  sequence of interrupts, exceptions and system calls whose handlers return, the ring buffer of
  the serial port is valid and the scheduler's data is well-formed: every list of nodes is a proper
  circular list, no thread is in two of them, every user thread is in exactly one, at most one runs,
  each live thread has a process, a slot of it nobody else has and its own stack, and
  \<open>slots_used\<close> says which slots are taken.\<close>

theorem kernel_invariant:
  assumes "reachable e s" "l2_stack_tables_address e mod KiB = 0"
  shows "rb_valid (cache s) \<and> (\<exists>A. scheduler_ok e s A)"
  using reachable_resting [OF assms] by (simp add: resting_ok_def)

theorem kernel_invariant_witness: "rb_valid (cache running_kernel) \<and> (\<exists>A. scheduler_ok machine running_kernel A)"
  by (rule kernel_invariant [OF running_reachable machine_aligned])

text \<open>C2. Whatever handler returned last, the saved program status that the final \<^verbatim>\<open>movs pc, lr\<close>
  restores has user mode exactly when the running thread is a user thread: no user thread is ever
  resumed in a privileged mode, and the idle loop never in user mode.\<close>

theorem return_mode:
  assumes "reachable e s" "kernel_step e s s'" "l2_stack_tables_address e mod KiB = 0"
  shows "get_spsr s' AND psr_mode = psr_mode_user \<longleftrightarrow> user_thread_runs s'"
  by (rule kernel_step_mode [OF assms])

theorem return_mode_witness:
  "get_spsr running_kernel AND psr_mode = psr_mode_user \<longleftrightarrow> user_thread_runs running_kernel"
  by (rule return_mode [OF started_kernel_ok(1) running_kernel_ok(1) machine_aligned])

text \<open>C3. \<open>start_kernel\<close>, built without colours, reaches the idle loop, provided the serial
  port keeps getting ready: the tables are built, the scheduler is initialised with one ready
  thread, which runs \<open>user_main\<close>, the 31 others are free, and the cache of the serial port is
  empty. Built with colours, which is the default, it has no defined result: the preview of the
  colours overflows a signed number at the label \<^verbatim>\<open>Color\<close>.\<close>

theorem boot_returns:
  assumes "l2_stack_tables_address e mod KiB = 0" "length buffer = UART_INPUT_BUFFER_SIZE" "port_lives e"
  shows "(\<exists>mmu' s. start_kernel False e buffer mmu m f c d = Some (mmu', s) \<and>
      scheduler_ok e s (spawn 0 0 boot_lists) \<and> rb_valid (cache s) \<and> rb_contents (cache s) = []) \<and>
    start_kernel True e buffer mmu m f c d = None"
proof -
  obtain mmu' s where k: "start_kernel False e buffer mmu m f c d = Some (mmu', s)"
    using start_kernel_returns [OF assms] by blast
  then show ?thesis using start_kernel_ok [OF k assms(1,2)] by (auto simp: coloured_start)
qed

theorem boot_returns_witness:
  "(\<exists>mmu' s. start_kernel False machine uart_memory blank_mmu (\<lambda>_. 0) zero_registers system_mode
        \<lparr>reads = 0, writes = []\<rparr> = Some (mmu', s) \<and>
      scheduler_ok machine s (spawn 0 0 boot_lists) \<and> rb_valid (cache s) \<and> rb_contents (cache s) = []) \<and>
    start_kernel True machine uart_memory blank_mmu (\<lambda>_. 0) zero_registers system_mode
      \<lparr>reads = 0, writes = []\<rparr> = None"
  by (rule boot_returns [OF machine_aligned uart_memory_length machine_port])

section \<open>The scheduler\<close>

text \<open>C4. A switch, on the abstract lists: the next thread is the first ready one (the idle thread if
  there is none), it leaves the ready list and runs, and the thread that ran goes behind the other
  ready threads with its context saved, unless it is the idle thread. The switch completes exactly
  when the stalled threads are sorted by deadline; otherwise the integrity check stops the kernel.\<close>

theorem round_robin_switches:
  assumes "scheduler_ok e s A" "ready A = [] \<Longrightarrow> IDLE_THREAD_INDEX \<notin> set (running A)"
    and "type = forced \<or> ready A \<noteq> [] \<or> running A = []"
  shows "\<exists>h. scheduler_round_robin e type s =
      (if stall_sorted s A then Some (switch_effect A s\<lparr>nodes := h\<rparr>) else None) \<and>
    (stall_sorted s A \<longrightarrow> scheduler_ok e (switch_effect A s\<lparr>nodes := h\<rparr>) (switch_lists A))"
proof (cases "stall_sorted s A")
  case True
  from round_robin_ok [OF assms(1) True assms(2,3)] show ?thesis using True by auto
next
  case False
  from round_robin_halts [OF assms(1) False assms(2,3)] show ?thesis using False by simp
qed

theorem round_robin_switches_witness:
  "\<exists>h. scheduler_round_robin machine forced running_kernel =
      (if stall_sorted running_kernel running_lists
       then Some (switch_effect running_lists running_kernel\<lparr>nodes := h\<rparr>) else None) \<and>
    (stall_sorted running_kernel running_lists \<longrightarrow>
       scheduler_ok machine (switch_effect running_lists running_kernel\<lparr>nodes := h\<rparr>) (switch_lists running_lists))"
  by (rule round_robin_switches [OF running_kernel_ok(2)]) (simp_all add: IDLE_THREAD_INDEX_def USER_THREAD_COUNT_def)

text \<open>C5. On well-formed lists the integrity check of \<^verbatim>\<open>scheduler.c\<close> accepts exactly the states
  in which the stalled threads are in the order of their deadlines.\<close>

theorem integrity_check_iff:
  assumes "lists (nodes s) A" "tids_ok s"
  shows "scheduler_verify_thread_list_integrity s = Some () \<longleftrightarrow> stall_sorted s A"
  using integrity_eq [OF assms] by simp

theorem integrity_check_iff_witness:
  "scheduler_verify_thread_list_integrity running_kernel = Some () \<longleftrightarrow> stall_sorted running_kernel running_lists"
  by (rule integrity_check_iff [OF scheduler_okD(1,2) [OF running_kernel_ok(2)]])









text \<open>C10. The errors of both calls: an argument larger than a stack gives \<open>-K_EINVAL\<close>, no empty
  process or no free slot gives \<open>-K_EBUSY\<close>, in the caller's \<open>r0\<close>; nothing else changes.\<close>

theorem create_errors:
  assumes "scheduler_ok e s A" "running A = [c]"
  shows "(general (frame s) 2 > STACK_SIZE \<longrightarrow>
      dispatch_syscall e SYSCALL_CREATE_PROCESS_NO s = Some (0, set_result (- K_EINVAL) s) \<and>
      dispatch_syscall e SYSCALL_CREATE_THREAD_NO s = Some (0, set_result (- K_EINVAL) s)) \<and>
    (general (frame s) 2 \<le> STACK_SIZE \<and> (\<forall>p < ADDRESS_SPACE_COUNT. space A p \<noteq> []) \<longrightarrow>
      dispatch_syscall e SYSCALL_CREATE_PROCESS_NO s = Some (0, set_result (- K_EBUSY) s)) \<and>
    (general (frame s) 2 \<le> STACK_SIZE \<and> (\<forall>i < THREADS_PER_ADDRESS_SPACE. slots_used s (pid (blocks s c)) i) \<longrightarrow>
      dispatch_syscall e SYSCALL_CREATE_THREAD_NO s = Some (0, set_result (- K_EBUSY) s))"
  using create_process_errors [OF assms(1)] create_thread_errors [OF assms] by (simp add: not_less)

theorem create_errors_witness:
  "let s = running_kernel\<lparr>frame := zero_registers\<lparr>general := (\<lambda>_. STACK_SIZE + 1)\<rparr>\<rparr> in
    dispatch_syscall machine SYSCALL_CREATE_PROCESS_NO s = Some (0, set_result (- K_EINVAL) s) \<and>
    dispatch_syscall machine SYSCALL_CREATE_THREAD_NO s = Some (0, set_result (- K_EINVAL) s)"
  using create_errors [of machine "running_kernel\<lparr>frame := zero_registers\<lparr>general := (\<lambda>_. STACK_SIZE + 1)\<rparr>\<rparr>" running_lists 0]
    running_kernel_ok(2)
  by (simp add: memory_map_defs)



text \<open>C12. A thread that goes to sleep for a time that ends before the first deadline of the other
  sleepers stops the kernel: the call returns, but \<open>k_insert_sorted\<close> has put the thread at the end
  of the list, and the integrity check of the next switch fails.\<close>

theorem early_stall_panics:
  assumes "scheduler_ok e s A" "running A = [t]" "t \<noteq> IDLE_THREAD_INDEX" "stall_sorted s A" "ready A \<noteq> []"
    and "general (frame s) 0 \<noteq> 0" "ktiming_milliseconds_to_hertz (general (frame s) 0) 0 = Some (hz, err)" "\<not> err < 0"
    and "stalled A = u # us" "\<forall>n. volatile e n (systimer_register CLO) + hz < stall_until (blocks s u)"
  shows "\<exists>s'. dispatch_syscall e SYSCALL_STALL_THREAD_NO s = Some (0, s') \<and> scheduler_round_robin e forced s' = None"
proof -
  obtain s' k d n where s': "d = volatile e n (systimer_register CLO) + hz"
    "dispatch_syscall e SYSCALL_STALL_THREAD_NO s = Some (0, s')"
    "scheduler_ok e s' (wake k (stall_lists t (\<lambda>x. stall_until (blocks s x)) d A))"
    "hd (stalled (stall_lists t (\<lambda>x. stall_until (blocks s x)) d A)) \<noteq> t \<or>
      (\<forall>m. volatile e m (systimer_register CLO) + TOCTOU_PAD < d) \<Longrightarrow> k = 0"
    "\<And>x. stall_until (blocks s' x) = (if x = t then d else stall_until (blocks s x))"
    by (rule stall_thread_spec [OF assms(1-4,6-8)]) (rule that)
  let ?B = "stall_lists t (\<lambda>x. stall_until (blocks s x)) d A"
  have d: "d < stall_until (blocks s u)" using assms(10) s'(1) by blast
  then have "\<not> stall_until (blocks s u) \<le> d" by (simp add: not_le)
  then have st: "stalled ?B = u # us @ [t]" using assms(9) by (simp add: stall_lists_def insert_sorted_list_def)
  have "u \<noteq> t" using lists_threads_disjoint(8) [OF scheduler_okD(1) [OF assms(1)]] assms(2,9) by auto
  then have k: "k = 0" by (intro s'(4)) (simp add: st)
  with s'(3) have ok: "scheduler_ok e s' ?B" by simp
  have "\<not> stall_sorted s' ?B"
    using s'(5) d \<open>u \<noteq> t\<close> by (simp add: stall_sorted_def st sorted_append not_le)
  then have "scheduler_round_robin e forced s' = None"
  proof (rule round_robin_halts [OF ok])
    have "IDLE_THREAD_INDEX \<notin> set (ready A)" by (rule placed_idle(1) [OF scheduler_okD(3) [OF assms(1)]])
    then show "IDLE_THREAD_INDEX \<notin> set (running ?B)"
      using assms(5) by (cases "ready A") (auto simp: stall_lists_def yield_lists_def next_thread_def)
  qed simp
  with s'(2) show ?thesis by blast
qed

theorem early_stall_panics_witness:
  "\<exists>s'. dispatch_syscall machine SYSCALL_STALL_THREAD_NO
      (sleeping_kernel\<lparr>frame := zero_registers\<lparr>general := (\<lambda>_. 1)\<rparr>\<rparr>) = Some (0, s') \<and>
    scheduler_round_robin machine forced s' = None"
  by (rule early_stall_panics [of _ _ sleeping_lists 1 1000 0 0 "[]"])
    (simp_all add: sleeping_kernel_ok stall_sorted_def sleep_ticks machine_counter IDLE_THREAD_INDEX_def
      USER_THREAD_COUNT_def)

text \<open>C13. The loop over overdue threads always ends. It wakes the longest prefix of the stalled threads
  whose deadlines are not further than \<open>TOCTOU_PAD\<close> ticks ahead when they are looked at, appends it to
  the ready threads in order, and sets the compare register to the first deadline that is left.\<close>

theorem overdue_threads_wake:
  assumes "scheduler_ok e s A"
  shows "\<exists>s' k. scheduler_unblock_overdue_waiting_threads e s = Some s' \<and>
    k = wake_count e (reads (io_regs s)) (map (\<lambda>t. stall_until (blocks s t)) (stalled A)) \<and>
    k \<le> length (stalled A) \<and> blocks s' = blocks s \<and>
    scheduler_ok e s' (A\<lparr>stalled := drop k (stalled A), ready := ready A @ take k (stalled A)\<rparr>) \<and>
    (k < length (stalled A) \<longrightarrow>
      last (writes (io_regs s')) = (systimer_register C3, stall_until (blocks s (stalled A ! k))))"
proof -
  let ?k = "wake_count e (reads (io_regs s)) (map (\<lambda>t. stall_until (blocks s t)) (stalled A))"
  obtain h d where h: "scheduler_unblock_overdue_waiting_threads e s = Some (s\<lparr>nodes := h, io_regs := d\<rparr>)"
      "lists h (wake ?k A)" "?k \<le> length (stalled A)"
      "?k < length (stalled A) \<longrightarrow> last (writes d) = (systimer_register C3, stall_until (blocks s (stalled A ! ?k)))"
    using unblock_overdue_refines [OF scheduler_okD(1) [OF assms], of e] by blast
  have "scheduler_ok e (s\<lparr>nodes := h, io_regs := d\<rparr>) (wake ?k A)"
    by (rule scheduler_ok_move [OF assms])
      (use h(2) placed_wake [OF scheduler_okD(3) [OF assms]] in simp_all)
  with h show ?thesis unfolding wake_def by (intro exI [of _ "s\<lparr>nodes := h, io_regs := d\<rparr>"] exI [of _ ?k]) simp
qed

theorem overdue_threads_wake_witness:
  "\<exists>s' k. scheduler_unblock_overdue_waiting_threads machine sleeping_kernel = Some s' \<and>
    k = wake_count machine (reads (io_regs sleeping_kernel))
      (map (\<lambda>t. stall_until (blocks sleeping_kernel t)) (stalled sleeping_lists)) \<and>
    k \<le> length (stalled sleeping_lists) \<and> blocks s' = blocks sleeping_kernel \<and>
    scheduler_ok machine s' (sleeping_lists\<lparr>stalled := drop k (stalled sleeping_lists),
      ready := ready sleeping_lists @ take k (stalled sleeping_lists)\<rparr>) \<and>
    (k < length (stalled sleeping_lists) \<longrightarrow> last (writes (io_regs s')) =
      (systimer_register C3, stall_until (blocks sleeping_kernel (stalled sleeping_lists ! k))))"
  by (rule overdue_threads_wake [OF sleeping_kernel_ok(1)])

text \<open>C14. Delivery of input: the characters in the cache go to the waiting threads, first to first, as
  many as there are of both; each of these threads gets its character as the result of its call and
  becomes ready, in order, and no other thread changes.\<close>

theorem input_delivery:
  assumes "scheduler_ok e s A" "rb_valid (cache s)"
  shows "\<exists>s' k. deliver_input s = Some s' \<and> k = min (length (waiting A)) (length (rb_contents (cache s))) \<and>
    scheduler_ok e s' (A\<lparr>waiting := drop k (waiting A), ready := ready A @ take k (waiting A)\<rparr>) \<and>
    rb_contents (cache s') = drop k (rb_contents (cache s)) \<and>
    (\<forall>i < k. general (regs (blocks s' (waiting A ! i))) 0 = ucast (rb_contents (cache s) ! i)) \<and>
    (\<forall>t. t \<in> set (take k (waiting A)) \<or> blocks s' t = blocks s t)"
proof -
  obtain s' where "deliver_input s = Some s'"
    "scheduler_ok e s' (A\<lparr>waiting := drop (min (length (waiting A)) (length (rb_contents (cache s)))) (waiting A),
      ready := ready A @ take (min (length (waiting A)) (length (rb_contents (cache s)))) (waiting A)\<rparr>)"
    "rb_contents (cache s') = drop (min (length (waiting A)) (length (rb_contents (cache s)))) (rb_contents (cache s))"
    "\<forall>i < min (length (waiting A)) (length (rb_contents (cache s))).
      general (regs (blocks s' (waiting A ! i))) 0 = ucast (rb_contents (cache s) ! i)"
    "\<forall>t. t \<notin> set (take (min (length (waiting A)) (length (rb_contents (cache s)))) (waiting A)) \<longrightarrow> blocks s' t = blocks s t"
    using deliver_input_ok [OF assms] by blast
  then show ?thesis by (intro exI [of _ s'] exI [of _ "min (length (waiting A)) (length (rb_contents (cache s)))"]) blast
qed

theorem input_delivery_witness:
  "\<exists>s'. deliver_input running_kernel = Some s' \<and> rb_contents (cache s') = rb_contents (cache running_kernel) \<and>
    (\<forall>t. blocks s' t = blocks running_kernel t)"
  using input_delivery [OF running_kernel_ok(2,4)] by auto

text \<open>C15. The interrupt handler returns whatever is pending, as long as the stalled threads are sorted
  by deadline: its loops end and no assertion fails.\<close>

theorem irq_returns:
  assumes "scheduler_ok e s A" "rb_valid (cache s)" "stall_sorted s A"
  shows "\<exists>s' B. irq_interrupt_handler e s = Some s' \<and> scheduler_ok e s' B \<and> rb_valid (cache s')"
proof -
  obtain s' where "irq_interrupt_handler e s = Some s'" using irq_ok(1) [OF assms] by blast
  with irq_ok(2) [OF assms(1,2) this] show ?thesis by blast
qed

theorem irq_returns_witness:
  "\<exists>s' B. irq_interrupt_handler machine running_kernel = Some s' \<and> scheduler_ok machine s' B \<and> rb_valid (cache s')"
  by (rule irq_returns [OF running_kernel_ok(2,4)]) (simp add: stall_sorted_def)


text \<open>The report of the example can be printed.\<close>

definition example_status :: status where
  "example_status = \<lparr>st_cpsr = psr_mode_undefined, st_spsr = psr_mode_user, banked = (\<lambda>_. (psr_mode_user, 0, 0)),
     ifsr = 5, ifar = 0, dfsr = 5, dfar = 0\<rparr>"

definition faulting_kernel :: kernel where
  "faulting_kernel = running_kernel\<lparr>frame := zero_registers,
     cpu_regs := \<lparr>spsr = psr_mode_user, sp_usr = 0, lr_usr = 0\<rparr>\<rparr>"

lemma example_report: "\<not> Option.is_none (dump_output undefined_instruction zero_registers example_status)"
  by code_simp

lemma example_dump: "dump machine undefined_instruction example_status faulting_kernel \<noteq> None"
proof -
  obtain out where "dump_output undefined_instruction zero_registers example_status = Some out"
    using example_report by (auto simp: Option.is_none_def)
  moreover have "example_status\<lparr>st_spsr := psr_mode_user\<rparr> = example_status" by (simp add: example_status_def)
  moreover obtain d where "send_all machine out (io_regs running_kernel) = Some d"
    using send_all_returns [OF machine_port] by blast
  ultimately show ?thesis by (simp add: dump_def dump_registers_def faulting_kernel_def get_spsr_def)
qed


text \<open>C17. An exception in the kernel stops it: if the saved mode is not user mode, none of the handlers
  for exceptions and system calls returns.\<close>

theorem kernel_fault_halts:
  assumes "get_spsr s AND psr_mode \<noteq> psr_mode_user"
  shows "undefined_instruction_interrupt_handler e st s = None \<and> software_interrupt_handler e st s = None \<and>
    prefetch_abort_interrupt_handler e st s = None \<and> data_abort_interrupt_handler e st s = None \<and>
    reset_interrupt_handler e st s = None"
proof -
  have "dump e kind st s \<bind> (\<lambda>s. if get_spsr s AND psr_mode = psr_mode_user then exit_thread e s else None) = None" for kind
    using assms by (cases "dump e kind st s") (auto dest!: dump_io)
  moreover have "dump e kind st s \<bind> (\<lambda>s. if get_spsr s AND psr_mode \<noteq> psr_mode_user then None else exit_thread e s) = None" for kind
    using assms by (cases "dump e kind st s") (auto dest!: dump_io)
  ultimately show ?thesis
    using assms
    by (simp add: undefined_instruction_interrupt_handler_def software_interrupt_handler_def
        prefetch_abort_interrupt_handler_def data_abort_interrupt_handler_def reset_interrupt_handler_def)
qed

theorem kernel_fault_halts_witness:
  "data_abort_interrupt_handler machine example_status (faulting_kernel\<lparr>cpu_regs := system_mode\<rparr>) = None"
  using kernel_fault_halts [of "faulting_kernel\<lparr>cpu_regs := system_mode\<rparr>" machine example_status]
  by (simp add: get_spsr_def system_mode_def psr_defs)

section \<open>Address spaces\<close>

text \<open>C20. In every reachable state two different live threads never share a slot of a process or a
  stack: their stack handles point to different second level tables, and each process maps the
  handle of each of its threads in that thread's slot.\<close>

theorem live_threads_isolated:
  assumes "reachable e s" "l2_stack_tables_address e mod KiB = 0"
  shows "\<exists>A. scheduler_ok e s A \<and> (\<forall>t \<in> live A.
    process_stack_handles s (pid (blocks s t)) (pid_slot (blocks s t)) = stack_handle (blocks s t) \<and>
    (\<forall>u \<in> live A. t = u \<or>
      (pid (blocks s t), pid_slot (blocks s t)) \<noteq> (pid (blocks s u), pid_slot (blocks s u)) \<and>
      stack_handle (blocks s t) \<noteq> stack_handle (blocks s u)))"
proof -
  obtain A where ok: "scheduler_ok e s A" using reachable_resting [OF assms] by (auto simp: resting_ok_def)
  have own: "owned s A" by (rule scheduler_okD(4) [OF ok])
  have st: "get_nth_stack_handle e t = Some (stack_handle (blocks s t))" "t < 38" if "t \<in> live A" for t
    using scheduler_okD(6) [OF ok] that by (simp_all add: stacks_ok_def live_def USER_THREAD_COUNT_def)
  have "stack_handle (blocks s t) \<noteq> stack_handle (blocks s u)" if "t \<in> live A" "u \<in> live A" "t \<noteq> u" for t u
    using get_nth_stack_handle_inj [OF assms(2) st(2) [OF that(1)] st(2) [OF that(2)]]
      st(1) [OF that(1)] st(1) [OF that(2)] that(3) by metis
  with own show ?thesis
    by (intro exI [of _ A] conjI ok) (auto simp: owned_def dest: inj_onD)
qed

theorem live_threads_isolated_witness:
  "\<exists>A. scheduler_ok machine running_kernel A \<and> (\<forall>t \<in> live A.
    process_stack_handles running_kernel (pid (blocks running_kernel t)) (pid_slot (blocks running_kernel t)) =
      stack_handle (blocks running_kernel t) \<and>
    (\<forall>u \<in> live A. t = u \<or>
      (pid (blocks running_kernel t), pid_slot (blocks running_kernel t)) \<noteq>
        (pid (blocks running_kernel u), pid_slot (blocks running_kernel u)) \<and>
      stack_handle (blocks running_kernel t) \<noteq> stack_handle (blocks running_kernel u)))"
  by (rule live_threads_isolated [OF running_reachable machine_aligned])

text \<open>C21. A completed switch to a thread of another process maps that process: its copy of the data
  section and the stacks of its four slots. Nothing else in the first level table changes, and a switch
  inside a process changes nothing. (The idle thread has the process number 8, so switching to it reads
  the four handles behind the array \<open>process_stack_handles\<close>.)\<close>

theorem switch_maps_process:
  assumes "scheduler_ok e s A" "ready A = [] \<Longrightarrow> IDLE_THREAD_INDEX \<notin> set (running A)"
    and "type = forced \<or> ready A \<noteq> [] \<or> running A = []" "scheduler_round_robin e type s = Some s'"
    and "p = pid (blocks s (next_thread A))"
  shows "if running A \<noteq> [] \<and> pid (blocks s (hd (running A))) = p then l1_table s' = l1_table s
    else s_base_address (unpack_l1_section (l1_table s' 6)) = of_nat p + 7 \<and>
      (\<forall>i < 4. unpack_l2_handle (l1_table s' (89 - i)) = process_stack_handles s p i) \<and>
      (\<forall>k. k = 6 \<or> k \<in> {86..89} \<or> l1_table s' k = l1_table s k)"
proof -
  have "stall_sorted s A" using round_robin_halts [OF assms(1) _ assms(2,3)] assms(4) by fastforce
  with assms(4) obtain h where s': "s' = switch_effect A s\<lparr>nodes := h\<rparr>"
    using round_robin_ok [OF assms(1) _ assms(2,3)] by (metis option.inject)
  have l1: "l1_table s' = (if running A \<noteq> [] \<and> pid (blocks s (hd (running A))) = p then l1_table s
      else process_table p s)"
    unfolding s' assms(5)
    by (auto simp: switch_effect_def scheduler_switch_thread_def enter_process_def Let_def process_table_def
        save_previous_def scheduler_save_thread_context_def set_thread_def split: list.splits)
  have "(ucast ((UBSS_UDATA_SECTION_START_ADDRESS + (of_nat p + 1) * MiB) div MiB) :: 12 word) = of_nat p + 7"
    by (rule data_section_base)
  then show ?thesis
    unfolding l1
    by (auto simp: process_table_def unpack_pack_l1_section unpack_pack_l2_handle less_4_cases)
qed

theorem switch_maps_process_witness:
  "if running busy_lists \<noteq> [] \<and> pid (blocks busy_kernel (hd (running busy_lists))) = pid (blocks busy_kernel 1)
   then l1_table (the (scheduler_round_robin machine forced busy_kernel)) = l1_table busy_kernel
   else s_base_address (unpack_l1_section (l1_table (the (scheduler_round_robin machine forced busy_kernel)) 6)) =
       of_nat (pid (blocks busy_kernel 1)) + 7 \<and>
     (\<forall>i < 4. unpack_l2_handle (l1_table (the (scheduler_round_robin machine forced busy_kernel)) (89 - i)) =
       process_stack_handles busy_kernel (pid (blocks busy_kernel 1)) i) \<and>
     (\<forall>k. k = 6 \<or> k \<in> {86..89} \<or>
       l1_table (the (scheduler_round_robin machine forced busy_kernel)) k = l1_table busy_kernel k)"
proof (rule switch_maps_process [OF busy_kernel_ok])
  have "stall_sorted busy_kernel busy_lists" by (simp add: stall_sorted_def)
  then obtain s' where "scheduler_round_robin machine forced busy_kernel = Some s'"
    using round_robin_ok [OF busy_kernel_ok, of forced] by auto
  then show "scheduler_round_robin machine forced busy_kernel = Some (the (scheduler_round_robin machine forced busy_kernel))"
    by simp
qed (simp_all add: next_thread_def)

text \<open>C24. A thread that is preempted comes back as it was: whatever happens in between, as long as its
  block is not touched, switching to it restores its registers, its stack pointer, its link register
  and the address where it was interrupted. The condition flags do not survive: they are in the saved
  program status, which \<open>scheduler_save_thread_context\<close> does not save, and the thread always
  resumes with a plain user mode status.\<close>

theorem context_round_trip:
  assumes "scheduler_ok e s A" "running A = [t]" "t \<noteq> IDLE_THREAD_INDEX" "ready A \<noteq> []"
    and "scheduler_round_robin e type s = Some s1" "blocks s2 t = blocks s1 t"
  shows "let r = scheduler_switch_thread t s2
    in general (frame r) = general (frame s) \<and> lr (frame r) = lr (frame s) \<and>
       sp_usr (cpu_regs r) = sp_usr (cpu_regs s) \<and> lr_usr (cpu_regs r) = lr_usr (cpu_regs s) \<and>
       spsr (cpu_regs r) = psr_mode_user"
proof -
  have "stall_sorted s A" using round_robin_halts [OF assms(1) _ _, of type] assms(4,5) by fastforce
  with assms(4,5) obtain h where s1: "s1 = switch_effect A s\<lparr>nodes := h\<rparr>"
    using round_robin_ok [OF assms(1), of type] by (metis option.inject)
  have "cpsr (blocks s t) = psr_mode_user"
    using scheduler_okD(4) [OF assms(1)] live_running(1) [OF assms(1-3)] by (simp add: owned_def)
  moreover have "blocks s1 t = blocks (scheduler_save_thread_context t s) t"
    using assms(2,3)
    by (simp add: s1 switch_effect_def scheduler_switch_thread_def Let_def enter_process_def save_previous_def)
  ultimately show ?thesis
    using assms(6)
    by (simp add: scheduler_switch_thread_def scheduler_save_thread_context_def set_thread_def Let_def)
qed

theorem context_round_trip_witness:
  "let r = scheduler_switch_thread 0 (the (scheduler_round_robin machine forced busy_kernel))
   in general (frame r) = general (frame busy_kernel) \<and> lr (frame r) = lr (frame busy_kernel) \<and>
      sp_usr (cpu_regs r) = sp_usr (cpu_regs busy_kernel) \<and> lr_usr (cpu_regs r) = lr_usr (cpu_regs busy_kernel) \<and>
      spsr (cpu_regs r) = psr_mode_user"
proof (rule context_round_trip [OF busy_kernel_ok])
  have "stall_sorted busy_kernel busy_lists" by (simp add: stall_sorted_def)
  then obtain s' where "scheduler_round_robin machine forced busy_kernel = Some s'"
    using round_robin_ok [OF busy_kernel_ok, of forced] by auto
  then show "scheduler_round_robin machine forced busy_kernel = Some (the (scheduler_round_robin machine forced busy_kernel))"
    by simp
qed (simp_all add: IDLE_THREAD_INDEX_def USER_THREAD_COUNT_def)

text \<open>C25. The stack of a thread that ended stays mapped in its old process: the next thread to be
  created reuses the block and the stack, and if it belongs to another process, both processes map
  this stack afterwards, although the slot of the old process counts as free.\<close>

theorem stale_stack_mapping:
  assumes "scheduler_ok e s A" "running A = [t]" "t \<noteq> IDLE_THREAD_INDEX"
    and "p < ADDRESS_SPACE_COUNT" "space A p = []" "n \<le> STACK_SIZE" "n = 0 \<or> args \<noteq> 0"
  shows "\<exists>s1 s2. scheduler_cleanup_thread s = Some s1 \<and> scheduler_create_process e p f args n s1 = Some s2 \<and>
    pid (blocks s t) \<noteq> p \<and> pid (blocks s2 t) = p \<and> stack_handle (blocks s2 t) = stack_handle (blocks s t) \<and>
    process_stack_handles s2 p 0 = stack_handle (blocks s2 t) \<and>
    process_stack_handles s2 (pid (blocks s t)) (pid_slot (blocks s t)) = stack_handle (blocks s2 t) \<and>
    \<not> slots_used s2 (pid (blocks s t)) (pid_slot (blocks s t))"
proof -
  let ?q = "pid (blocks s t)" and ?i = "pid_slot (blocks s t)"
  have own: "?q < ADDRESS_SPACE_COUNT" "t \<in> set (space A ?q)" "process_stack_handles s ?q ?i = stack_handle (blocks s t)"
    using scheduler_okD(4) [OF assms(1)] live_running(1) [OF assms(1-3)] by (auto simp: owned_def)
  have q: "?q \<noteq> p" using own(2) assms(5) by auto
  from cleanup_refines [OF scheduler_okD(1) [OF assms(1)] assms(2) own(1,2)]
  obtain h1 where "scheduler_cleanup_thread s =
      Some (s\<lparr>slots_used := (slots_used s)(?q := (slots_used s ?q)(?i := False)), nodes := h1\<rparr>)" .
  moreover obtain s1 where s1: "scheduler_cleanup_thread s = Some s1" "scheduler_ok e s1 (retire t ?q A)" "blocks s1 = blocks s"
    using cleanup_ok [OF assms(1-3)] .
  ultimately have s1': "process_stack_handles s1 = process_stack_handles s" "\<not> slots_used s1 ?q ?i" by auto
  have fin: "finished (retire t ?q A) = t # finished A" by (simp add: retire_def)
  note F = finished_head [OF s1(2) fin]
  obtain sz where sz: "k_align8 n = Some sz" "unat sz \<le> 1048576" using align8_small [OF assms(6)] .
  have "n = 0 \<or> args \<noteq> 0 \<and> kernel_stack_pointer t sz \<noteq> 0"
    using assms(7) kernel_stack_pointer_nonzero [OF F(1) sz(2)] by blast
  from create_process_refines [OF scheduler_okD(1) [OF s1(2)] fin assms(4) F(2,4,5) sz(1) this]
  obtain h m where s2: "scheduler_create_process e p f args n s1 =
      Some ((with_slot p 0 (stack_handle (blocks s1 t)) s1)
        \<lparr>blocks := (blocks s1)(t := started e p 0 f sz (blocks s1 t)), mem := m, nodes := h\<rparr>)" by metis
  show ?thesis
    by (intro exI conjI, rule s1(1), rule s2)
      (use s1(3) s1' own(3) q in \<open>simp_all add: with_slot_def started_def Let_def\<close>)
qed

theorem stale_stack_mapping_witness:
  "\<exists>s1 s2. scheduler_cleanup_thread running_kernel = Some s1 \<and>
    scheduler_create_process machine 1 0x400000 0 0 s1 = Some s2 \<and>
    pid (blocks running_kernel 0) \<noteq> 1 \<and> pid (blocks s2 0) = 1 \<and>
    stack_handle (blocks s2 0) = stack_handle (blocks running_kernel 0) \<and>
    process_stack_handles s2 1 0 = stack_handle (blocks s2 0) \<and>
    process_stack_handles s2 (pid (blocks running_kernel 0)) (pid_slot (blocks running_kernel 0)) = stack_handle (blocks s2 0) \<and>
    \<not> slots_used s2 (pid (blocks running_kernel 0)) (pid_slot (blocks running_kernel 0))"
  by (rule stale_stack_mapping [OF running_kernel_ok(2)])
    (simp_all add: IDLE_THREAD_INDEX_def USER_THREAD_COUNT_def ADDRESS_SPACE_COUNT_def)

section \<open>Exceptions and system calls in assembly\<close>

text \<open>C18. Around its handler an exception leaves nothing behind: the stub is one step of the kernel, it
  returns with the stack pointer of the exception's mode as it was, at the address and with the general
  registers of the frame, in user mode exactly when a user thread runs. An interrupt without the system
  timer is invisible to the program it interrupts: it goes on at the instruction it was interrupted before,
  four bytes before the link register, with its registers, its status and its own stack pointer.\<close>

theorem exception_return:
  assumes "reachable e s0" "l2_stack_tables_address e mod KiB = 0" "entered s0 s" "v \<noteq> reset"
    and "exception_stub v p rest (vector_handler e st v) x s = Some (x', a, s')"
  shows "kernel_step e s0 s' \<and> exc_sp x' = exc_sp x \<and> a = lr (frame s') \<and>
    (\<forall>i < 13. exc_r x' i = general (frame s') i) \<and>
    (get_spsr s' AND psr_mode = psr_mode_user \<longleftrightarrow> user_thread_runs s') \<and>
    (v = irq \<and> (\<forall>n. volatile e n (systimer_register CS) AND M1 = 0) \<longrightarrow>
       a = exc_lr x - 4 \<and> (\<forall>i < 13. exc_r x' i = exc_r x i) \<and> cpu_regs s' = cpu_regs s)"
proof (intro conjI impI)
  show step: "kernel_step e s0 s'" by (rule stub_step [OF assms(3,5)])
  show "exc_sp x' = exc_sp x" by (rule stub_stack [OF assms(5)])
  show "a = lr (frame s')" "\<forall>i < 13. exc_r x' i = general (frame s') i"
    by (rule exception_stub_result [OF assms(5)], blast)+
  show "get_spsr s' AND psr_mode = psr_mode_user \<longleftrightarrow> user_thread_runs s'"
    by (rule kernel_step_mode [OF assms(1) step assms(2)])
next
  assume quiet: "v = irq \<and> (\<forall>n. volatile e n (systimer_register CS) AND M1 = 0)"
  note stub = assms(5) [unfolded conjunct1 [OF quiet]]
  show "a = exc_lr x - 4" "\<forall>i < 13. exc_r x' i = exc_r x i" "cpu_regs s' = cpu_regs s"
    using quiet_stub [OF _ stub] quiet by blast+
qed

definition example_mode :: exception_mode where
  "example_mode = \<lparr>exc_r = of_nat, exc_sp = 0x7F00000, exc_lr = 0x400204, exc_stack = (\<lambda>_. 0)\<rparr>"

lemma faulting_entered: "entered running_kernel faulting_kernel"
proof -
  have "user_thread_runs running_kernel"
    using user_thread_runs_iff [OF running_kernel_ok(2)] by (simp add: IDLE_THREAD_INDEX_def USER_THREAD_COUNT_def)
  then show ?thesis
    unfolding entered_def faulting_kernel_def
    by (intro exI [of _ zero_registers] exI [of _ "\<lparr>spsr = psr_mode_user, sp_usr = 0, lr_usr = 0\<rparr>"]
        exI [of _ "mem running_kernel"]) (simp add: psr_defs)
qed

theorem exception_return_witness:
  "\<exists>x' a s'. exception_stub irq 0 (\<lambda>_. 0) (vector_handler machine example_status irq) example_mode faulting_kernel =
      Some (x', a, s') \<and> kernel_step machine running_kernel s' \<and> exc_sp x' = 0x7F00000"
proof -
  have ok: "scheduler_ok machine (faulting_kernel\<lparr>frame := f\<rparr>) running_lists" "rb_valid (cache (faulting_kernel\<lparr>frame := f\<rparr>))"
    "stall_sorted (faulting_kernel\<lparr>frame := f\<rparr>) running_lists" for f
    using running_kernel_ok(2,4) by (simp_all add: faulting_kernel_def stall_sorted_def)
  have "irq_interrupt_handler machine (faulting_kernel\<lparr>frame := f\<rparr>) \<noteq> None" for f
    using irq_ok(1) [OF ok] by blast
  then have "exception_stub irq 0 (\<lambda>_. 0) (vector_handler machine example_status irq) example_mode faulting_kernel \<noteq> None"
    by (intro stub_returns) (simp add: vector_handler_def)
  then obtain x' a s' where stub: "exception_stub irq 0 (\<lambda>_. 0) (vector_handler machine example_status irq) example_mode
      faulting_kernel = Some (x', a, s')"
    by auto
  from exception_return [OF running_reachable machine_aligned faulting_entered _ this] stub show ?thesis
    by (auto simp: example_mode_def)
qed

text \<open>C19. A stub of the library for user programs reaches the kernel's routine for its call: when user mode
  executes its \<^verbatim>\<open>svc\<close> instruction, the handler takes it for a valid system call with the kernel's number of that
  call and does what the dispatcher does for it, without a report.\<close>

theorem system_call_stubs:
  assumes "get_spsr s AND psr_mode = psr_mode_user" "load_instruction e (lr (frame s) - 4) s = hd (system_call_stub c)"
  shows "software_interrupt_handler e st s = map_option snd (dispatch_syscall e (kernel_syscall_number c) s)"
proof (cases "dispatch_syscall e (kernel_syscall_number c) s")
  case None
  then show ?thesis
    using assms(1) stub_instruction_decodes [OF assms(2)] by (simp add: software_interrupt_handler_def Let_def)
next
  case (Some y)
  obtain v s' where y: "y = (v, s')" by (cases y)
  have "v = 0"
    using dispatch_nonneg [OF Some [unfolded y]] stub_instruction_decodes [OF assms(2)] by (simp add: is_valid_syscall_def)
  with y Some show ?thesis
    using assms(1) stub_instruction_decodes [OF assms(2)] by (simp add: software_interrupt_handler_def Let_def)
qed

definition calling_kernel :: kernel where
  "calling_kernel = faulting_kernel\<lparr>frame := zero_registers\<lparr>lr := 0x400204\<rparr>,
     mem := (\<lambda>_. 0)(0x400200 := 8, 0x400203 := 0xEF)\<rparr>"

theorem system_call_stubs_witness:
  "software_interrupt_handler machine example_status calling_kernel =
    map_option snd (dispatch_syscall machine SYSCALL_GET_THREAD_ID_NO calling_kernel)"
  using system_call_stubs [of calling_kernel machine get_thread_id example_status]
  by (simp add: calling_kernel_def faulting_kernel_def get_spsr_def psr_defs load_instruction_def load_u32_def
      machine_def system_call_stub_def)

section \<open>The library for user programs\<close>



end
